(* ===== verification/Prelude.thy ===== *)
theory Prelude
  imports Main "HOL-Library.AList" "HOL-Library.Multiset"
begin

text \<open>
  Shared vocabulary of the development: the collections of simplification rules, Go's
  errors as a sum type, Go maps that are iterated (association lists without duplicate
  keys, updated in place as the library theory AList does) and the generic facts on
  lists, options and maps that several components use.
\<close>

named_theorems go_simps \<open>unfolding rules of the model's small wrappers\<close>
named_theorems inv_intros \<open>preservation lemmas of the components' invariants\<close>

section \<open>Results\<close>

text \<open>
  A Go function that returns a value and an error is a function into \<open>'e + 'a\<close>:
  \<open>Inl e\<close> when the error is not nil, \<open>Inr v\<close> otherwise.
\<close>

type_synonym ('e, 'a) go_result = "'e + 'a"

definition is_ok :: "'e + 'a \<Rightarrow> bool" where
  "is_ok r = (case r of Inl _ \<Rightarrow> False | Inr _ \<Rightarrow> True)"

lemma is_ok_simps [simp]: "\<not> is_ok (Inl e)" "is_ok (Inr v)"
  by (simp_all add: is_ok_def)

lemma is_okE: "is_ok r \<Longrightarrow> (\<And>v. r = Inr v \<Longrightarrow> P) \<Longrightarrow> P"
  by (cases r) auto

section \<open>Maps\<close>

text \<open>
  A Go map that the code only looks up and stores into is a HOL map; one whose keys are
  ranged over is an association list with distinct keys. Go leaves the order of a range
  over a map open; the list order stands for one such order.
\<close>

type_synonym ('k, 'v) gomap = "('k \<times> 'v) list"

definition gm_put :: "'k \<Rightarrow> 'v \<Rightarrow> ('k, 'v) gomap \<Rightarrow> ('k, 'v) gomap" where
  "gm_put k v m = AList.update k v m"

definition gm_get :: "('k, 'v) gomap \<Rightarrow> 'k \<Rightarrow> 'v option" where
  "gm_get m k = map_of m k"

definition gm_keys :: "('k, 'v) gomap \<Rightarrow> 'k list" where
  "gm_keys m = map fst m"

definition gm_ok :: "('k, 'v) gomap \<Rightarrow> bool" where
  "gm_ok m = distinct (map fst m)"

lemma gm_get_Nil [simp]: "gm_get [] k = None"
  by (simp add: gm_get_def)

lemma gm_get_put [simp]: "gm_get (gm_put k v m) k' = (if k' = k then Some v else gm_get m k')"
  by (simp add: gm_get_def gm_put_def update_conv')

lemma gm_ok_Nil [simp]: "gm_ok []"
  by (simp add: gm_ok_def)

lemma gm_ok_put [simp]: "gm_ok m \<Longrightarrow> gm_ok (gm_put k v m)"
  by (simp add: gm_ok_def gm_put_def distinct_update)

lemma set_gm_keys: "set (gm_keys m) = {k. gm_get m k \<noteq> None}"
  by (force simp: gm_keys_def gm_get_def map_of_eq_None_iff)

lemma gm_get_in_set: "gm_ok m \<Longrightarrow> (k, v) \<in> set m \<longleftrightarrow> gm_get m k = Some v"
  by (auto simp: gm_ok_def gm_get_def)

text \<open>Grouping a list by a key, in the order of the list: \<open>m[key] = append(m[key], x)\<close>.\<close>

definition group_step :: "('a \<Rightarrow> 'k) \<Rightarrow> ('k, 'a list) gomap \<Rightarrow> 'a \<Rightarrow> ('k, 'a list) gomap" where
  "group_step key m x =
     gm_put (key x) ((case gm_get m (key x) of None \<Rightarrow> [] | Some xs \<Rightarrow> xs) @ [x]) m"

definition group_by :: "('a \<Rightarrow> 'k) \<Rightarrow> 'a list \<Rightarrow> ('k, 'a list) gomap" where
  "group_by key xs = foldl (group_step key) [] xs"

text \<open>Reading a slice-valued map: an absent key reads as the nil slice.\<close>

definition gm_slice :: "('k, 'a list) gomap \<Rightarrow> 'k \<Rightarrow> 'a list" where
  "gm_slice m k = (case gm_get m k of None \<Rightarrow> [] | Some xs \<Rightarrow> xs)"

lemma gm_slice_group_step:
  "gm_slice (group_step key m x) k = gm_slice m k @ (if key x = k then [x] else [])"
  by (auto simp: gm_slice_def group_step_def)

lemma gm_slice_foldl_group_step:
  "gm_slice (foldl (group_step key) m xs) k = gm_slice m k @ filter (\<lambda>x. key x = k) xs"
  by (induction xs arbitrary: m) (simp_all add: gm_slice_group_step)

lemma gm_slice_group_by [simp]: "gm_slice (group_by key xs) k = filter (\<lambda>x. key x = k) xs"
  by (simp add: group_by_def gm_slice_foldl_group_step) (simp add: gm_slice_def)

lemma gm_ok_foldl_group_step: "gm_ok m \<Longrightarrow> gm_ok (foldl (group_step key) m xs)"
  by (induction xs arbitrary: m) (simp_all add: group_step_def)

lemma gm_ok_group_by [simp]: "gm_ok (group_by key xs)"
  by (simp add: group_by_def gm_ok_foldl_group_step)

lemma gm_get_foldl_group_step_None:
  "gm_get (foldl (group_step key) m xs) k = None \<longleftrightarrow> gm_get m k = None \<and> (\<forall>x \<in> set xs. key x \<noteq> k)"
  by (induction xs arbitrary: m) (auto simp: group_step_def)

lemma gm_get_group_by:
  "gm_get (group_by key xs) k
     = (if \<exists>x \<in> set xs. key x = k then Some (filter (\<lambda>x. key x = k) xs) else None)"
proof (cases "\<exists>x \<in> set xs. key x = k")
  case True
  then have "gm_get (group_by key xs) k \<noteq> None"
    unfolding group_by_def using gm_get_foldl_group_step_None [of key "[]" xs k] by auto
  then have "gm_get (group_by key xs) k = Some (gm_slice (group_by key xs) k)"
    by (auto simp: gm_slice_def)
  with True show ?thesis by simp
next
  case False
  then show ?thesis
    unfolding group_by_def using gm_get_foldl_group_step_None [of key "[]" xs k] by auto
qed

lemma set_group_by:
  "(k, ys) \<in> set (group_by key xs)
     \<longleftrightarrow> ys = filter (\<lambda>x. key x = k) xs \<and> (\<exists>x \<in> set xs. key x = k)"
  by (auto simp: gm_get_in_set gm_get_group_by split: if_splits)

section \<open>Lists\<close>

lemma find_Some_iff_ex: "(\<exists>y. find P xs = Some y) \<longleftrightarrow> (\<exists>x \<in> set xs. P x)"
  by (induction xs) auto

lemma find_SomeD: "find P xs = Some y \<Longrightarrow> y \<in> set xs \<and> P y"
  by (induction xs) (auto split: if_splits)

lemma mset_filter_eq: "mset xs = mset ys \<Longrightarrow> mset (filter P xs) = mset (filter P ys)"
  by simp

text \<open>\<open>dedup_by key xs\<close> keeps the first element of each key, in order.\<close>

fun dedup_by_aux :: "('a \<Rightarrow> 'k) \<Rightarrow> 'k list \<Rightarrow> 'a list \<Rightarrow> 'a list" where
  "dedup_by_aux key seen [] = []"
| "dedup_by_aux key seen (x # xs) =
     (if key x \<in> set seen then dedup_by_aux key seen xs
      else x # dedup_by_aux key (key x # seen) xs)"

definition dedup_by :: "('a \<Rightarrow> 'k) \<Rightarrow> 'a list \<Rightarrow> 'a list" where
  "dedup_by key xs = dedup_by_aux key [] xs"

lemma dedup_by_aux_subset: "set (dedup_by_aux key seen xs) \<subseteq> set xs"
  by (induction key seen xs rule: dedup_by_aux.induct) auto

lemma dedup_by_aux_keys:
  "key ` set (dedup_by_aux key seen xs) = key ` set xs - set seen"
  by (induction key seen xs rule: dedup_by_aux.induct) auto

lemma dedup_by_aux_distinct: "distinct (map key (dedup_by_aux key seen xs))"
proof (induction key seen xs rule: dedup_by_aux.induct)
  case (2 key seen x xs)
  have "key x \<notin> key ` set (dedup_by_aux key (key x # seen) xs)"
    by (simp add: dedup_by_aux_keys)
  with 2 show ?case by simp
qed simp

lemma dedup_by_subset: "set (dedup_by key xs) \<subseteq> set xs"
  by (simp add: dedup_by_def dedup_by_aux_subset)

lemma dedup_by_keys: "key ` set (dedup_by key xs) = key ` set xs"
  by (simp add: dedup_by_def dedup_by_aux_keys)

lemma dedup_by_distinct: "distinct (map key (dedup_by key xs))"
  by (simp add: dedup_by_def dedup_by_aux_distinct)

text \<open>The values of a list of results that may each fail to exist; the first error of a list.\<close>

fun all_some :: "'a option list \<Rightarrow> 'a list option" where
  "all_some [] = Some []"
| "all_some (x # xs) =
     (case x of None \<Rightarrow> None | Some a \<Rightarrow> (case all_some xs of None \<Rightarrow> None | Some as \<Rightarrow> Some (a # as)))"

fun first_error :: "('a \<Rightarrow> 'e option) \<Rightarrow> 'a list \<Rightarrow> 'e option" where
  "first_error f [] = None"
| "first_error f (x # xs) = (case f x of Some e \<Rightarrow> Some e | None \<Rightarrow> first_error f xs)"

lemma all_some_map_Some_id [simp]: "all_some (map Some ys) = Some ys"
  by (induction ys) simp_all

lemma all_some_Some: "all_some xs = Some ys \<longleftrightarrow> xs = map Some ys"
  by (induction xs arbitrary: ys) (auto split: option.splits)

lemma all_some_None: "all_some xs = None \<longleftrightarrow> None \<in> set xs"
  by (induction xs) (auto split: option.splits)

lemma all_some_map_nth:
  "all_some (map f xs) = Some ys \<longleftrightarrow> length ys = length xs \<and> (\<forall>i < length xs. f (xs ! i) = Some (ys ! i))"
  by (auto simp: all_some_Some list_eq_iff_nth_eq)

lemma set_all_some:
  assumes "all_some (map f xs) = Some ys"
  shows "y \<in> set ys \<longleftrightarrow> (\<exists>x \<in> set xs. f x = Some y)"
proof -
  have "f ` set xs = Some ` set ys"
    using assms by (metis all_some_Some list.set_map)
  then show ?thesis by (metis (no_types, lifting) image_iff option.inject)
qed

lemma set_concat_all_some:
  assumes "all_some (map f xs) = Some yss"
  shows "y \<in> set (concat yss) \<longleftrightarrow> (\<exists>x \<in> set xs. \<exists>ys. f x = Some ys \<and> y \<in> set ys)"
  unfolding set_concat UN_iff Bex_def set_all_some [OF assms] by blast

lemma first_error_None: "first_error f xs = None \<longleftrightarrow> (\<forall>x \<in> set xs. f x = None)"
  by (induction xs) (auto split: option.splits)

end
