(* ===== verification/Enums.thy ===== *)
theory Enums
  imports Prelude
begin

text \<open>
  The enumerations of src/internal/domain/entity/enums. In Go each is a named string type:
  any string can occur (rows come from the database), so the model keeps strings, one
  constant per declared value, with the validity test and the parser of each type. Parse
  returns \<open>Inl\<close> of the rejected text, which the error message quotes.
\<close>

section \<open>attribute_data_type.go\<close>

definition dt_text :: string where "dt_text = ''Text''"
definition dt_date :: string where "dt_date = ''Date''"
definition dt_number :: string where "dt_number = ''Number''"
definition dt_boolean :: string where "dt_boolean = ''Boolean''"

definition data_type_valid :: "string \<Rightarrow> bool" where
  "data_type_valid t = (t = dt_text \<or> t = dt_date \<or> t = dt_number \<or> t = dt_boolean)"

definition data_type_parse :: "string \<Rightarrow> (string, string) go_result" where
  "data_type_parse val = (if data_type_valid val then Inr val else Inl val)"

section \<open>calendar_type.go\<close>

definition calendar_type_valid :: "string \<Rightarrow> bool" where
  "calendar_type_valid c = (c = ''HOLIDAY'' \<or> c = ''PERSONAL'' \<or> c = ''CUSTOM'')"

definition calendar_type_parse :: "string \<Rightarrow> (string, string) go_result" where
  "calendar_type_parse val = (if calendar_type_valid val then Inr val else Inl val)"

section \<open>condition_type.go, connector_operator.go, content_request_type.go\<close>

definition condition_type_valid :: "string \<Rightarrow> bool" where
  "condition_type_valid t = (t = ''condition'' \<or> t = ''group'')"

definition conn_and :: string where "conn_and = ''AND''"
definition conn_or :: string where "conn_or = ''OR''"

definition connector_valid :: "string \<Rightarrow> bool" where
  "connector_valid c = (c = conn_and \<or> c = conn_or)"

definition connector_parse :: "string \<Rightarrow> (string, string) go_result" where
  "connector_parse val = (if connector_valid val then Inr val else Inl val)"

definition request_type_valid :: "string \<Rightarrow> bool" where
  "request_type_valid r =
     (r = ''personalizedContent'' \<or> r = ''staticContent'' \<or> r = ''articleCategory'')"

section \<open>decision_rule_status.go, decision_rule_sub_status.go, decision_rule_type.go\<close>

definition status_draft :: string where "status_draft = ''DRAFT''"
definition status_active :: string where "status_active = ''ACTIVE''"
definition status_inactive :: string where "status_inactive = ''INACTIVE''"

definition rule_status_valid :: "string \<Rightarrow> bool" where
  "rule_status_valid s = (s = status_draft \<or> s = status_active \<or> s = status_inactive)"

text \<open>The error message of this Parse quotes the receiver, not the argument.\<close>

definition rule_status_parse :: "string \<Rightarrow> string \<Rightarrow> (string, string) go_result" where
  "rule_status_parse recv val = (if rule_status_valid val then Inr val else Inl recv)"

definition sub_status_valid :: "string \<Rightarrow> bool" where
  "sub_status_valid s = (s = ''N/A'' \<or> s = ''Missing Attribute Registry'')"

definition sub_status_parse :: "string \<Rightarrow> (string, string) go_result" where
  "sub_status_parse val = (if sub_status_valid val then Inr val else Inl val)"

definition evaluate_type_valid :: "string \<Rightarrow> bool" where
  "evaluate_type_valid t = (t = ''SCORING'' \<or> t = ''SEGMENT'' \<or> t = ''ELIGIBLE'')"

definition evaluate_type_parse :: "string \<Rightarrow> (string, string) go_result" where
  "evaluate_type_parse val = (if evaluate_type_valid val then Inr val else Inl val)"

section \<open>decision_type.go, feature_code.go\<close>

definition type_mass :: string where "type_mass = ''MASS''"
definition type_audience :: string where "type_audience = ''AUDIENCE''"
definition type_sales_target :: string where "type_sales_target = ''SALES_TARGET''"
definition type_non_sales :: string where "type_non_sales = ''NON_SALES''"

definition decision_types :: "string list" where
  "decision_types = [type_mass, type_audience, type_sales_target, type_non_sales]"

definition decision_type_valid :: "string \<Rightarrow> bool" where
  "decision_type_valid f = (f \<in> set decision_types)"

definition decision_type_parse :: "string \<Rightarrow> (string, string) go_result" where
  "decision_type_parse val =
     (case find (\<lambda>v. v = val) decision_types of Some v \<Rightarrow> Inr v | None \<Rightarrow> Inl val)"

definition is_campaign :: "string \<Rightarrow> bool" where
  "is_campaign f = (f = type_audience \<or> f = type_sales_target)"

definition feature_codes :: "string list" where
  "feature_codes = [''CONTENT_DECISION_RULE'']"

definition feature_valid :: "string \<Rightarrow> bool" where
  "feature_valid f = (f \<in> set feature_codes)"

definition feature_parse :: "string \<Rightarrow> (string, string) go_result" where
  "feature_parse val =
     (case find (\<lambda>v. v = val) feature_codes of Some v \<Rightarrow> Inr v | None \<Rightarrow> Inl val)"

section \<open>logical_operator.go\<close>

definition op_lt :: string where "op_lt = ''<''"
definition op_lte :: string where "op_lte = ''<=''"
definition op_gt :: string where "op_gt = ''>''"
definition op_gte :: string where "op_gte = ''>=''"
definition op_eq :: string where "op_eq = ''=''"
definition op_neq :: string where "op_neq = ''!=''"
definition op_in :: string where "op_in = ''IN''"
definition op_nin :: string where "op_nin = ''NOT IN''"
definition op_between :: string where "op_between = ''BETWEEN''"
definition op_contains :: string where "op_contains = ''CONTAINS''"

definition all_operators :: "string list" where
  "all_operators =
     [op_lt, op_lte, op_gt, op_gte, op_eq, op_neq, op_in, op_nin, op_between, op_contains]"

definition operator_valid :: "string \<Rightarrow> bool" where
  "operator_valid o' =
     (o' = op_lt \<or> o' = op_lte \<or> o' = op_gt \<or> o' = op_gte \<or> o' = op_eq \<or> o' = op_neq
      \<or> o' = op_in \<or> o' = op_nin \<or> o' = op_between \<or> o' = op_contains)"

definition operator_parse :: "string \<Rightarrow> (string, string) go_result" where
  "operator_parse val = (if operator_valid val then Inr val else Inl val)"

section \<open>occurrence_source.go, occurrence_status.go, recurrence_type.go, response_code.go\<close>

definition occurrence_source_valid :: "string \<Rightarrow> bool" where
  "occurrence_source_valid s = (s = ''RECURRENCE'' \<or> s = ''CALENDAR'' \<or> s = ''MANUAL'')"

definition occurrence_source_parse :: "string \<Rightarrow> (string, string) go_result" where
  "occurrence_source_parse val = (if occurrence_source_valid val then Inr val else Inl val)"

definition occ_active :: string where "occ_active = ''ACTIVE''"

definition occurrence_status_valid :: "string \<Rightarrow> bool" where
  "occurrence_status_valid s = (s = occ_active \<or> s = ''CANCELLED'' \<or> s = ''EXPIRED'')"

definition occurrence_status_parse :: "string \<Rightarrow> (string, string) go_result" where
  "occurrence_status_parse val = (if occurrence_status_valid val then Inr val else Inl val)"

definition recurrence_type_valid :: "string \<Rightarrow> bool" where
  "recurrence_type_valid r = (r = ''ONCE'' \<or> r = ''RRULE'' \<or> r = ''CALENDAR'')"

definition recurrence_type_parse :: "string \<Rightarrow> (string, string) go_result" where
  "recurrence_type_parse val = (if recurrence_type_valid val then Inr val else Inl val)"

definition code_success :: string where "code_success = ''SUCCESS''"
definition code_bad_request :: string where "code_bad_request = ''ERROR_BAD_REQUEST''"
definition code_internal_error :: string where "code_internal_error = ''ERROR_INTERNAL_ERROR''"

section \<open>Facts\<close>

lemmas op_defs =
  op_lt_def op_lte_def op_gt_def op_gte_def op_eq_def op_neq_def op_in_def op_nin_def
  op_between_def op_contains_def

lemmas dt_defs = dt_text_def dt_date_def dt_number_def dt_boolean_def

lemmas conn_defs = conn_and_def conn_or_def

lemmas type_defs = type_mass_def type_audience_def type_sales_target_def type_non_sales_def

text \<open>Every operator the type lists is valid, and the list has no duplicates.\<close>

lemma operator_valid_iff: "operator_valid o' \<longleftrightarrow> o' \<in> set all_operators"
  by (auto simp: operator_valid_def all_operators_def)

lemma distinct_operators: "distinct all_operators"
  by (simp add: all_operators_def op_defs)

lemma dt_distinct [simp]:
  "dt_text \<noteq> dt_number" "dt_text \<noteq> dt_date" "dt_text \<noteq> dt_boolean" "dt_number \<noteq> dt_date"
  "dt_number \<noteq> dt_boolean" "dt_date \<noteq> dt_boolean"
  by (simp_all add: dt_defs)

text \<open>A parser returns its argument and accepts exactly the valid values.\<close>

lemma find_eq_mem: "find (\<lambda>v. v = x) xs = (if x \<in> set xs then Some x else None)"
  by (induction xs) auto

lemma decision_type_parse_iff: "is_ok (decision_type_parse v) \<longleftrightarrow> decision_type_valid v"
  by (simp add: decision_type_parse_def decision_type_valid_def find_eq_mem)

lemma feature_parse_iff: "is_ok (feature_parse v) \<longleftrightarrow> feature_valid v"
  by (simp add: feature_parse_def feature_valid_def find_eq_mem)

end
