(* ===== verification/Go_Strings.thy ===== *)
theory Go_Strings
  imports Go_Unicode
begin

text \<open>
  Go strings are byte strings: a HOL \<open>string\<close> whose characters are the bytes. This
  theory models the functions of the packages strings, strconv and unicode/utf8 that the
  code calls, on bytes and with the UTF-8 decoding Go performs (an ill-formed byte decodes
  to U+FFFD of width one).
\<close>

abbreviation byte :: "char \<Rightarrow> nat" where
  "byte c \<equiv> of_char c"

abbreviation chr :: "nat \<Rightarrow> char" where
  "chr n \<equiv> char_of n"

section \<open>UTF-8\<close>

definition is_cont :: "char \<Rightarrow> bool" where
  "is_cont c = (128 \<le> byte c \<and> byte c < 192)"

definition in_range :: "nat \<Rightarrow> nat \<Rightarrow> char \<Rightarrow> bool" where
  "in_range lo hi c = (lo \<le> byte c \<and> byte c \<le> hi)"

text \<open>utf8.DecodeRune: the rune and the number of bytes it takes.\<close>

definition decode_rune3 :: "nat \<Rightarrow> string \<Rightarrow> rune \<times> nat" where
  "decode_rune3 b0 cs =
     (case cs of
        c1 # c2 # _ \<Rightarrow>
          if in_range (if b0 = 224 then 160 else 128) (if b0 = 237 then 159 else 191) c1 \<and> is_cont c2
          then ((b0 - 224) * 4096 + (byte c1 - 128) * 64 + (byte c2 - 128), 3)
          else (rune_error, 1)
      | _ \<Rightarrow> (rune_error, 1))"

definition decode_rune4 :: "nat \<Rightarrow> string \<Rightarrow> rune \<times> nat" where
  "decode_rune4 b0 cs =
     (case cs of
        c1 # c2 # c3 # _ \<Rightarrow>
          if in_range (if b0 = 240 then 144 else 128) (if b0 = 244 then 143 else 191) c1
             \<and> is_cont c2 \<and> is_cont c3
          then ((b0 - 240) * 262144 + (byte c1 - 128) * 4096 + (byte c2 - 128) * 64
                + (byte c3 - 128), 4)
          else (rune_error, 1)
      | _ \<Rightarrow> (rune_error, 1))"

fun decode_rune :: "string \<Rightarrow> rune \<times> nat" where
  "decode_rune [] = (rune_error, 0)"
| "decode_rune (c # cs) =
     (let b0 = byte c in
      if b0 < 128 then (b0, 1)
      else if b0 < 194 then (rune_error, 1)
      else if b0 < 224 then
        (case cs of
           c1 # _ \<Rightarrow> if is_cont c1 then ((b0 - 192) * 64 + (byte c1 - 128), 2) else (rune_error, 1)
         | [] \<Rightarrow> (rune_error, 1))
      else if b0 < 240 then decode_rune3 b0 cs
      else if b0 < 245 then decode_rune4 b0 cs
      else (rune_error, 1))"

lemma decode_rune_width:
  "s \<noteq> [] \<Longrightarrow> 1 \<le> snd (decode_rune s) \<and> snd (decode_rune s) \<le> length s"
  by (cases s) (auto simp: Let_def decode_rune3_def decode_rune4_def split: list.splits)

text \<open>utf8.EncodeRune; surrogates and values past U+10FFFF are encoded as U+FFFD.\<close>

definition encode_rune :: "rune \<Rightarrow> string" where
  "encode_rune r0 =
     (let r = (if r0 > 1114111 \<or> (55296 \<le> r0 \<and> r0 \<le> 57343) then rune_error else r0) in
      if r < 128 then [chr r]
      else if r < 2048 then [chr (192 + r div 64), chr (128 + r mod 64)]
      else if r < 65536 then [chr (224 + r div 4096), chr (128 + (r div 64) mod 64), chr (128 + r mod 64)]
      else [chr (240 + r div 262144), chr (128 + (r div 4096) mod 64),
            chr (128 + (r div 64) mod 64), chr (128 + r mod 64)])"

text \<open>The runes a \<open>for range\<close> loop over a string visits.\<close>

function (sequential) runes :: "string \<Rightarrow> rune list" where
  "runes [] = []"
| "runes (c # cs) = fst (decode_rune (c # cs)) # runes (drop (snd (decode_rune (c # cs))) (c # cs))"
  by pat_completeness auto
termination
proof (relation "measure length")
  fix c :: char and cs
  have "1 \<le> snd (decode_rune (c # cs))"
    using decode_rune_width [of "c # cs"] by simp
  then show "(drop (snd (decode_rune (c # cs))) (c # cs), c # cs) \<in> measure length"
    by simp
qed simp

declare runes.simps(2) [simp del]

definition is_ascii :: "string \<Rightarrow> bool" where
  "is_ascii s = list_all (\<lambda>c. byte c < 128) s"

lemma is_ascii_simps [simp]: "is_ascii []" "is_ascii (c # cs) \<longleftrightarrow> byte c < 128 \<and> is_ascii cs"
  by (simp_all add: is_ascii_def)

lemma runes_ascii_Cons [simp]: "byte c < 128 \<Longrightarrow> runes (c # cs) = byte c # runes cs"
  by (subst runes.simps(2)) (simp add: Let_def)

lemma runes_ascii: "is_ascii s \<Longrightarrow> runes s = map of_char s"
  by (induction s) simp_all

section \<open>Package strings\<close>

text \<open>strings.TrimSpace: white space runes are removed at both ends.\<close>

function (sequential) trim_left :: "string \<Rightarrow> string" where
  "trim_left [] = []"
| "trim_left (c # cs) =
     (if is_space_rune (fst (decode_rune (c # cs)))
      then trim_left (drop (snd (decode_rune (c # cs))) (c # cs)) else c # cs)"
  by pat_completeness auto
termination
proof (relation "measure length")
  fix c :: char and cs
  have "1 \<le> snd (decode_rune (c # cs))"
    using decode_rune_width [of "c # cs"] by simp
  then show "(drop (snd (decode_rune (c # cs))) (c # cs), c # cs) \<in> measure length"
    by simp
qed simp

declare trim_left.simps(2) [simp del]

text \<open>
  At the right end the last rune is found backwards: the argument is the reversed string,
  and a white space rune is a suffix of one, two or three bytes.
\<close>

fun trim_rev :: "string \<Rightarrow> string" where
  "trim_rev [] = []"
| "trim_rev (c # cs) =
     (if byte c < 128 then (if is_space_rune (byte c) then trim_rev cs else c # cs)
      else
        (case cs of
           [] \<Rightarrow> c # cs
         | c1 # cs1 \<Rightarrow>
             if snd (decode_rune [c1, c]) = 2 then
               (if is_space_rune (fst (decode_rune [c1, c])) then trim_rev cs1 else c # cs)
             else
               (case cs1 of
                  [] \<Rightarrow> c # cs
                | c2 # cs2 \<Rightarrow>
                    if snd (decode_rune [c2, c1, c]) = 3 \<and> is_space_rune (fst (decode_rune [c2, c1, c]))
                    then trim_rev cs2 else c # cs)))"

definition trim_space :: "string \<Rightarrow> string" where
  "trim_space s = rev (trim_rev (rev (trim_left s)))"

text \<open>strings.EqualFold: equality of the runes under simple case folding.\<close>

definition equal_fold :: "string \<Rightarrow> string \<Rightarrow> bool" where
  "equal_fold s t = (map fold_key (runes s) = map fold_key (runes t))"

text \<open>strings.ToLower; an ASCII string is mapped byte by byte.\<close>

definition to_lower :: "string \<Rightarrow> string" where
  "to_lower s =
     (if is_ascii s then map (\<lambda>c. chr (to_lower_rune (byte c))) s
      else concat (map (\<lambda>r. encode_rune (to_lower_rune r)) (runes s)))"

definition has_prefix :: "string \<Rightarrow> string \<Rightarrow> bool" where
  "has_prefix s p = (take (length p) s = p)"

definition trim_prefix :: "string \<Rightarrow> string \<Rightarrow> string" where
  "trim_prefix s p = (if has_prefix s p then drop (length p) s else s)"

fun contains :: "string \<Rightarrow> string \<Rightarrow> bool" where
  "contains [] sub = (sub = [])"
| "contains (c # cs) sub = (has_prefix (c # cs) sub \<or> contains cs sub)"

text \<open>strings.Split by a one-byte separator.\<close>

fun split_on :: "char \<Rightarrow> string \<Rightarrow> string list" where
  "split_on sep [] = [[]]"
| "split_on sep (c # cs) =
     (if c = sep then [] # split_on sep cs
      else (case split_on sep cs of p # ps \<Rightarrow> (c # p) # ps | [] \<Rightarrow> [[c]]))"

fun join :: "string \<Rightarrow> string list \<Rightarrow> string" where
  "join sep [] = []"
| "join sep [s] = s"
| "join sep (s # t # ts) = s @ sep @ join sep (t # ts)"

fun replace_char :: "char \<Rightarrow> string \<Rightarrow> string \<Rightarrow> string" where
  "replace_char c by [] = []"
| "replace_char c by (x # xs) = (if x = c then by else [x]) @ replace_char c by xs"

text \<open>strconv.Itoa and \<open>%d\<close>.\<close>

fun nat_digits :: "nat \<Rightarrow> string" where
  "nat_digits n = (if n < 10 then [chr (48 + n)] else nat_digits (n div 10) @ [chr (48 + n mod 10)])"

declare nat_digits.simps [simp del]

definition itoa :: "int \<Rightarrow> string" where
  "itoa i = (if i < 0 then ''-'' @ nat_digits (nat (- i)) else nat_digits (nat i))"

text \<open>The order of strings in Go: byte by byte.\<close>

fun str_lt :: "string \<Rightarrow> string \<Rightarrow> bool" where
  "str_lt s [] = False"
| "str_lt [] (d # ds) = True"
| "str_lt (c # cs) (d # ds) = (byte c < byte d \<or> (c = d \<and> str_lt cs ds))"

section \<open>Facts\<close>

lemma equal_fold_refl [simp]: "equal_fold s s"
  by (simp add: equal_fold_def)

lemma equal_fold_sym: "equal_fold s t \<longleftrightarrow> equal_fold t s"
  by (auto simp: equal_fold_def)

lemma equal_fold_trans: "equal_fold s t \<Longrightarrow> equal_fold t u \<Longrightarrow> equal_fold s u"
  by (simp add: equal_fold_def)

lemma split_on_nonempty [simp]: "split_on sep s \<noteq> []"
  by (cases s) (auto split: list.splits)

lemma join_split_on: "join [sep] (split_on sep s) = s"
proof (induction s)
  case (Cons c cs)
  then show ?case
    by (cases "split_on sep cs" rule: list.exhaust; cases "tl (split_on sep cs)") auto
qed simp

lemma trim_prefix_append [simp]: "trim_prefix (p @ s) p = s"
  by (simp add: trim_prefix_def has_prefix_def)

lemma has_prefix_append [simp]: "has_prefix (p @ s) p"
  by (simp add: has_prefix_def)

lemma nat_digits_nonempty [simp]: "nat_digits n \<noteq> []"
  by (subst nat_digits.simps) simp

lemma contains_iff: "contains s sub \<longleftrightarrow> (\<exists>a b. s = a @ sub @ b)"
proof (induction s)
  case (Cons c cs)
  show ?case
  proof
    assume "contains (c # cs) sub"
    then consider "has_prefix (c # cs) sub" | "contains cs sub" by auto
    then show "\<exists>a b. c # cs = a @ sub @ b"
    proof cases
      case 1
      then have "c # cs = [] @ sub @ drop (length sub) (c # cs)"
        by (metis append_Nil append_take_drop_id has_prefix_def)
      then show ?thesis by blast
    next
      case 2
      with Cons.IH show ?thesis by (metis append_Cons)
    qed
  next
    assume "\<exists>a b. c # cs = a @ sub @ b"
    then obtain a b where ab: "c # cs = a @ sub @ b" by blast
    show "contains (c # cs) sub"
    proof (cases a)
      case Nil
      with ab have "has_prefix (c # cs) sub" by (simp add: has_prefix_def)
      then show ?thesis by simp
    next
      case (Cons x xs)
      with ab Cons.IH show ?thesis by auto
    qed
  qed
qed simp

text \<open>The order of strings is a strict linear order.\<close>

lemma str_lt_irrefl [simp]: "\<not> str_lt s s"
  by (induction s) simp_all

lemma str_lt_trans: "str_lt s t \<Longrightarrow> str_lt t u \<Longrightarrow> str_lt s u"
  by (induction s t arbitrary: u rule: str_lt.induct) (case_tac u; auto)+

lemma str_lt_total: "s \<noteq> t \<Longrightarrow> str_lt s t \<or> str_lt t s"
proof (induction s t rule: str_lt.induct)
  case (3 c cs d ds)
  have "c \<noteq> d \<Longrightarrow> byte c \<noteq> byte d" by simp
  with 3 show ?case by (cases "c = d") (auto simp: nat_neq_iff simp del: of_char_eq_iff)
qed (auto simp: neq_Nil_conv)

lemma str_lt_incomp: "\<not> str_lt s t \<Longrightarrow> \<not> str_lt t u \<Longrightarrow> \<not> str_lt s u"
  using str_lt_total str_lt_trans by metis

end
