(* ===== verification/Go_Time.thy ===== *)
theory Go_Time
  imports Go_Strings
begin

text \<open>
  time.Time: an instant and the offset of its location at that instant (the location
  itself is only read through the offset). time.Parse is modelled for the two layouts the
  code uses, RFC 3339 and the bare date, chunk by chunk as package time does: hours of one
  digit, a fraction after the seconds whether or not the layout has one, and offsets up to
  24 hours and 60 minutes are accepted. Format is modelled for RFC 3339.
\<close>

record gotime =
  tm_ns :: int   \<comment> \<open>nanoseconds since 1970-01-01T00:00:00Z\<close>
  tm_off :: int  \<comment> \<open>seconds east of UTC\<close>

type_synonym duration = int

definition second_ns :: duration where "second_ns = 1000000000"
definition minute_ns :: duration where "minute_ns = 60 * second_ns"
definition hour_ns :: duration where "hour_ns = 60 * minute_ns"

text \<open>The zero time: January 1, year 1, UTC.\<close>

definition zero_time :: gotime where
  "zero_time = \<lparr>tm_ns = - 62135596800 * second_ns, tm_off = 0\<rparr>"

definition is_zero_time :: "gotime \<Rightarrow> bool" where
  "is_zero_time t = (tm_ns t = tm_ns zero_time)"

definition time_equal :: "gotime \<Rightarrow> gotime \<Rightarrow> bool" where
  "time_equal a b = (tm_ns a = tm_ns b)"

definition time_before :: "gotime \<Rightarrow> gotime \<Rightarrow> bool" where
  "time_before a b = (tm_ns a < tm_ns b)"

definition time_after :: "gotime \<Rightarrow> gotime \<Rightarrow> bool" where
  "time_after a b = (tm_ns b < tm_ns a)"

definition time_add :: "gotime \<Rightarrow> duration \<Rightarrow> gotime" where
  "time_add t d = t\<lparr>tm_ns := tm_ns t + d\<rparr>"

definition time_utc :: "gotime \<Rightarrow> gotime" where
  "time_utc t = t\<lparr>tm_off := 0\<rparr>"

text \<open>Unix(): whole seconds, rounded down.\<close>

definition time_unix :: "gotime \<Rightarrow> int" where
  "time_unix t = tm_ns t div second_ns"

section \<open>Civil dates\<close>

definition is_leap :: "int \<Rightarrow> bool" where
  "is_leap y = (y mod 4 = 0 \<and> (y mod 100 \<noteq> 0 \<or> y mod 400 = 0))"

definition days_in :: "int \<Rightarrow> int \<Rightarrow> int" where
  "days_in m y =
     (if m = 2 then (if is_leap y then 29 else 28)
      else if m = 4 \<or> m = 6 \<or> m = 9 \<or> m = 11 then 30 else 31)"

text \<open>Days from 1970-01-01, counting years from March so that leap days come last.\<close>

definition days_from_civil :: "int \<Rightarrow> int \<Rightarrow> int \<Rightarrow> int" where
  "days_from_civil y m d =
     (let y' = (if m \<le> 2 then y - 1 else y);
          mp = (m + 9) mod 12;
          doy = (153 * mp + 2) div 5 + d - 1 in
      y' * 365 + y' div 4 - y' div 100 + y' div 400 + doy - 719468)"

definition civil_from_days :: "int \<Rightarrow> int \<times> int \<times> int" where
  "civil_from_days z0 =
     (let z = z0 + 719468;
          era = z div 146097;
          doe = z mod 146097;
          yoe = (doe - doe div 1460 + doe div 36524 - doe div 146096) div 365;
          doy = doe - (365 * yoe + yoe div 4 - yoe div 100);
          mp = (5 * doy + 2) div 153;
          d = doy - (153 * mp + 2) div 5 + 1;
          m = (if mp < 10 then mp + 3 else mp - 9);
          y = yoe + era * 400 in
      (if m \<le> 2 then y + 1 else y, m, d))"

section \<open>Parse\<close>

definition digit_at :: "string \<Rightarrow> nat \<Rightarrow> bool" where
  "digit_at s i = (i < length s \<and> 48 \<le> byte (s ! i) \<and> byte (s ! i) \<le> 57)"

definition dig :: "char \<Rightarrow> int" where
  "dig c = int (byte c) - 48"

fun digits_int :: "int \<Rightarrow> string \<Rightarrow> int" where
  "digits_int acc [] = acc"
| "digits_int acc (c # cs) = digits_int (acc * 10 + dig c) cs"

text \<open>getnum: one or two digits; two are required when \<open>fixed\<close>.\<close>

definition getnum :: "string \<Rightarrow> bool \<Rightarrow> (int \<times> string) option" where
  "getnum s fixed =
     (if \<not> digit_at s 0 then None
      else if \<not> digit_at s 1 then (if fixed then None else Some (dig (s ! 0), drop 1 s))
      else Some (dig (s ! 0) * 10 + dig (s ! 1), drop 2 s))"

text \<open>A number within bounds, else a range error.\<close>

definition getnum_in :: "string \<Rightarrow> bool \<Rightarrow> int \<Rightarrow> int \<Rightarrow> (int \<times> string) option" where
  "getnum_in s fixed lo hi =
     (case getnum s fixed of
        Some (n, r) \<Rightarrow> if lo \<le> n \<and> n \<le> hi then Some (n, r) else None
      | None \<Rightarrow> None)"

definition get_year :: "string \<Rightarrow> (int \<times> string) option" where
  "get_year s =
     (if digit_at s 0 \<and> digit_at s 1 \<and> digit_at s 2 \<and> digit_at s 3
      then Some (digits_int 0 (take 4 s), drop 4 s) else None)"

definition skip_lit :: "char \<Rightarrow> string \<Rightarrow> string option" where
  "skip_lit c s = (case s of x # xs \<Rightarrow> if x = c then Some xs else None | [] \<Rightarrow> None)"

text \<open>Year, month and day; the day is checked against the month at the end of Parse.\<close>

definition scan_date :: "string \<Rightarrow> ((int \<times> int \<times> int) \<times> string) option" where
  "scan_date s =
     Option.bind (get_year s) (\<lambda>(y, s).
     Option.bind (skip_lit CHR ''-'' s) (\<lambda>s.
     Option.bind (getnum_in s True 1 12) (\<lambda>(m, s).
     Option.bind (skip_lit CHR ''-'' s) (\<lambda>s.
     Option.bind (getnum s True) (\<lambda>(d, s). Some ((y, m, d), s))))))"

text \<open>The optional fraction: at most nine digits count, the others are dropped.\<close>

fun digits_span :: "string \<Rightarrow> string \<times> string" where
  "digits_span [] = ([], [])"
| "digits_span (c # cs) =
     (if 48 \<le> byte c \<and> byte c \<le> 57 then (let (ds, r) = digits_span cs in (c # ds, r)) else ([], c # cs))"

definition get_frac :: "string \<Rightarrow> int \<times> string" where
  "get_frac s =
     (if 2 \<le> length s \<and> (hd s = CHR ''.'' \<or> hd s = CHR '','') \<and> digit_at s 1 then
        (let (ds, r) = digits_span (tl s); k = take 9 ds in
         (digits_int 0 k * 10 ^ (9 - length k), r))
      else (0, s))"

definition get_clock :: "string \<Rightarrow> ((int \<times> int \<times> int \<times> int) \<times> string) option" where
  "get_clock s =
     Option.bind (getnum_in s False 0 23) (\<lambda>(h, s).
     Option.bind (skip_lit CHR '':'' s) (\<lambda>s.
     Option.bind (getnum_in s True 0 59) (\<lambda>(mi, s).
     Option.bind (skip_lit CHR '':'' s) (\<lambda>s.
     Option.bind (getnum_in s True 0 59) (\<lambda>(sc, s).
       (let (ns, r) = get_frac s in Some ((h, mi, sc, ns), r)))))))"

definition get_zone :: "string \<Rightarrow> (int \<times> string) option" where
  "get_zone s =
     (if s \<noteq> [] \<and> hd s = CHR ''Z'' then Some (0, tl s)
      else if length s < 6 \<or> s ! 3 \<noteq> CHR '':'' then None
      else
        (case (getnum_in (take 2 (drop 1 s)) True 0 24, getnum_in (take 2 (drop 4 s)) True 0 60) of
           (Some (h, _), Some (m, _)) \<Rightarrow>
             if hd s = CHR ''+'' then Some ((h * 60 + m) * 60, drop 6 s)
             else if hd s = CHR ''-'' then Some (- ((h * 60 + m) * 60), drop 6 s)
             else None
         | _ \<Rightarrow> None))"

definition mk_time :: "int \<times> int \<times> int \<Rightarrow> int \<times> int \<times> int \<times> int \<Rightarrow> int \<Rightarrow> gotime" where
  "mk_time ymd clock off =
     (let (y, m, d) = ymd; (h, mi, sc, ns) = clock in
      \<lparr>tm_ns = (days_from_civil y m d * 86400 + h * 3600 + mi * 60 + sc - off) * second_ns + ns,
       tm_off = off\<rparr>)"

definition day_ok :: "int \<times> int \<times> int \<Rightarrow> bool" where
  "day_ok ymd = (let (y, m, d) = ymd in 1 \<le> d \<and> d \<le> days_in m y)"

text \<open>time.Parse(time.RFC3339, s).\<close>

definition parse_rfc3339 :: "string \<Rightarrow> gotime option" where
  "parse_rfc3339 s =
     Option.bind (scan_date s) (\<lambda>(ymd, s).
     Option.bind (skip_lit CHR ''T'' s) (\<lambda>s.
     Option.bind (get_clock s) (\<lambda>(clock, s).
     Option.bind (get_zone s) (\<lambda>(off, s).
       if s = [] \<and> day_ok ymd then Some (mk_time ymd clock off) else None))))"

text \<open>time.Parse("2006-01-02", s).\<close>

definition parse_date_only :: "string \<Rightarrow> gotime option" where
  "parse_date_only s =
     Option.bind (scan_date s) (\<lambda>(ymd, s).
       if s = [] \<and> day_ok ymd then Some (mk_time ymd (0, 0, 0, 0) 0) else None)"

section \<open>Format\<close>

definition pad2 :: "int \<Rightarrow> string" where
  "pad2 n = (if n < 10 then ''0'' @ nat_digits (nat n) else nat_digits (nat n))"

definition pad4 :: "int \<Rightarrow> string" where
  "pad4 n =
     (let ds = nat_digits (nat \<bar>n\<bar>) in
      (if n < 0 then ''-'' else []) @ replicate (4 - length ds) CHR ''0'' @ ds)"

definition format_zone :: "int \<Rightarrow> string" where
  "format_zone off =
     (if off = 0 then ''Z''
      else
        let z = \<bar>off\<bar> div 60 in
        (if off < 0 \<and> z \<noteq> 0 then ''-'' else ''+'') @ pad2 (z div 60) @ '':'' @ pad2 (z mod 60))"

definition format_rfc3339 :: "gotime \<Rightarrow> string" where
  "format_rfc3339 t =
     (let secs = tm_ns t div second_ns + tm_off t;
          (y, m, d) = civil_from_days (secs div 86400);
          r = secs mod 86400 in
      pad4 y @ ''-'' @ pad2 m @ ''-'' @ pad2 d @ ''T''
        @ pad2 (r div 3600) @ '':'' @ pad2 (r mod 3600 div 60) @ '':'' @ pad2 (r mod 60)
        @ format_zone (tm_off t))"

section \<open>Facts\<close>

lemma time_equal_refl [simp]: "time_equal t t"
  by (simp add: time_equal_def)

lemma time_trichotomy: "time_before a b \<or> time_equal a b \<or> time_after a b"
  by (auto simp: time_before_def time_equal_def time_after_def)

lemma time_before_after: "time_before a b \<longleftrightarrow> time_after b a"
  by (simp add: time_before_def time_after_def)

lemma time_order_exclusive:
  "time_before a b \<Longrightarrow> \<not> time_equal a b \<and> \<not> time_after a b"
  "time_after a b \<Longrightarrow> \<not> time_equal a b \<and> \<not> time_before a b"
  by (simp_all add: time_before_def time_equal_def time_after_def)

end
