(* ===== verification/Uuid.thy ===== *)
theory Uuid
  imports Go_Strings "HOL-Library.Word"
begin

text \<open>
  UUIDs. The type is the sixteen bytes of github.com/google/uuid read as one 128-bit word;
  String and Parse of that package are parameters of the model, collected in a record (Parse
  returns a value also when it fails, and the code uses it in two places). The
  locale states what the code relies on: parsing undoes printing, and a printed UUID is not
  the empty string (the code keys its parent index with the empty string for roots). The
  canonical textual form, 8-4-4-4-12 lower-case hexadecimal digits, is an instance.
\<close>

type_synonym uuid = "128 word"

definition uuid_nil :: uuid where "uuid_nil = 0"

record uuid_ops =
  uuid_string :: "uuid \<Rightarrow> string"
  uuid_parse :: "string \<Rightarrow> uuid \<times> bool"

locale uuid_laws =
  fixes U :: uuid_ops
  assumes parse_string: "uuid_parse U (uuid_string U u) = (u, True)"
    and string_nonempty: "uuid_string U u \<noteq> []"
begin

lemma string_inj [simp]: "uuid_string U u = uuid_string U v \<longleftrightarrow> u = v"
  by (metis parse_string prod.inject)

lemma inj_string: "inj (uuid_string U)"
  by (rule injI) simp

end

section \<open>The canonical form\<close>

definition hex_char :: "nat \<Rightarrow> char" where
  "hex_char n = (if n < 10 then chr (48 + n) else chr (87 + n))"

definition unhex_char :: "char \<Rightarrow> nat option" where
  "unhex_char c =
     (let b = byte c in
      if 48 \<le> b \<and> b \<le> 57 then Some (b - 48)
      else if 97 \<le> b \<and> b \<le> 102 then Some (b - 87)
      else if 65 \<le> b \<and> b \<le> 70 then Some (b - 55) else None)"

fun hex_fixed :: "nat \<Rightarrow> nat \<Rightarrow> string" where
  "hex_fixed 0 n = []"
| "hex_fixed (Suc k) n = hex_fixed k (n div 16) @ [hex_char (n mod 16)]"

fun unhex :: "nat \<Rightarrow> string \<Rightarrow> nat option" where
  "unhex acc [] = Some acc"
| "unhex acc (c # cs) = (case unhex_char c of None \<Rightarrow> None | Some d \<Rightarrow> unhex (acc * 16 + d) cs)"

lemma unhex_hex_char [simp]: "n < 16 \<Longrightarrow> unhex_char (hex_char n) = Some n"
  by (auto simp: unhex_char_def hex_char_def Let_def)

lemma length_hex_fixed [simp]: "length (hex_fixed k n) = k"
  by (induction k arbitrary: n) simp_all

lemma unhex_append:
  "unhex acc (s @ t) = (case unhex acc s of None \<Rightarrow> None | Some a \<Rightarrow> unhex a t)"
  by (induction s arbitrary: acc) (auto split: option.splits)

lemma unhex_hex_fixed: "unhex acc (hex_fixed k n) = Some (acc * 16 ^ k + n mod 16 ^ k)"
proof (induction k arbitrary: n)
  case (Suc k)
  have "16 * (n div 16 mod 16 ^ k) + n mod 16 = n mod 16 ^ Suc k"
    using mod_mult2_eq [of n 16 "16 ^ k"] by simp
  with Suc show ?case by (simp add: unhex_append algebra_simps)
qed simp

definition std_string :: "uuid \<Rightarrow> string" where
  "std_string u =
     (let h = hex_fixed 32 (unat u) in
      take 8 h @ ''-'' @ take 4 (drop 8 h) @ ''-'' @ take 4 (drop 12 h) @ ''-''
        @ take 4 (drop 16 h) @ ''-'' @ drop 20 h)"

text \<open>The 36-byte form and the 32 bare digits, of the forms Parse accepts.\<close>

definition std_parse :: "string \<Rightarrow> uuid \<times> bool" where
  "std_parse s =
     (let h = (if length s = 36 \<and> s ! 8 = CHR ''-'' \<and> s ! 13 = CHR ''-'' \<and> s ! 18 = CHR ''-''
                  \<and> s ! 23 = CHR ''-''
               then take 8 s @ take 4 (drop 9 s) @ take 4 (drop 14 s) @ take 4 (drop 19 s) @ drop 24 s
               else s) in
      if length h \<noteq> 32 then (0, False)
      else (case unhex 0 h of None \<Rightarrow> (0, False) | Some n \<Rightarrow> (of_nat n, True)))"

definition std_uuid :: uuid_ops where
  "std_uuid = \<lparr>uuid_string = std_string, uuid_parse = std_parse\<rparr>"

lemma split5:
  assumes "length h = 32"
  obtains a b c d e where "h = a @ b @ c @ d @ e" "length a = 8" "length b = 4" "length c = 4"
    "length d = 4" "length e = 12"
proof
  show "h = take 8 h @ take 4 (drop 8 h) @ take 4 (drop 12 h) @ take 4 (drop 16 h) @ drop 20 h"
    using append_take_drop_id [of 8 h] append_take_drop_id [of 4 "drop 8 h"]
      append_take_drop_id [of 4 "drop 12 h"] append_take_drop_id [of 4 "drop 16 h"]
    by (simp add: drop_drop)
qed (use assms in simp_all)

lemma std_parse_string: "std_parse (std_string u) = (u, True)"
proof -
  define h where "h = hex_fixed 32 (unat u)"
  have "length h = 32" by (simp add: h_def)
  then obtain a b c d e where h: "h = a @ b @ c @ d @ e"
    and len: "length a = 8" "length b = 4" "length c = 4" "length d = 4" "length e = 12"
    by (rule split5)
  have s: "std_string u = a @ ''-'' @ b @ ''-'' @ c @ ''-'' @ d @ ''-'' @ e"
    using h len by (simp add: std_string_def h_def [symmetric])
  have "unat u < 16 ^ 32" using unsigned_less [of u, where ?'a = nat] by simp
  then have "unhex 0 h = Some (unat u)"
    by (simp add: h_def unhex_hex_fixed del: hex_fixed.simps)
  then show ?thesis
    unfolding s std_parse_def using h len by (simp add: nth_append)
qed

interpretation canonical: uuid_laws std_uuid
proof
  show "uuid_parse std_uuid (uuid_string std_uuid u) = (u, True)" for u
    by (simp add: std_uuid_def std_parse_string)
  show "uuid_string std_uuid u \<noteq> []" for u
    by (simp add: std_uuid_def std_string_def Let_def)
qed

end
