(* ===== verification/Go_Float.thy ===== *)
theory Go_Float
  imports Go_Strings
begin

text \<open>
  Go's float64 (IEEE 754 binary64): not-a-number, the infinities, and finite values
  \<open>(-1)^s * m * 2^e\<close>. Comparison follows the language (NaN compares false with
  everything, the two zeros are equal), strconv.ParseFloat rounds the exact decimal or
  hexadecimal value to nearest, ties to even, and reports a range error on overflow;
  \<open>format_json\<close> is the shortest decimal that reads back as the same value, in the
  notation encoding/json chooses. Addition and division round the exact result.
\<close>

datatype f64 = NaN | Inf bool | Fin bool nat int

definition f64_zero :: f64 where
  "f64_zero = Fin False 0 0"

section \<open>Comparison\<close>

text \<open>The value of a finite number scaled by \<open>2^(-e0)\<close>, for \<open>e0 \<le> e\<close>.\<close>

definition scaled :: "bool \<Rightarrow> nat \<Rightarrow> int \<Rightarrow> int \<Rightarrow> int" where
  "scaled s m e e0 = (if s then - 1 else 1) * int m * 2 ^ nat (e - e0)"

fun f64_lt :: "f64 \<Rightarrow> f64 \<Rightarrow> bool" where
  "f64_lt NaN y = False"
| "f64_lt x NaN = False"
| "f64_lt (Inf s) (Inf t) = (s \<and> \<not> t)"
| "f64_lt (Inf s) (Fin t m e) = s"
| "f64_lt (Fin s m e) (Inf t) = (\<not> t)"
| "f64_lt (Fin s m e) (Fin t n d) = (scaled s m e (min e d) < scaled t n d (min e d))"

fun f64_eq :: "f64 \<Rightarrow> f64 \<Rightarrow> bool" where
  "f64_eq NaN y = False"
| "f64_eq x NaN = False"
| "f64_eq (Inf s) (Inf t) = (s = t)"
| "f64_eq (Inf s) (Fin t m e) = False"
| "f64_eq (Fin s m e) (Inf t) = False"
| "f64_eq (Fin s m e) (Fin t n d) = (scaled s m e (min e d) = scaled t n d (min e d))"

definition f64_le :: "f64 \<Rightarrow> f64 \<Rightarrow> bool" where
  "f64_le x y = (f64_lt x y \<or> f64_eq x y)"

text \<open>
  The order key of a number that is not NaN: comparing numbers is comparing keys. It shows
  that \<open>f64_lt\<close> is a strict weak order away from NaN.
\<close>

lemma scaled_shift:
  assumes "e0 \<le> e1" and "e1 \<le> e"
  shows "scaled s m e e0 = scaled s m e e1 * 2 ^ nat (e1 - e0)"
proof -
  have "nat (e - e0) = nat (e - e1) + nat (e1 - e0)"
    using assms by simp
  then show ?thesis by (simp add: scaled_def power_add)
qed

lemma scaled_le_common:
  assumes "e0 \<le> e" and "e0 \<le> d"
  shows "scaled s m e (min e d) < scaled t n d (min e d) \<longleftrightarrow> scaled s m e e0 < scaled t n d e0"
    and "scaled s m e (min e d) = scaled t n d (min e d) \<longleftrightarrow> scaled s m e e0 = scaled t n d e0"
  using scaled_shift [of e0 "min e d" e s m] scaled_shift [of e0 "min e d" d t n] assms
  by simp_all

lemma fin_lt:
  "e0 \<le> e \<Longrightarrow> e0 \<le> d
    \<Longrightarrow> f64_lt (Fin s m e) (Fin t n d) \<longleftrightarrow> scaled s m e e0 < scaled t n d e0"
  using scaled_le_common(1) [of e0 e d s m t n] by simp

lemma fin_lt3:
  assumes "e0 = min e (min d f)"
  shows "f64_lt (Fin s m e) (Fin t n d) \<longleftrightarrow> scaled s m e e0 < scaled t n d e0"
    and "f64_lt (Fin t n d) (Fin u k f) \<longleftrightarrow> scaled t n d e0 < scaled u k f e0"
    and "f64_lt (Fin s m e) (Fin u k f) \<longleftrightarrow> scaled s m e e0 < scaled u k f e0"
proof -
  have le: "e0 \<le> e" "e0 \<le> d" "e0 \<le> f" using assms by simp_all
  show "f64_lt (Fin s m e) (Fin t n d) \<longleftrightarrow> scaled s m e e0 < scaled t n d e0"
    by (rule fin_lt [OF le(1,2)])
  show "f64_lt (Fin t n d) (Fin u k f) \<longleftrightarrow> scaled t n d e0 < scaled u k f e0"
    by (rule fin_lt [OF le(2,3)])
  show "f64_lt (Fin s m e) (Fin u k f) \<longleftrightarrow> scaled s m e e0 < scaled u k f e0"
    by (rule fin_lt [OF le(1,3)])
qed

lemma f64_trans: "f64_lt x y \<Longrightarrow> f64_lt y z \<Longrightarrow> f64_lt x z"
proof (cases x; cases y; cases z)
  fix s m e t n d u k f
  assume xyz: "x = Fin s m e" "y = Fin t n d" "z = Fin u k f"
    and lt: "f64_lt x y" "f64_lt y z"
  show "f64_lt x z"
    using lt unfolding xyz fin_lt3 [where e = e and d = d and f = f, OF refl] by (rule less_trans)
qed simp_all

lemma f64_irrefl [simp]: "\<not> f64_lt x x"
  by (cases x) simp_all

lemma f64_incomp:
  assumes "y \<noteq> NaN" and "\<not> f64_lt x y" and "\<not> f64_lt y z"
  shows "\<not> f64_lt x z"
  using assms
proof (cases x; cases y; cases z)
  fix s m e t n d u k f
  assume xyz: "x = Fin s m e" "y = Fin t n d" "z = Fin u k f"
  show ?thesis
    using assms(2,3) unfolding xyz fin_lt3 [where e = e and d = d and f = f, OF refl] by linarith
qed auto

lemma f64_trichotomy:
  "x \<noteq> NaN \<Longrightarrow> y \<noteq> NaN \<Longrightarrow> f64_lt x y \<or> f64_eq x y \<or> f64_lt y x"
  by (cases x; cases y) (auto simp: min.commute)

lemma f64_eq_refl [simp]: "f64_eq x x \<longleftrightarrow> x \<noteq> NaN"
  by (cases x) auto

lemma f64_eq_sym: "f64_eq x y \<longleftrightarrow> f64_eq y x"
  by (cases x; cases y) (auto simp: min.commute)

lemma f64_eq_not_lt: "f64_eq x y \<Longrightarrow> \<not> f64_lt x y"
  by (cases x; cases y) auto

lemma f64_lt_asym: "f64_lt x y \<Longrightarrow> \<not> f64_lt y x"
  using f64_trans f64_irrefl by blast

section \<open>Rounding\<close>

fun bit_len :: "nat \<Rightarrow> nat" where
  "bit_len n = (if n = 0 then 0 else Suc (bit_len (n div 2)))"

declare bit_len.simps [simp del]

text \<open>\<open>num / den\<close> divided by \<open>2^e\<close> and rounded to an integer, ties to even.\<close>

definition round_scaled :: "nat \<Rightarrow> nat \<Rightarrow> int \<Rightarrow> nat" where
  "round_scaled num den e =
     (let a = (if e < 0 then num * 2 ^ nat (- e) else num);
          b = (if e < 0 then den else den * 2 ^ nat e);
          q = a div b; r = a mod b in
      if 2 * r < b then q else if 2 * r > b then q + 1 else if even q then q else q + 1)"

text \<open>The exponent that leaves 53 significant bits, at least that of the subnormals.\<close>

definition round_exp :: "nat \<Rightarrow> nat \<Rightarrow> int" where
  "round_exp num den =
     (let e = int (bit_len num) - int (bit_len den) - 53;
          a = (if e < 0 then num * 2 ^ nat (- e) else num);
          b = (if e < 0 then den else den * 2 ^ nat e) in
      max (- 1074) (if a div b < 2 ^ 53 then e else e + 1))"

text \<open>Round-to-nearest-even of a ratio; the flag is False on overflow.\<close>

definition f64_of_ratio :: "bool \<Rightarrow> nat \<Rightarrow> nat \<Rightarrow> f64 \<times> bool" where
  "f64_of_ratio s num den =
     (if num = 0 then (Fin s 0 0, True)
      else
        let e = round_exp num den;
            m = round_scaled num den e;
            (m', e') = (if m = 2 ^ 53 then (2 ^ 52, e + 1) else (m, e)) in
        if e' > 971 then (Inf s, False) else if m' = 0 then (Fin s 0 0, True) else (Fin s m' e', True))"

section \<open>strconv.ParseFloat\<close>

definition is_digit :: "char \<Rightarrow> bool" where
  "is_digit c = (48 \<le> byte c \<and> byte c \<le> 57)"

definition digit_val :: "char \<Rightarrow> nat" where
  "digit_val c = byte c - 48"

definition lower_byte :: "char \<Rightarrow> nat" where
  "lower_byte c = (if 65 \<le> byte c \<and> byte c \<le> 90 then byte c + 32 else byte c)"

definition is_hex_letter :: "char \<Rightarrow> bool" where
  "is_hex_letter c = (97 \<le> lower_byte c \<and> lower_byte c \<le> 102)"

definition hex_val :: "char \<Rightarrow> nat" where
  "hex_val c = (if is_digit c then digit_val c else lower_byte c - 87)"

text \<open>
  The mantissa loop of readFloat: the digits read so far as one number, how many of them
  follow the point, whether a digit, a point and an underscore were seen, and the rest.
\<close>

record mantissa =
  mt_val :: nat
  mt_frac :: nat
  mt_digits :: bool
  mt_dot :: bool
  mt_under :: bool

fun read_mantissa :: "bool \<Rightarrow> mantissa \<Rightarrow> string \<Rightarrow> mantissa \<times> string" where
  "read_mantissa hex m [] = (m, [])"
| "read_mantissa hex m (c # cs) =
     (if c = CHR ''_'' then read_mantissa hex (m\<lparr>mt_under := True\<rparr>) cs
      else if c = CHR ''.'' then
        (if mt_dot m then (m, c # cs) else read_mantissa hex (m\<lparr>mt_dot := True\<rparr>) cs)
      else if is_digit c \<or> (hex \<and> is_hex_letter c) then
        read_mantissa hex
          (m\<lparr>mt_val := mt_val m * (if hex then 16 else 10) + hex_val c,
             mt_frac := (if mt_dot m then mt_frac m + 1 else mt_frac m), mt_digits := True\<rparr>) cs
      else (m, c # cs))"

text \<open>The exponent digits; the value stops growing at 10000, as in the source.\<close>

fun read_exp_digits :: "nat \<Rightarrow> bool \<Rightarrow> string \<Rightarrow> nat \<times> bool \<times> string" where
  "read_exp_digits e u [] = (e, u, [])"
| "read_exp_digits e u (c # cs) =
     (if c = CHR ''_'' then read_exp_digits e True cs
      else if is_digit c then read_exp_digits (if e < 10000 then e * 10 + digit_val c else e) u cs
      else (e, u, c # cs))"

text \<open>underscoreOK: underscores stand between digits (or after the base prefix) only.\<close>

datatype seen = SawStart | SawDigit | SawUnder | SawOther

fun underscore_scan :: "bool \<Rightarrow> seen \<Rightarrow> string \<Rightarrow> bool" where
  "underscore_scan hex sw [] = (sw \<noteq> SawUnder)"
| "underscore_scan hex sw (c # cs) =
     (if is_digit c \<or> (hex \<and> is_hex_letter c) then underscore_scan hex SawDigit cs
      else if c = CHR ''_'' then (if sw \<noteq> SawDigit then False else underscore_scan hex SawUnder cs)
      else if sw = SawUnder then False
      else underscore_scan hex SawOther cs)"

definition strip_sign :: "string \<Rightarrow> bool \<times> string" where
  "strip_sign s =
     (case s of
        c # cs \<Rightarrow> if c = CHR ''+'' then (False, cs) else if c = CHR ''-'' then (True, cs) else (False, s)
      | [] \<Rightarrow> (False, s))"

definition is_hex_prefixed :: "string \<Rightarrow> bool" where
  "is_hex_prefixed s = (case s of c # d # _ # _ \<Rightarrow> c = CHR ''0'' \<and> lower_byte d = 120 | _ \<Rightarrow> False)"

definition underscore_ok :: "bool \<Rightarrow> string \<Rightarrow> bool" where
  "underscore_ok hex s =
     (if hex then underscore_scan True SawDigit (drop 2 s) else underscore_scan False SawStart s)"

text \<open>The inf, infinity and nan spellings, in any case.\<close>

definition lower_ascii :: "string \<Rightarrow> nat list" where
  "lower_ascii s = map lower_byte s"

definition parse_special :: "string \<Rightarrow> f64 option" where
  "parse_special s =
     (let (neg, r) = strip_sign s in
      if lower_ascii r = map of_char ''inf'' \<or> lower_ascii r = map of_char ''infinity'' then Some (Inf neg)
      else if lower_ascii s = map of_char ''nan'' then Some NaN
      else None)"

text \<open>
  The exact value \<open>mant * base^exp\<close> rounded. Exponents out of reach are cut off before
  the power is computed, as decimal.floatBits does.
\<close>

definition round_decimal :: "bool \<Rightarrow> nat \<Rightarrow> int \<Rightarrow> f64 \<times> bool" where
  "round_decimal s mant ex =
     (if mant = 0 then (Fin s 0 0, True)
      else
        let dp = int (length (nat_digits mant)) + ex in
        if dp > 310 then (Inf s, False)
        else if dp < - 330 then (Fin s 0 0, True)
        else if 0 \<le> ex then f64_of_ratio s (mant * 10 ^ nat ex) 1
        else f64_of_ratio s mant (10 ^ nat (- ex)))"

definition round_hex :: "bool \<Rightarrow> nat \<Rightarrow> int \<Rightarrow> f64 \<times> bool" where
  "round_hex s mant ex =
     (if mant = 0 then (Fin s 0 0, True)
      else
        let bp = int (bit_len mant) + ex in
        if bp > 1100 then (Inf s, False)
        else if bp < - 1200 then (Fin s 0 0, True)
        else if 0 \<le> ex then f64_of_ratio s (mant * 2 ^ nat ex) 1
        else f64_of_ratio s mant (2 ^ nat (- ex)))"

text \<open>
  strconv.ParseFloat(s, 64): None on a syntax error and on a range error (the callers
  treat both alike).
\<close>

definition parse_exponent :: "bool \<Rightarrow> mantissa \<Rightarrow> string \<Rightarrow> (int \<times> bool \<times> string) option" where
  "parse_exponent hex m r =
     (case r of
        [] \<Rightarrow> if hex then None else Some (0, mt_under m, [])
      | c # cs \<Rightarrow>
          if lower_byte c = (if hex then 112 else 101) then
            (let (neg, ds) = strip_sign cs in
             case ds of
               [] \<Rightarrow> None
             | d # _ \<Rightarrow>
                 if is_digit d then
                   (let (e, u, rest) = read_exp_digits 0 (mt_under m) ds in
                    Some (if neg then - int e else int e, u, rest))
                 else None)
          else if hex then None else Some (0, mt_under m, r))"

definition parse_float :: "string \<Rightarrow> f64 option" where
  "parse_float s =
     (case parse_special s of
        Some v \<Rightarrow> Some v
      | None \<Rightarrow>
          let (neg, body) = strip_sign s;
              hex = is_hex_prefixed body;
              (m, r) = read_mantissa hex \<lparr>mt_val = 0, mt_frac = 0, mt_digits = False, mt_dot = False, mt_under = False\<rparr>
                         (if hex then drop 2 body else body) in
          if \<not> mt_digits m then None
          else
            (case parse_exponent hex m r of
               None \<Rightarrow> None
             | Some (e, u, rest) \<Rightarrow>
                 if rest \<noteq> [] then None
                 else if u \<and> \<not> underscore_ok hex body then None
                 else
                   let (v, ok) = (if hex then round_hex neg (mt_val m) (e - 4 * int (mt_frac m))
                                  else round_decimal neg (mt_val m) (e - int (mt_frac m))) in
                   if ok then Some v else None))"

section \<open>Shortest decimal\<close>

text \<open>
  For \<open>m * 2^e > 0\<close>: the number \<open>k\<close> of digits before the point (negative for small
  values), then for growing \<open>n\<close> the two \<open>n\<close>-digit neighbours; the first one that reads
  back as the same value wins, the nearer one when both do.
\<close>

definition val_num :: "nat \<Rightarrow> int \<Rightarrow> nat" where
  "val_num m e = (if e < 0 then m else m * 2 ^ nat e)"

definition val_den :: "int \<Rightarrow> nat" where
  "val_den e = (if e < 0 then 2 ^ nat (- e) else 1)"

fun decimal_point :: "nat \<Rightarrow> nat \<Rightarrow> nat \<Rightarrow> int \<Rightarrow> int" where
  "decimal_point 0 num den k = k"
| "decimal_point (Suc f) num den k =
     (if num < den then decimal_point f (num * 10) den (k - 1) else k)"

definition digits_before :: "nat \<Rightarrow> nat \<Rightarrow> int" where
  "digits_before num den =
     (if den \<le> num then int (length (nat_digits (num div den)))
      else decimal_point 400 (num * 10) den 0)"

definition candidate :: "nat \<Rightarrow> nat \<Rightarrow> int \<Rightarrow> nat \<Rightarrow> nat \<times> nat \<times> nat" where
  "candidate num den k n =
     (let x = int n - k;
          a = (if 0 \<le> x then num * 10 ^ nat x else num);
          b = (if 0 \<le> x then den else den * 10 ^ nat (- x)) in
      (a div b, a mod b, b))"

definition reads_back :: "nat \<Rightarrow> int \<Rightarrow> nat \<Rightarrow> int \<Rightarrow> bool" where
  "reads_back m e d ex = (round_decimal False d ex = (Fin False m e, True))"

fun shortest :: "nat \<Rightarrow> nat \<Rightarrow> nat \<Rightarrow> int \<Rightarrow> int \<Rightarrow> nat \<times> int" where
  "shortest 0 n m e k = (m, e)"
| "shortest (Suc f) n m e k =
     (let (lo, r, b) = candidate (val_num m e) (val_den e) k n; ex = k - int n;
          lo_ok = reads_back m e lo ex; hi_ok = reads_back m e (lo + 1) ex in
      if lo_ok \<and> (\<not> hi_ok \<or> 2 * r \<le> b) then (lo, ex)
      else if hi_ok then (lo + 1, ex)
      else shortest f (n + 1) m e k)"

text \<open>Digits without trailing zeros and the position of the point.\<close>

fun strip_zeros_rev :: "string \<Rightarrow> string" where
  "strip_zeros_rev (c # cs) = (if c = CHR ''0'' then strip_zeros_rev cs else c # cs)"
| "strip_zeros_rev [] = []"

definition shortest_digits :: "nat \<Rightarrow> int \<Rightarrow> string \<times> int" where
  "shortest_digits m e =
     (let k = digits_before (val_num m e) (val_den e);
          (d, ex) = shortest 17 1 m e k;
          ds = nat_digits d in
      (rev (strip_zeros_rev (rev ds)), int (length ds) + ex))"

text \<open>strconv.AppendFloat with format f: the digits with the point at \<open>dp\<close>.\<close>

definition format_f :: "string \<Rightarrow> int \<Rightarrow> string" where
  "format_f ds dp =
     (if dp \<le> 0 then ''0.'' @ replicate (nat (- dp)) (CHR ''0'') @ ds
      else if int (length ds) \<le> dp then ds @ replicate (nat dp - length ds) (CHR ''0'')
      else take (nat dp) ds @ ''.'' @ drop (nat dp) ds)"

text \<open>Format e, with the exponent written the way encoding/json leaves it (e-7, e+21).\<close>

definition format_e :: "string \<Rightarrow> int \<Rightarrow> string" where
  "format_e ds dp =
     (let x = dp - 1; mant = take 1 ds @ (if length ds > 1 then ''.'' @ drop 1 ds else []) in
      mant @ ''e'' @ (if x < 0 then ''-'' else ''+'') @ nat_digits (nat \<bar>x\<bar>))"

text \<open>The number encoder of encoding/json; None where it reports an unsupported value.\<close>

definition format_json :: "f64 \<Rightarrow> string option" where
  "format_json v =
     (case v of
        NaN \<Rightarrow> None
      | Inf s \<Rightarrow> None
      | Fin s m e \<Rightarrow>
          if m = 0 then Some (if s then ''-0'' else ''0'')
          else
            let (ds, dp) = shortest_digits m e;
                body = (if dp < - 5 \<or> dp > 21 then format_e ds dp else format_f ds dp) in
            Some ((if s then ''-'' else []) @ body))"

section \<open>Conversion, addition and division\<close>

definition f64_of_nat :: "nat \<Rightarrow> f64" where
  "f64_of_nat n = fst (f64_of_ratio False n 1)"

text \<open>An integer times a power of two, rounded; an exact zero takes the given sign.\<close>

definition f64_of_scaled :: "bool \<Rightarrow> int \<Rightarrow> int \<Rightarrow> f64" where
  "f64_of_scaled z k e =
     (if k = 0 then Fin z 0 0
      else fst (f64_of_ratio (k < 0) (nat \<bar>k\<bar> * 2 ^ nat e) (2 ^ nat (- e))))"

fun f64_add :: "f64 \<Rightarrow> f64 \<Rightarrow> f64" where
  "f64_add NaN y = NaN"
| "f64_add x NaN = NaN"
| "f64_add (Inf s) (Inf t) = (if s = t then Inf s else NaN)"
| "f64_add (Inf s) (Fin t n d) = Inf s"
| "f64_add (Fin s m e) (Inf t) = Inf t"
| "f64_add (Fin s m e) (Fin t n d) =
     (let e0 = min e d in
      f64_of_scaled (m = 0 \<and> n = 0 \<and> s \<and> t) (scaled s m e e0 + scaled t n d e0) e0)"

fun f64_div :: "f64 \<Rightarrow> f64 \<Rightarrow> f64" where
  "f64_div NaN y = NaN"
| "f64_div x NaN = NaN"
| "f64_div (Inf s) (Inf t) = NaN"
| "f64_div (Inf s) (Fin t n d) = Inf (s \<noteq> t)"
| "f64_div (Fin s m e) (Inf t) = Fin (s \<noteq> t) 0 0"
| "f64_div (Fin s m e) (Fin t n d) =
     (if n = 0 then (if m = 0 then NaN else Inf (s \<noteq> t))
      else fst (f64_of_ratio (s \<noteq> t) (m * 2 ^ nat (e - d)) (n * 2 ^ nat (d - e))))"

end
