(* ===== verification/Entities.thy ===== *)
theory Entities
  imports Enums Go_Time Uuid Go_Float
begin

text \<open>
  The database entities of src/internal/domain/entity and the DTOs of
  src/internal/delivery/http/dto that the evaluation works on. Structs are records, an
  embedded struct is a record extension, a pointer is an option, a jsonb column and a
  json.RawMessage are their bytes, a named string type is a string. Association pointers
  back to the owner (Rule.DecisionRule, RuleCondition.DecisionRule and the like), which the
  server never reads, and the audit users are left out. Each record has its Go zero value.
\<close>

type_synonym raw_json = string

section \<open>Entities\<close>

record base_model =
  bm_id :: uuid
  bm_created_at :: gotime
  bm_created_by :: "uuid option"
  bm_updated_at :: gotime
  bm_updated_by :: "uuid option"
  bm_deleted_at :: "gotime option"

record schema_registry = base_model +
  sr_schema_name :: string
  sr_version :: string
  sr_definition :: raw_json
  sr_is_active :: bool

record attribute = base_model +
  at_schema_id :: uuid
  at_field_name :: string
  at_display_name :: string
  at_data_type :: string
  at_value :: raw_json
  at_description :: string
  at_source_system :: string
  at_table_source :: string
  at_is_active :: bool

record rule_attribute = base_model +
  ra_rule_id :: uuid
  ra_attribute_id :: uuid
  ra_attribute :: "attribute option"
  ra_value :: raw_json

record rule_variation = base_model +
  rl_decision_rule_id :: uuid
  rl_variation_name :: string
  rl_score :: f64
  rl_order_no :: int
  rl_attributes :: "rule_attribute list"

record rule_condition = base_model +
  rc_sequence :: int
  rc_decision_rule_id :: uuid
  rc_parent_id :: "uuid option"
  rc_attribute_id :: "uuid option"
  rc_attribute :: "attribute option"
  rc_operator :: string
  rc_connector :: "string option"
  rc_child_connector :: "string option"

record decision_rule = base_model +
  dr_running :: string
  dr_name :: string
  dr_type :: string
  dr_evaluate_type :: string
  dr_content_path :: string
  dr_campaign_code :: string
  dr_score :: f64
  dr_status :: string
  dr_sub_status :: string
  dr_inactive_by :: "uuid option"
  dr_conditions :: "rule_condition list"
  dr_rules :: "rule_variation list"

record channel = base_model +
  cn_name :: string

record placement = base_model +
  pl_name :: string
  pl_channel_id :: uuid
  pl_channel :: "channel option"

record schedule = base_model +
  sc_rule_id :: uuid
  sc_rule :: "decision_rule option"
  sc_placement_id :: uuid
  sc_placement :: "placement option"
  sc_calendar_id :: "uuid option"
  sc_recurrence_type :: string
  sc_recurrence_rule :: "string option"
  sc_from :: gotime
  sc_until :: gotime
  sc_tod_start :: "string option"
  sc_tod_end :: "string option"
  sc_all_day :: bool
  sc_timezone :: string
  sc_is_active :: bool

record occurrence = base_model +
  oc_schedule_id :: uuid
  oc_schedule :: "schedule option"
  oc_start :: gotime
  oc_end :: gotime
  oc_status :: string
  oc_source :: string

record lead =
  ld_id :: string
  ld_type :: string
  ld_status :: string
  ld_content_id :: string
  ld_csvm_code :: string
  ld_rmst_code :: string
  ld_campaign_name :: string
  ld_expire_date :: string
  ld_assigned_date :: string
  ld_sla_start :: string
  ld_sla_end :: string
  ld_show_countdown :: bool
  ld_final_score :: string
  ld_placements :: "string list"

section \<open>DTOs\<close>

record logic_condition =
  lc_id :: string
  lc_parent_id :: string
  lc_attribute_id :: string
  lc_data_type :: string
  lc_operator :: string
  lc_connector :: string
  lc_child_connector :: string
  lc_sequence :: int
  lc_expected :: raw_json

record content_result =
  cr_logic_hash :: string
  cr_logic_expr :: string
  cr_logic_eval :: bool
  cr_evaluated_at :: string
  cr_rule_id :: string
  cr_rule_type :: string
  cr_content_path :: string
  cr_source :: string
  cr_score :: f64
  cr_start :: string
  cr_end :: string
  cr_campaign_code :: "string option"
  cr_conditions :: "logic_condition list"

definition zero_content_result :: content_result where
  "zero_content_result =
     \<lparr>cr_logic_hash = [], cr_logic_expr = [], cr_logic_eval = False, cr_evaluated_at = [],
      cr_rule_id = [], cr_rule_type = [], cr_content_path = [], cr_source = [],
      cr_score = f64_zero, cr_start = [], cr_end = [], cr_campaign_code = None,
      cr_conditions = []\<rparr>"

text \<open>ToResponse keeps the public fields; the logic fields return to their zero values.\<close>

definition to_response :: "content_result \<Rightarrow> content_result" where
  "to_response r =
     zero_content_result
       \<lparr>cr_rule_id := cr_rule_id r, cr_rule_type := cr_rule_type r,
        cr_content_path := cr_content_path r, cr_source := cr_source r, cr_score := cr_score r,
        cr_start := cr_start r, cr_end := cr_end r, cr_campaign_code := cr_campaign_code r\<rparr>"

definition to_responses :: "content_result list \<Rightarrow> content_result list" where
  "to_responses rs = map to_response rs"

section \<open>Zero values\<close>

definition zero_attribute :: attribute where
  "zero_attribute =
     \<lparr>bm_id = 0, bm_created_at = zero_time, bm_created_by = None, bm_updated_at = zero_time,
      bm_updated_by = None, bm_deleted_at = None,
      at_schema_id = 0, at_field_name = [], at_display_name = [], at_data_type = [],
      at_value = [], at_description = [], at_source_system = [], at_table_source = [],
      at_is_active = False\<rparr>"

definition zero_rule_attribute :: rule_attribute where
  "zero_rule_attribute =
     \<lparr>bm_id = 0, bm_created_at = zero_time, bm_created_by = None, bm_updated_at = zero_time,
      bm_updated_by = None, bm_deleted_at = None,
      ra_rule_id = 0, ra_attribute_id = 0, ra_attribute = None, ra_value = []\<rparr>"

definition zero_rule :: rule_variation where
  "zero_rule =
     \<lparr>bm_id = 0, bm_created_at = zero_time, bm_created_by = None, bm_updated_at = zero_time,
      bm_updated_by = None, bm_deleted_at = None,
      rl_decision_rule_id = 0, rl_variation_name = [], rl_score = f64_zero, rl_order_no = 0,
      rl_attributes = []\<rparr>"

definition zero_rule_condition :: rule_condition where
  "zero_rule_condition =
     \<lparr>bm_id = 0, bm_created_at = zero_time, bm_created_by = None, bm_updated_at = zero_time,
      bm_updated_by = None, bm_deleted_at = None,
      rc_sequence = 0, rc_decision_rule_id = 0, rc_parent_id = None, rc_attribute_id = None,
      rc_attribute = None, rc_operator = [], rc_connector = None, rc_child_connector = None\<rparr>"

definition zero_decision_rule :: decision_rule where
  "zero_decision_rule =
     \<lparr>bm_id = 0, bm_created_at = zero_time, bm_created_by = None, bm_updated_at = zero_time,
      bm_updated_by = None, bm_deleted_at = None,
      dr_running = [], dr_name = [], dr_type = [], dr_evaluate_type = [], dr_content_path = [],
      dr_campaign_code = [], dr_score = f64_zero, dr_status = [], dr_sub_status = [],
      dr_inactive_by = None, dr_conditions = [], dr_rules = []\<rparr>"

definition zero_placement :: placement where
  "zero_placement =
     \<lparr>bm_id = 0, bm_created_at = zero_time, bm_created_by = None, bm_updated_at = zero_time,
      bm_updated_by = None, bm_deleted_at = None,
      pl_name = [], pl_channel_id = 0, pl_channel = None\<rparr>"

definition zero_schedule :: schedule where
  "zero_schedule =
     \<lparr>bm_id = 0, bm_created_at = zero_time, bm_created_by = None, bm_updated_at = zero_time,
      bm_updated_by = None, bm_deleted_at = None,
      sc_rule_id = 0, sc_rule = None, sc_placement_id = 0, sc_placement = None,
      sc_calendar_id = None, sc_recurrence_type = [], sc_recurrence_rule = None,
      sc_from = zero_time, sc_until = zero_time, sc_tod_start = None, sc_tod_end = None,
      sc_all_day = False, sc_timezone = [], sc_is_active = False\<rparr>"

definition zero_occurrence :: occurrence where
  "zero_occurrence =
     \<lparr>bm_id = 0, bm_created_at = zero_time, bm_created_by = None, bm_updated_at = zero_time,
      bm_updated_by = None, bm_deleted_at = None,
      oc_schedule_id = 0, oc_schedule = None, oc_start = zero_time, oc_end = zero_time,
      oc_status = [], oc_source = []\<rparr>"

definition zero_lead :: lead where
  "zero_lead =
     \<lparr>ld_id = [], ld_type = [], ld_status = [], ld_content_id = [], ld_csvm_code = [],
      ld_rmst_code = [], ld_campaign_name = [], ld_expire_date = [], ld_assigned_date = [],
      ld_sla_start = [], ld_sla_end = [], ld_show_countdown = False, ld_final_score = [],
      ld_placements = []\<rparr>"

definition zero_logic_condition :: logic_condition where
  "zero_logic_condition =
     \<lparr>lc_id = [], lc_parent_id = [], lc_attribute_id = [], lc_data_type = [], lc_operator = [],
      lc_connector = [], lc_child_connector = [], lc_sequence = 0, lc_expected = []\<rparr>"

lemmas zero_defs =
  zero_attribute_def zero_rule_attribute_def zero_rule_def zero_rule_condition_def
  zero_decision_rule_def zero_placement_def zero_schedule_def zero_occurrence_def zero_lead_def
  zero_logic_condition_def zero_content_result_def

section \<open>Facts\<close>

text \<open>A response carries no trace of the evaluation, and projecting twice changes nothing.\<close>

lemma to_response_idem [simp]: "to_response (to_response r) = to_response r"
  by (simp add: to_response_def zero_content_result_def)

lemma to_response_public [simp]:
  "cr_rule_id (to_response r) = cr_rule_id r" "cr_score (to_response r) = cr_score r"
  "cr_content_path (to_response r) = cr_content_path r" "cr_source (to_response r) = cr_source r"
  "cr_rule_type (to_response r) = cr_rule_type r" "cr_start (to_response r) = cr_start r"
  "cr_end (to_response r) = cr_end r" "cr_campaign_code (to_response r) = cr_campaign_code r"
  by (simp_all add: to_response_def zero_content_result_def)

lemma to_response_private [simp]:
  "cr_logic_hash (to_response r) = []" "cr_logic_expr (to_response r) = []"
  "\<not> cr_logic_eval (to_response r)" "cr_conditions (to_response r) = []"
  "cr_evaluated_at (to_response r) = []"
  by (simp_all add: to_response_def zero_content_result_def)

end
