(* ===== verification/Go_Sort.thy ===== *)
theory Go_Sort
  imports Prelude
begin

text \<open>
  sort.Slice. Its contract is stated as a locale: for a strict weak order the result is a
  permutation of the input in which no element is less than one before it; the order of
  elements that compare equal is left open. The model sorts by insertion, which is the
  algorithm Go itself runs on slices of up to 12 elements (insertionSort of package sort)
  and the one the code writes out by hand in sortConditionsBySequence.
\<close>

text \<open>What sort.Slice may return for \<open>xs\<close>.\<close>

definition may_sort :: "('a \<Rightarrow> 'a \<Rightarrow> bool) \<Rightarrow> 'a list \<Rightarrow> 'a list \<Rightarrow> bool" where
  "may_sort lt xs ys = (mset ys = mset xs \<and> sorted_wrt (\<lambda>a b. \<not> lt b a) ys)"

locale strict_weak =
  fixes lt :: "'a \<Rightarrow> 'a \<Rightarrow> bool"
  assumes irrefl: "\<not> lt a a"
    and trans: "lt a b \<Longrightarrow> lt b c \<Longrightarrow> lt a c"
    and incomp: "\<not> lt a b \<Longrightarrow> \<not> lt b c \<Longrightarrow> \<not> lt a c"
begin

lemma asym: "lt a b \<Longrightarrow> \<not> lt b a"
  using irrefl trans by blast

end

locale slice_sort = strict_weak lt for lt :: "'a \<Rightarrow> 'a \<Rightarrow> bool" +
  fixes srt :: "'a list \<Rightarrow> 'a list"
  assumes srt_may: "may_sort lt xs (srt xs)"
begin

lemma mset_srt [simp]: "mset (srt xs) = mset xs"
  using srt_may [of xs] by (simp add: may_sort_def)

lemma set_srt [simp]: "set (srt xs) = set xs"
  by (metis mset_srt mset_eq_setD)

lemma length_srt [simp]: "length (srt xs) = length xs"
  by (metis mset_srt mset_eq_length)

lemma sorted_srt: "sorted_wrt (\<lambda>a b. \<not> lt b a) (srt xs)"
  using srt_may [of xs] by (simp add: may_sort_def)

text \<open>
  When no two elements of the input are incomparable the result does not depend on the
  algorithm: every admissible result is \<open>srt xs\<close>, and permuted inputs sort alike.
\<close>

lemma sorted_unique:
  assumes "mset ys = mset zs"
    and "sorted_wrt (\<lambda>a b. \<not> lt b a) ys" and "sorted_wrt (\<lambda>a b. \<not> lt b a) zs"
    and "\<And>a b. a \<in> set ys \<Longrightarrow> b \<in> set ys \<Longrightarrow> \<not> lt a b \<Longrightarrow> \<not> lt b a \<Longrightarrow> a = b"
  shows "ys = zs"
  using assms
proof (induction ys arbitrary: zs)
  case Nil
  then show ?case by simp
next
  case (Cons y ys)
  from Cons.prems(1) obtain z zs' where z: "zs = z # zs'"
    by (cases zs) auto
  have "y \<in> set zs" and zy: "z \<in> set (y # ys)"
    using mset_eq_setD [OF Cons.prems(1)] z by auto
  have "y = z"
  proof (rule ccontr)
    assume "y \<noteq> z"
    with \<open>y \<in> set zs\<close> zy z have "y \<in> set zs'" "z \<in> set ys" by auto
    with Cons.prems(2,3) z have "\<not> lt z y" "\<not> lt y z" by auto
    with Cons.prems(4) [of y z] zy \<open>y \<noteq> z\<close> show False by auto
  qed
  moreover have "ys = zs'"
  proof (rule Cons.IH)
    show "mset ys = mset zs'" using Cons.prems(1) z \<open>y = z\<close> by simp
  qed (use Cons.prems z in auto)
  ultimately show ?case using z by simp
qed

lemma srt_unique:
  assumes "may_sort lt xs ys"
    and "\<And>a b. a \<in> set xs \<Longrightarrow> b \<in> set xs \<Longrightarrow> \<not> lt a b \<Longrightarrow> \<not> lt b a \<Longrightarrow> a = b"
  shows "ys = srt xs"
proof (rule sorted_unique)
  have "set ys = set xs" using assms(1) by (auto simp: may_sort_def dest: mset_eq_setD)
  then show "\<And>a b. a \<in> set ys \<Longrightarrow> b \<in> set ys \<Longrightarrow> \<not> lt a b \<Longrightarrow> \<not> lt b a \<Longrightarrow> a = b"
    using assms(2) by simp
qed (use assms(1) sorted_srt in \<open>auto simp: may_sort_def\<close>)

lemma srt_cong_mset:
  assumes "mset xs = mset ys"
    and "\<And>a b. a \<in> set xs \<Longrightarrow> b \<in> set xs \<Longrightarrow> \<not> lt a b \<Longrightarrow> \<not> lt b a \<Longrightarrow> a = b"
  shows "srt xs = srt ys"
proof -
  have "may_sort lt xs (srt ys)"
    using assms(1) srt_may [of ys] by (simp add: may_sort_def)
  then show ?thesis using srt_unique assms(2) by metis
qed

end

section \<open>Insertion sort\<close>

text \<open>
  One round of the inner loop on the sorted prefix, held in reverse: the new element moves
  left while it is less than its left neighbour.
\<close>

fun sift_left :: "('a \<Rightarrow> 'a \<Rightarrow> bool) \<Rightarrow> 'a \<Rightarrow> 'a list \<Rightarrow> 'a list" where
  "sift_left lt x [] = [x]"
| "sift_left lt x (y # ys) = (if lt x y then y # sift_left lt x ys else x # y # ys)"

definition sort_slice :: "('a \<Rightarrow> 'a \<Rightarrow> bool) \<Rightarrow> 'a list \<Rightarrow> 'a list" where
  "sort_slice lt xs = rev (foldl (\<lambda>acc x. sift_left lt x acc) [] xs)"

lemma mset_sift_left [simp]: "mset (sift_left lt x ys) = add_mset x (mset ys)"
  by (induction ys) auto

lemma set_sift_left [simp]: "set (sift_left lt x ys) = insert x (set ys)"
  by (induction ys) auto

lemma mset_foldl_sift: "mset (foldl (\<lambda>acc x. sift_left lt x acc) acc xs) = mset acc + mset xs"
  by (induction xs arbitrary: acc) simp_all

lemma mset_sort_slice [simp]: "mset (sort_slice lt xs) = mset xs"
  by (simp add: sort_slice_def mset_foldl_sift)

lemma set_sort_slice [simp]: "set (sort_slice lt xs) = set xs"
  by (metis mset_sort_slice mset_eq_setD)

lemma length_sort_slice [simp]: "length (sort_slice lt xs) = length xs"
  by (metis mset_sort_slice mset_eq_length)

lemma sort_slice_Nil [simp]: "sort_slice lt [] = []"
  by (simp add: sort_slice_def)

lemma sort_slice_singleton [simp]: "sort_slice lt [x] = [x]"
  by (simp add: sort_slice_def)

lemma sort_slice_eq_Nil [simp]: "sort_slice lt xs = [] \<longleftrightarrow> xs = []"
  by (metis length_0_conv length_sort_slice)

context strict_weak
begin

lemma sift_left_sorted:
  "sorted_wrt (\<lambda>a b. \<not> lt a b) ys \<Longrightarrow> sorted_wrt (\<lambda>a b. \<not> lt a b) (sift_left lt x ys)"
proof (induction ys)
  case (Cons y ys)
  show ?case
  proof (cases "lt x y")
    case True
    with Cons asym show ?thesis by auto
  next
    case False
    with Cons.prems incomp show ?thesis by auto
  qed
qed simp

lemma foldl_sift_sorted:
  "sorted_wrt (\<lambda>a b. \<not> lt a b) acc
    \<Longrightarrow> sorted_wrt (\<lambda>a b. \<not> lt a b) (foldl (\<lambda>acc x. sift_left lt x acc) acc xs)"
  by (induction xs arbitrary: acc) (simp_all add: sift_left_sorted)

lemma sort_slice_may: "may_sort lt xs (sort_slice lt xs)"
  by (simp add: may_sort_def sort_slice_def mset_foldl_sift sorted_wrt_rev foldl_sift_sorted)

end

sublocale strict_weak \<subseteq> by_insertion: slice_sort lt "sort_slice lt"
  by unfold_locales (rule sort_slice_may)

lemma strict_weak_key: "strict_weak (\<lambda>a b. (key a :: 'k :: linorder) < key b)"
  by unfold_locales auto

lemma strict_weak_key_desc: "strict_weak (\<lambda>a b. (key b :: 'k :: linorder) < key a)"
  by unfold_locales auto

text \<open>A slice that is already in order is left alone, elements that compare equal included.\<close>

lemma sort_slice_sorted_id:
  assumes "sorted_wrt (\<lambda>a b. \<not> lt b a) xs"
  shows "sort_slice lt xs = xs"
proof -
  have "sorted_wrt (\<lambda>a b. \<not> lt b a) (rev acc @ xs)
    \<Longrightarrow> foldl (\<lambda>acc x. sift_left lt x acc) acc xs = rev xs @ acc" for acc
  proof (induction xs arbitrary: acc)
    case (Cons x xs)
    have "sift_left lt x acc = x # acc"
      using Cons.prems by (cases acc) (auto simp: sorted_wrt_append)
    with Cons.IH [of "x # acc"] Cons.prems show ?case by simp
  qed simp
  from this [of "[]"] assms show ?thesis by (simp add: sort_slice_def)
qed

text \<open>Restricting the elements commutes with sorting when the order depends on them only.\<close>

lemma sort_slice_cong:
  assumes "\<And>a b. a \<in> set xs \<Longrightarrow> b \<in> set xs \<Longrightarrow> lt a b = lt' a b"
  shows "sort_slice lt xs = sort_slice lt' xs"
proof -
  have sift: "\<lbrakk>x \<in> S; set acc \<subseteq> S; \<forall>a \<in> S. \<forall>b \<in> S. lt a b = lt' a b\<rbrakk>
    \<Longrightarrow> sift_left lt x acc = sift_left lt' x acc" for x acc S
    by (induction acc) auto
  have "set acc \<subseteq> S \<Longrightarrow> set zs \<subseteq> S \<Longrightarrow> \<forall>a \<in> S. \<forall>b \<in> S. lt a b = lt' a b
    \<Longrightarrow> foldl (\<lambda>acc x. sift_left lt x acc) acc zs = foldl (\<lambda>acc x. sift_left lt' x acc) acc zs" for acc zs S
    by (induction zs arbitrary: acc) (auto simp: sift [where S = S])
  from this [of "[]" "set xs" xs] assms show ?thesis by (simp add: sort_slice_def)
qed

end
