(* ===== verification/Go_Json.thy ===== *)
theory Go_Json
  imports Go_Float Go_Sort
begin

text \<open>
  The part of encoding/json the code uses: the scanner (with its nesting limit), the
  decoding of a value into the destinations the code names (string, float64, bool, slices
  of them, maps of raw messages, small structs, interface{}), and the encoding of strings,
  raw messages and generic values. A decoder updates an old value and reports whether an
  error was recorded: JSON null leaves a scalar as it is, and a type mismatch does not undo
  what was stored before it.
\<close>

datatype json =
    JNull
  | JBool bool
  | JNum string
  | JStr string
  | JArr "(string \<times> json) list"
  | JObj "(string \<times> string \<times> json) list"

text \<open>Elements and members carry the raw text of their value beside it.\<close>

section \<open>Scanner\<close>

definition is_ws :: "char \<Rightarrow> bool" where
  "is_ws c = (c = CHR '' '' \<or> c = CHR 0x09 \<or> c = CHR 0x0A \<or> c = CHR 0x0D)"

definition skip_ws :: "string \<Rightarrow> string" where
  "skip_ws s = dropWhile is_ws s"

lemma length_skip_ws: "length (skip_ws s) \<le> length s"
  by (simp add: skip_ws_def length_dropWhile_le)

lemma skip_ws_Cons_le: "skip_ws s = c # cs \<Longrightarrow> length cs < length s"
  using length_skip_ws [of s] by simp

subsection \<open>Strings\<close>

definition is_hex_digit :: "char \<Rightarrow> bool" where
  "is_hex_digit c = (is_digit c \<or> is_hex_letter c)"

definition hex4_val :: "char \<Rightarrow> char \<Rightarrow> char \<Rightarrow> char \<Rightarrow> nat" where
  "hex4_val a b c d = ((hex_val a * 16 + hex_val b) * 16 + hex_val c) * 16 + hex_val d"

definition simple_escape :: "char \<Rightarrow> char option" where
  "simple_escape e =
     (if e = CHR 0x22 \<or> e = CHR 0x5C \<or> e = CHR ''/'' then Some e
      else if e = CHR ''b'' then Some (CHR 0x08)
      else if e = CHR ''f'' then Some (CHR 0x0C)
      else if e = CHR ''n'' then Some (CHR 0x0A)
      else if e = CHR ''r'' then Some (CHR 0x0D)
      else if e = CHR ''t'' then Some (CHR 0x09)
      else None)"

definition is_high_surrogate :: "nat \<Rightarrow> bool" where
  "is_high_surrogate r = (55296 \<le> r \<and> r < 56320)"

definition is_low_surrogate :: "nat \<Rightarrow> bool" where
  "is_low_surrogate r = (56320 \<le> r \<and> r < 57344)"

text \<open>The four hex digits of an escape, when they are well formed.\<close>

definition u_escape :: "string \<Rightarrow> nat option" where
  "u_escape s =
     (case s of
        a # b # c # d # _ \<Rightarrow>
          if is_hex_digit a \<and> is_hex_digit b \<and> is_hex_digit c \<and> is_hex_digit d
          then Some (hex4_val a b c d) else None
      | _ \<Rightarrow> None)"

text \<open>A second escape that completes a surrogate pair.\<close>

definition low_escape :: "string \<Rightarrow> nat option" where
  "low_escape s =
     (case s of
        b # u # r \<Rightarrow>
          if b = CHR 0x5C \<and> u = CHR ''u'' then
            (case u_escape r of
               Some l \<Rightarrow> if is_low_surrogate l then Some l else None
             | None \<Rightarrow> None)
          else None
      | _ \<Rightarrow> None)"

definition prepend :: "string \<Rightarrow> (string \<times> string) option \<Rightarrow> (string \<times> string) option" where
  "prepend p r = map_option (\<lambda>(s, rest). (p @ s, rest)) r"

lemma prepend_simps [simp]: "prepend p None = None" "prepend p (Some (s, r)) = Some (p @ s, r)"
  by (simp_all add: prepend_def)

text \<open>The body of a string literal after its opening quote: its value and what follows.\<close>

function (sequential) unquote :: "string \<Rightarrow> (string \<times> string) option" where
  "unquote [] = None"
| "unquote (c # cs) =
     (if c = CHR 0x22 then Some ([], cs)
      else if c = CHR 0x5C then
        (case cs of
           [] \<Rightarrow> None
         | e # es \<Rightarrow>
             (case simple_escape e of
                Some b \<Rightarrow> prepend [b] (unquote es)
              | None \<Rightarrow>
                  if e = CHR ''u'' then
                    (case u_escape es of
                       None \<Rightarrow> None
                     | Some r \<Rightarrow>
                         if is_high_surrogate r then
                           (case low_escape (drop 4 es) of
                              Some l \<Rightarrow>
                                prepend (encode_rune (65536 + (r - 55296) * 1024 + (l - 56320)))
                                  (unquote (drop 10 es))
                            | None \<Rightarrow> prepend (encode_rune rune_error) (unquote (drop 4 es)))
                         else prepend (encode_rune r) (unquote (drop 4 es)))
                  else None))
      else if byte c < 32 then None
      else if byte c < 128 then prepend [c] (unquote cs)
      else prepend (encode_rune (fst (decode_rune (c # cs))))
             (unquote (drop (snd (decode_rune (c # cs))) (c # cs))))"
  by pat_completeness auto
termination
proof (relation "measure length")
  fix c :: char and cs
  have "1 \<le> snd (decode_rune (c # cs))"
    using decode_rune_width [of "c # cs"] by simp
  then show "(drop (snd (decode_rune (c # cs))) (c # cs), c # cs) \<in> measure length"
    by simp
qed auto

declare unquote.simps(2) [simp del]

subsection \<open>Numbers\<close>

definition num_sign :: "string \<Rightarrow> string \<times> string" where
  "num_sign s = (case s of c # cs \<Rightarrow> if c = CHR ''-'' then ([c], cs) else ([], s) | [] \<Rightarrow> ([], []))"

definition num_int :: "string \<Rightarrow> (string \<times> string) option" where
  "num_int s =
     (case s of
        [] \<Rightarrow> None
      | c # cs \<Rightarrow>
          if c = CHR ''0'' then Some ([c], cs)
          else if is_digit c then Some (takeWhile is_digit s, dropWhile is_digit s)
          else None)"

definition num_frac :: "string \<Rightarrow> (string \<times> string) option" where
  "num_frac s =
     (case s of
        c # cs \<Rightarrow>
          if c = CHR ''.'' then
            (if takeWhile is_digit cs = [] then None
             else Some (c # takeWhile is_digit cs, dropWhile is_digit cs))
          else Some ([], s)
      | [] \<Rightarrow> Some ([], []))"

definition num_exp :: "string \<Rightarrow> (string \<times> string) option" where
  "num_exp s =
     (case s of
        c # cs \<Rightarrow>
          if c = CHR ''e'' \<or> c = CHR ''E'' then
            (let (sg, r) = (case cs of
                              d # ds \<Rightarrow> if d = CHR ''+'' \<or> d = CHR ''-'' then ([d], ds) else ([], cs)
                            | [] \<Rightarrow> ([], [])) in
             if takeWhile is_digit r = [] then None
             else Some (c # sg @ takeWhile is_digit r, dropWhile is_digit r))
          else Some ([], s)
      | [] \<Rightarrow> Some ([], []))"

definition scan_num :: "string \<Rightarrow> (string \<times> string) option" where
  "scan_num s =
     (let (sg, s1) = num_sign s in
      case num_int s1 of
        None \<Rightarrow> None
      | Some (i, s2) \<Rightarrow>
          (case num_frac s2 of
             None \<Rightarrow> None
           | Some (f, s3) \<Rightarrow>
               (case num_exp s3 of
                  None \<Rightarrow> None
                | Some (x, s4) \<Rightarrow> Some (sg @ i @ f @ x, s4))))"

subsection \<open>Values\<close>

text \<open>
  The three mutually recursive parsers take the nesting depth, limited to 10000. The tests
  on lengths only let the termination argument see that a parser consumes its input.
\<close>

definition max_nesting :: nat where
  "max_nesting = 10000"

definition raw_text :: "string \<Rightarrow> string \<Rightarrow> string" where
  "raw_text s rest = take (length s - length rest) s"

function (sequential)
      parse_value :: "nat \<Rightarrow> string \<Rightarrow> (json \<times> string) option"
  and parse_elems :: "nat \<Rightarrow> string \<Rightarrow> ((string \<times> json) list \<times> string) option"
  and parse_members :: "nat \<Rightarrow> string \<Rightarrow> ((string \<times> string \<times> json) list \<times> string) option" where
  "parse_value d s =
     (case s of
        [] \<Rightarrow> None
      | c # cs \<Rightarrow>
          if c = CHR 0x7B then
            (if d \<ge> max_nesting then None
             else (case skip_ws cs of
                     [] \<Rightarrow> None
                   | k # ks \<Rightarrow>
                       if k = CHR 0x7D then Some (JObj [], ks)
                       else map_option (\<lambda>(ms, r). (JObj ms, r)) (parse_members (d + 1) (k # ks))))
          else if c = CHR 0x5B then
            (if d \<ge> max_nesting then None
             else (case skip_ws cs of
                     [] \<Rightarrow> None
                   | k # ks \<Rightarrow>
                       if k = CHR 0x5D then Some (JArr [], ks)
                       else map_option (\<lambda>(es, r). (JArr es, r)) (parse_elems (d + 1) (k # ks))))
          else if c = CHR 0x22 then map_option (\<lambda>(v, r). (JStr v, r)) (unquote cs)
          else if has_prefix s ''null'' then Some (JNull, drop 4 s)
          else if has_prefix s ''true'' then Some (JBool True, drop 4 s)
          else if has_prefix s ''false'' then Some (JBool False, drop 5 s)
          else map_option (\<lambda>(v, r). (JNum v, r)) (scan_num s))"
| "parse_elems d s =
     (case parse_value d s of
        None \<Rightarrow> None
      | Some (v, r) \<Rightarrow>
          (case skip_ws r of
             [] \<Rightarrow> None
           | k # ks \<Rightarrow>
               if k = CHR 0x5D then Some ([(raw_text s r, v)], ks)
               else if k = CHR '','' \<and> length (skip_ws ks) < length s then
                 map_option (\<lambda>(es, r'). ((raw_text s r, v) # es, r')) (parse_elems d (skip_ws ks))
               else None))"
| "parse_members d s =
     (case s of
        [] \<Rightarrow> None
      | q # qs \<Rightarrow>
          if q \<noteq> CHR 0x22 then None
          else
            (case unquote qs of
               None \<Rightarrow> None
             | Some (key, r1) \<Rightarrow>
                 (case skip_ws r1 of
                    [] \<Rightarrow> None
                  | c # cs \<Rightarrow>
                      if c \<noteq> CHR '':'' \<or> \<not> length (skip_ws cs) < length s then None
                      else
                        (case parse_value d (skip_ws cs) of
                           None \<Rightarrow> None
                         | Some (v, r) \<Rightarrow>
                             (case skip_ws r of
                                [] \<Rightarrow> None
                              | k # ks \<Rightarrow>
                                  if k = CHR 0x7D then Some ([(key, raw_text (skip_ws cs) r, v)], ks)
                                  else if k = CHR '','' \<and> length (skip_ws ks) < length s then
                                    map_option (\<lambda>(ms, r'). ((key, raw_text (skip_ws cs) r, v) # ms, r'))
                                      (parse_members d (skip_ws ks))
                                  else None)))))"
  by pat_completeness auto
termination
proof (relation "measure (\<lambda>x. case x of Inl (d, s) \<Rightarrow> 2 * length s
    | Inr (Inl (d, s)) \<Rightarrow> 2 * length s + 1 | Inr (Inr (d, s)) \<Rightarrow> 2 * length s + 1)")
qed (auto dest!: skip_ws_Cons_le simp del: length_greater_0_conv)

declare parse_value.simps [simp del] parse_elems.simps [simp del] parse_members.simps [simp del]

definition json_parse :: "string \<Rightarrow> json option" where
  "json_parse s =
     (case parse_value 0 (skip_ws s) of
        Some (v, r) \<Rightarrow> if skip_ws r = [] then Some v else None
      | None \<Rightarrow> None)"

section \<open>Decoding\<close>

text \<open>
  A decoder gets the old value, the raw text and the parsed value; the flag is False when
  Unmarshal would return an error.
\<close>

type_synonym 'a decoder = "'a \<Rightarrow> string \<times> json \<Rightarrow> 'a \<times> bool"

definition unmarshal :: "'a decoder \<Rightarrow> 'a \<Rightarrow> string \<Rightarrow> 'a \<times> bool" where
  "unmarshal dec old data =
     (case json_parse data of
        None \<Rightarrow> (old, False)
      | Some j \<Rightarrow> dec old (raw_text (skip_ws data) [], j))"

definition dec_string :: "string decoder" where
  "dec_string old x =
     (case snd x of JNull \<Rightarrow> (old, True) | JStr s \<Rightarrow> (s, True) | _ \<Rightarrow> (old, False))"

definition dec_bool :: "bool decoder" where
  "dec_bool old x =
     (case snd x of JNull \<Rightarrow> (old, True) | JBool b \<Rightarrow> (b, True) | _ \<Rightarrow> (old, False))"

definition dec_f64 :: "f64 decoder" where
  "dec_f64 old x =
     (case snd x of
        JNull \<Rightarrow> (old, True)
      | JNum l \<Rightarrow> (case parse_float l of Some v \<Rightarrow> (v, True) | None \<Rightarrow> (old, False))
      | _ \<Rightarrow> (old, False))"

text \<open>A raw message takes the text of any value, null included.\<close>

definition dec_raw :: "string decoder" where
  "dec_raw old x = (fst x, True)"

text \<open>
  A JSON array is decoded over the elements the slice already has; further elements start
  from the zero value.
\<close>

fun dec_elems :: "'a decoder \<Rightarrow> 'a \<Rightarrow> 'a list \<Rightarrow> (string \<times> json) list \<Rightarrow> 'a list \<times> bool" where
  "dec_elems dec zero olds [] = ([], True)"
| "dec_elems dec zero olds (x # xs) =
     (let (v, ok) = dec (case olds of [] \<Rightarrow> zero | old # _ \<Rightarrow> old) x;
          (vs, oks) = dec_elems dec zero (tl olds) xs in
      (v # vs, ok \<and> oks))"

definition dec_slice :: "'a decoder \<Rightarrow> 'a \<Rightarrow> 'a list decoder" where
  "dec_slice dec zero old x =
     (case snd x of
        JNull \<Rightarrow> ([], True)
      | JArr xs \<Rightarrow> dec_elems dec zero old xs
      | _ \<Rightarrow> (old, False))"

text \<open>map[string]json.RawMessage: entries are added to the map, later duplicates win.\<close>

definition dec_raw_map :: "(string, string) gomap decoder" where
  "dec_raw_map old x =
     (case snd x of
        JNull \<Rightarrow> ([], True)
      | JObj ms \<Rightarrow> (foldl (\<lambda>m (k, raw, v). gm_put k raw m) old ms, True)
      | _ \<Rightarrow> (old, False))"

text \<open>
  A struct: each member goes to the field whose name is the key, or else to the first field
  whose name equals the key under case folding; other members are skipped.
\<close>

type_synonym 'r field = "string \<times> 'r decoder"

definition find_field :: "'r field list \<Rightarrow> string \<Rightarrow> 'r decoder option" where
  "find_field fs k =
     (case find (\<lambda>(n, _). n = k) fs of
        Some (_, d) \<Rightarrow> Some d
      | None \<Rightarrow> (case find (\<lambda>(n, _). equal_fold n k) fs of Some (_, d) \<Rightarrow> Some d | None \<Rightarrow> None))"

fun dec_members :: "'r field list \<Rightarrow> 'r \<Rightarrow> (string \<times> string \<times> json) list \<Rightarrow> 'r \<times> bool" where
  "dec_members fs r [] = (r, True)"
| "dec_members fs r ((k, raw, v) # ms) =
     (case find_field fs k of
        None \<Rightarrow> dec_members fs r ms
      | Some d \<Rightarrow>
          (let (r1, ok) = d r (raw, v); (r2, oks) = dec_members fs r1 ms in (r2, ok \<and> oks)))"

definition dec_struct :: "'r field list \<Rightarrow> 'r decoder" where
  "dec_struct fs old x =
     (case snd x of
        JNull \<Rightarrow> (old, True)
      | JObj ms \<Rightarrow> dec_members fs old ms
      | _ \<Rightarrow> (old, False))"

text \<open>A field of a struct, from the decoder of its type, its selector and its update.\<close>

definition mk_field :: "string \<Rightarrow> 'a decoder \<Rightarrow> ('r \<Rightarrow> 'a) \<Rightarrow> ('a \<Rightarrow> 'r \<Rightarrow> 'r) \<Rightarrow> 'r field" where
  "mk_field name dec sel upd =
     (name, \<lambda>r x. (let (v, ok) = dec (sel r) x in (upd v r, ok)))"

section \<open>Encoding\<close>

definition hex_digit :: "nat \<Rightarrow> char" where
  "hex_digit n = (if n < 10 then chr (48 + n) else chr (87 + n))"

definition u00 :: "nat \<Rightarrow> string" where
  "u00 n = [CHR 0x5C, CHR ''u'', CHR ''0'', CHR ''0'', hex_digit (n div 16), hex_digit (n mod 16)]"

definition html_special :: "char \<Rightarrow> bool" where
  "html_special c = (c = CHR ''<'' \<or> c = CHR ''>'' \<or> c = CHR ''&'')"

text \<open>The encoding of one ASCII byte inside a string literal.\<close>

definition quote_ascii :: "char \<Rightarrow> string" where
  "quote_ascii c =
     (if c = CHR 0x22 \<or> c = CHR 0x5C then [CHR 0x5C, c]
      else if c = CHR 0x08 then [CHR 0x5C, CHR ''b'']
      else if c = CHR 0x0C then [CHR 0x5C, CHR ''f'']
      else if c = CHR 0x0A then [CHR 0x5C, CHR ''n'']
      else if c = CHR 0x0D then [CHR 0x5C, CHR ''r'']
      else if c = CHR 0x09 then [CHR 0x5C, CHR ''t'']
      else if byte c < 32 \<or> html_special c then u00 (byte c)
      else [c])"

definition bslash_u :: "string \<Rightarrow> string" where
  "bslash_u h = CHR 0x5C # CHR ''u'' # h"

text \<open>
  A rune of two bytes or more is copied, but for U+2028, U+2029 and an ill-formed byte.
\<close>

definition quote_wide :: "string \<Rightarrow> string" where
  "quote_wide s =
     (let (r, n) = decode_rune s in
      if r = rune_error \<and> n = 1 then bslash_u ''fffd''
      else if r = 8232 then bslash_u ''2028''
      else if r = 8233 then bslash_u ''2029''
      else take n s)"

function (sequential) quote_body :: "string \<Rightarrow> string" where
  "quote_body [] = []"
| "quote_body (c # cs) =
     (if byte c < 128 then quote_ascii c @ quote_body cs
      else quote_wide (c # cs) @ quote_body (drop (snd (decode_rune (c # cs))) (c # cs)))"
  by pat_completeness auto
termination
proof (relation "measure length")
  fix c :: char and cs
  have "1 \<le> snd (decode_rune (c # cs))"
    using decode_rune_width [of "c # cs"] by simp
  then show "(drop (snd (decode_rune (c # cs))) (c # cs), c # cs) \<in> measure length"
    by simp
qed auto

declare quote_body.simps(2) [simp del]

definition quote :: "string \<Rightarrow> string" where
  "quote s = CHR 0x22 # quote_body s @ [CHR 0x22]"

text \<open>
  json.Compact with HTML escaping, which Marshal applies to a raw message: white space
  outside strings goes, <, > and & and the two line separators are escaped. The first flag
  says whether the scan is inside a string, the second whether the byte is escaped.
\<close>

fun compact_raw :: "bool \<Rightarrow> bool \<Rightarrow> string \<Rightarrow> string" where
  "compact_raw inside esc [] = []"
| "compact_raw inside esc (c # cs) =
     (if html_special c then u00 (byte c) @ compact_raw inside False cs
      else if take 2 cs = [chr 128, chr 168] \<and> c = chr 226 then
        bslash_u ''2028'' @ compact_raw inside False (drop 2 cs)
      else if take 2 cs = [chr 128, chr 169] \<and> c = chr 226 then
        bslash_u ''2029'' @ compact_raw inside False (drop 2 cs)
      else if \<not> inside then
        (if is_ws c then compact_raw False False cs
         else c # compact_raw (c = CHR 0x22) False cs)
      else if esc then c # compact_raw True False cs
      else if c = CHR 0x5C then c # compact_raw True True cs
      else c # compact_raw (c \<noteq> CHR 0x22) False cs)"

text \<open>Marshal of a raw message: null when it is nil, an error when it is not JSON.\<close>

definition marshal_raw :: "string \<Rightarrow> string option" where
  "marshal_raw s =
     (if s = [] then Some ''null''
      else if json_parse s = None then None
      else Some (compact_raw False False s))"

definition key_colon :: "string \<Rightarrow> string \<Rightarrow> string" where
  "key_colon k v = quote k @ '':'' @ v"

text \<open>
  Marshal of map[string]json.RawMessage: keys in byte order, an error if any value is not
  JSON.
\<close>

definition marshal_raw_map :: "(string, string) gomap \<Rightarrow> string option" where
  "marshal_raw_map m =
     (let es = map (\<lambda>(k, v). (k, marshal_raw v)) (sort_slice (\<lambda>a b. str_lt (fst a) (fst b)) m) in
      if \<exists>(k, v) \<in> set es. v = None then None
      else Some (CHR 0x7B # join '','' (map (\<lambda>(k, v). key_colon k (the v)) es) @ [CHR 0x7D]))"

text \<open>
  Unmarshal into interface{} followed by Marshal, the canonical form of a value: numbers
  as float64, object keys in byte order with the last duplicate, compact. None when either
  step fails (a number out of range).
\<close>

fun canon :: "json \<Rightarrow> string option" where
  "canon JNull = Some ''null''"
| "canon (JBool b) = Some (if b then ''true'' else ''false'')"
| "canon (JNum l) = (case parse_float l of None \<Rightarrow> None | Some v \<Rightarrow> format_json v)"
| "canon (JStr s) = Some (quote s)"
| "canon (JArr xs) =
     (let ys = map (\<lambda>(_, x). canon x) xs in
      if None \<in> set ys then None
      else Some (CHR 0x5B # join '','' (map the ys) @ [CHR 0x5D]))"
| "canon (JObj ms) =
     (let ys = map (\<lambda>(k, _, v). (k, canon v)) ms in
      if None \<in> snd ` set ys then None
      else
        (let m = foldl (\<lambda>m (k, v). gm_put k (the v) m) [] ys;
             sorted = sort_slice (\<lambda>a b. str_lt (fst a) (fst b)) m in
         Some (CHR 0x7B # join '','' (map (\<lambda>(k, v). key_colon k v) sorted) @ [CHR 0x7D])))"

definition compact_json :: "string \<Rightarrow> string option" where
  "compact_json data = (case json_parse data of None \<Rightarrow> None | Some j \<Rightarrow> canon j)"

end
