(* ===== verification/Parsed_Values.thy ===== *)
theory Parsed_Values
  imports Entities Go_Json "HOL-Library.State_Monad"
begin

text \<open>
  The lazy-parse caches of condition_evaluator.go: parsedEntry with its getters,
  ParsedUserAttrs and ParsedExpectedValues. A getter parses the raw JSON once and stores the
  outcome in the entry, so it is a state transformer. The two cache types have the same two
  fields and share one record here; a nil pointer is \<open>None\<close>. The locale at the end states
  what a getter promises, and gives: reading through the cache is parsing the raw value.
\<close>

section \<open>parseDate\<close>

definition parse_date :: "string \<Rightarrow> gotime option" where
  "parse_date s =
     (case parse_rfc3339 s of
        Some t \<Rightarrow> Some t
      | None \<Rightarrow> (case parse_date_only s of Some t \<Rightarrow> Some t | None \<Rightarrow> None))"

section \<open>parsedEntry\<close>

record parsed_entry =
  pe_raw :: raw_json
  pe_str :: string
  pe_str_ok :: bool
  pe_str_attempted :: bool
  pe_strs :: "string list"
  pe_strs_ok :: bool
  pe_strs_attempted :: bool
  pe_num :: f64
  pe_num_ok :: bool
  pe_num_attempted :: bool
  pe_nums :: "f64 list"
  pe_nums_ok :: bool
  pe_nums_attempted :: bool
  pe_bool :: bool
  pe_bool_ok :: bool
  pe_bool_attempted :: bool
  pe_date :: gotime
  pe_date_ok :: bool
  pe_date_attempted :: bool
  pe_bounds :: "gotime \<times> gotime"
  pe_bounds_ok :: bool
  pe_bounds_attempted :: bool

definition new_entry :: "raw_json \<Rightarrow> parsed_entry" where
  "new_entry raw =
     \<lparr>pe_raw = raw,
      pe_str = [], pe_str_ok = False, pe_str_attempted = False,
      pe_strs = [], pe_strs_ok = False, pe_strs_attempted = False,
      pe_num = f64_zero, pe_num_ok = False, pe_num_attempted = False,
      pe_nums = [], pe_nums_ok = False, pe_nums_attempted = False,
      pe_bool = False, pe_bool_ok = False, pe_bool_attempted = False,
      pe_date = zero_time, pe_date_ok = False, pe_date_attempted = False,
      pe_bounds = (zero_time, zero_time), pe_bounds_ok = False, pe_bounds_attempted = False\<rparr>"

type_synonym 'a getter = "parsed_entry option \<Rightarrow> ('a \<times> bool) \<times> parsed_entry option"

definition get_str :: "string getter" where
  "get_str pv =
     (case pv of
        None \<Rightarrow> (([], False), None)
      | Some e \<Rightarrow>
          let e' = (if pe_str_attempted e then e
                    else
                      (let (v, ok) = unmarshal dec_string (pe_str e) (pe_raw e) in
                       e\<lparr>pe_str_attempted := True, pe_str := v,
                         pe_str_ok := (if ok then True else pe_str_ok e)\<rparr>)) in
          ((pe_str e', pe_str_ok e'), Some e'))"

definition get_str_slice :: "string list getter" where
  "get_str_slice pv =
     (case pv of
        None \<Rightarrow> (([], False), None)
      | Some e \<Rightarrow>
          let e' = (if pe_strs_attempted e then e
                    else
                      (let (v, ok) = unmarshal (dec_slice dec_string []) (pe_strs e) (pe_raw e) in
                       e\<lparr>pe_strs_attempted := True, pe_strs := v,
                         pe_strs_ok := (if ok then True else pe_strs_ok e)\<rparr>)) in
          ((pe_strs e', pe_strs_ok e'), Some e'))"

definition get_num :: "f64 getter" where
  "get_num pv =
     (case pv of
        None \<Rightarrow> ((f64_zero, False), None)
      | Some e \<Rightarrow>
          let e' = (if pe_num_attempted e then e
                    else
                      (let (v, ok) = unmarshal dec_f64 (pe_num e) (pe_raw e) in
                       e\<lparr>pe_num_attempted := True, pe_num := v,
                         pe_num_ok := (if ok then True else pe_num_ok e)\<rparr>)) in
          ((pe_num e', pe_num_ok e'), Some e'))"

definition get_num_slice :: "f64 list getter" where
  "get_num_slice pv =
     (case pv of
        None \<Rightarrow> (([], False), None)
      | Some e \<Rightarrow>
          let e' = (if pe_nums_attempted e then e
                    else
                      (let (v, ok) = unmarshal (dec_slice dec_f64 f64_zero) (pe_nums e) (pe_raw e) in
                       e\<lparr>pe_nums_attempted := True, pe_nums := v,
                         pe_nums_ok := (if ok then True else pe_nums_ok e)\<rparr>)) in
          ((pe_nums e', pe_nums_ok e'), Some e'))"

definition get_bool :: "bool getter" where
  "get_bool pv =
     (case pv of
        None \<Rightarrow> ((False, False), None)
      | Some e \<Rightarrow>
          let e' = (if pe_bool_attempted e then e
                    else
                      (let (v, ok) = unmarshal dec_bool (pe_bool e) (pe_raw e) in
                       e\<lparr>pe_bool_attempted := True, pe_bool := v,
                         pe_bool_ok := (if ok then True else pe_bool_ok e)\<rparr>)) in
          ((pe_bool e', pe_bool_ok e'), Some e'))"

definition get_date :: "gotime getter" where
  "get_date pv =
     (case pv of
        None \<Rightarrow> ((zero_time, False), None)
      | Some e \<Rightarrow>
          let e' = (if pe_date_attempted e then e
                    else
                      (let (s, ok) = unmarshal dec_string [] (pe_raw e) in
                       case (if ok then parse_date s else None) of
                         Some t \<Rightarrow> e\<lparr>pe_date_attempted := True, pe_date := t, pe_date_ok := True\<rparr>
                       | None \<Rightarrow> e\<lparr>pe_date_attempted := True\<rparr>)) in
          ((pe_date e', pe_date_ok e'), Some e'))"

definition get_date_bounds :: "(gotime \<times> gotime) getter" where
  "get_date_bounds pv =
     (case pv of
        None \<Rightarrow> (((zero_time, zero_time), False), None)
      | Some e \<Rightarrow>
          let e' = (if pe_bounds_attempted e then e
                    else
                      (let (bs, ok) = unmarshal (dec_slice dec_string []) [] (pe_raw e) in
                       if ok \<and> length bs = 2 then
                         (case (parse_date (bs ! 0), parse_date (bs ! 1)) of
                            (Some lo, Some hi) \<Rightarrow>
                              e\<lparr>pe_bounds_attempted := True, pe_bounds := (lo, hi), pe_bounds_ok := True\<rparr>
                          | _ \<Rightarrow> e\<lparr>pe_bounds_attempted := True\<rparr>)
                       else e\<lparr>pe_bounds_attempted := True\<rparr>)) in
          ((pe_bounds e', pe_bounds_ok e'), Some e'))"

section \<open>ParsedUserAttrs and ParsedExpectedValues\<close>

record parsed_values =
  pv_raw :: "string \<rightharpoonup> raw_json"
  pv_cache :: "string \<rightharpoonup> parsed_entry"

definition new_parsed :: "(string \<rightharpoonup> raw_json) option \<Rightarrow> parsed_values option" where
  "new_parsed attrs = (case attrs of None \<Rightarrow> None | Some m \<Rightarrow> Some \<lparr>pv_raw = m, pv_cache = Map.empty\<rparr>)"

text \<open>Raw: None stands for \<open>(nil, false)\<close>.\<close>

definition pv_lookup :: "parsed_values option \<Rightarrow> string \<Rightarrow> raw_json option" where
  "pv_lookup p k = (case p of None \<Rightarrow> None | Some v \<Rightarrow> pv_raw v k)"

definition pv_has :: "parsed_values option \<Rightarrow> string \<Rightarrow> bool" where
  "pv_has p k = (case p of None \<Rightarrow> False | Some v \<Rightarrow> pv_raw v k \<noteq> None)"

text \<open>bytes.TrimSpace and comparison with null; an absent or empty value is null.\<close>

definition pv_is_null :: "parsed_values option \<Rightarrow> string \<Rightarrow> bool" where
  "pv_is_null p k =
     (case p of
        None \<Rightarrow> True
      | Some v \<Rightarrow>
          (case pv_raw v k of
             None \<Rightarrow> True
           | Some raw \<Rightarrow> raw = [] \<or> trim_space raw = ''null''))"

text \<open>The entry of an attribute, created in the cache on first use.\<close>

definition pv_get :: "string \<Rightarrow> parsed_values option \<Rightarrow> parsed_entry option \<times> parsed_values option" where
  "pv_get k p =
     (case p of
        None \<Rightarrow> (None, None)
      | Some v \<Rightarrow>
          (case pv_cache v k of
             Some e \<Rightarrow> (Some e, Some v)
           | None \<Rightarrow>
               (case pv_raw v k of
                  None \<Rightarrow> (None, Some v)
                | Some raw \<Rightarrow>
                    (let e = new_entry raw in
                     (Some e, Some (v\<lparr>pv_cache := (pv_cache v)(k \<mapsto> e)\<rparr>))))))"

text \<open>
  The entry is shared by pointer: what a getter writes into it is in the cache. The methods
  GetString, GetNumber and so on are \<open>pv_read\<close> of the getter.
\<close>

definition pv_store :: "string \<Rightarrow> parsed_entry option \<Rightarrow> parsed_values option \<Rightarrow> parsed_values option" where
  "pv_store k e p =
     (case (e, p) of
        (Some e', Some v) \<Rightarrow> Some (v\<lparr>pv_cache := (pv_cache v)(k \<mapsto> e')\<rparr>)
      | _ \<Rightarrow> p)"

definition pv_read :: "'a getter \<Rightarrow> string \<Rightarrow> parsed_values option \<Rightarrow> ('a \<times> bool) \<times> parsed_values option" where
  "pv_read getter k p =
     (let (e, p1) = pv_get k p; (r, e') = getter e in (r, pv_store k e' p1))"

section \<open>Parsing without a cache\<close>

text \<open>The outcome of each getter, when the raw value is parsed on the spot.\<close>

definition raw_str :: "raw_json \<Rightarrow> string \<times> bool" where
  "raw_str raw = unmarshal dec_string [] raw"

definition raw_strs :: "raw_json \<Rightarrow> string list \<times> bool" where
  "raw_strs raw = unmarshal (dec_slice dec_string []) [] raw"

definition raw_num :: "raw_json \<Rightarrow> f64 \<times> bool" where
  "raw_num raw = unmarshal dec_f64 f64_zero raw"

definition raw_nums :: "raw_json \<Rightarrow> f64 list \<times> bool" where
  "raw_nums raw = unmarshal (dec_slice dec_f64 f64_zero) [] raw"

definition raw_bool :: "raw_json \<Rightarrow> bool \<times> bool" where
  "raw_bool raw = unmarshal dec_bool False raw"

definition raw_date :: "raw_json \<Rightarrow> gotime \<times> bool" where
  "raw_date raw =
     (case (if snd (raw_str raw) then parse_date (fst (raw_str raw)) else None) of
        Some t \<Rightarrow> (t, True) | None \<Rightarrow> (zero_time, False))"

definition raw_bounds :: "raw_json \<Rightarrow> (gotime \<times> gotime) \<times> bool" where
  "raw_bounds raw =
     (let (bs, ok) = raw_strs raw in
      if ok \<and> length bs = 2 then
        (case (parse_date (bs ! 0), parse_date (bs ! 1)) of
           (Some lo, Some hi) \<Rightarrow> ((lo, hi), True) | _ \<Rightarrow> ((zero_time, zero_time), False))
      else ((zero_time, zero_time), False))"

definition raw_read :: "(raw_json \<Rightarrow> 'a \<times> bool) \<Rightarrow> 'a \<Rightarrow> (string \<rightharpoonup> raw_json) option \<Rightarrow> string \<Rightarrow> 'a \<times> bool" where
  "raw_read f zero m k =
     (case m of None \<Rightarrow> (zero, False)
      | Some m' \<Rightarrow> (case m' k of None \<Rightarrow> (zero, False) | Some raw \<Rightarrow> f raw))"

section \<open>The invariant\<close>

text \<open>
  Every slot of an entry is either untouched or holds what parsing the raw value yields.
\<close>

definition slot_ok :: "bool \<Rightarrow> 'a \<Rightarrow> bool \<Rightarrow> 'a \<Rightarrow> 'a \<times> bool \<Rightarrow> bool" where
  "slot_ok attempted v ok zero direct =
     (if attempted then (v, ok) = direct else v = zero \<and> \<not> ok)"

definition entry_ok :: "parsed_entry \<Rightarrow> bool" where
  "entry_ok e =
     (slot_ok (pe_str_attempted e) (pe_str e) (pe_str_ok e) [] (raw_str (pe_raw e))
      \<and> slot_ok (pe_strs_attempted e) (pe_strs e) (pe_strs_ok e) [] (raw_strs (pe_raw e))
      \<and> slot_ok (pe_num_attempted e) (pe_num e) (pe_num_ok e) f64_zero (raw_num (pe_raw e))
      \<and> slot_ok (pe_nums_attempted e) (pe_nums e) (pe_nums_ok e) [] (raw_nums (pe_raw e))
      \<and> slot_ok (pe_bool_attempted e) (pe_bool e) (pe_bool_ok e) False (raw_bool (pe_raw e))
      \<and> slot_ok (pe_date_attempted e) (pe_date e) (pe_date_ok e) zero_time (raw_date (pe_raw e))
      \<and> slot_ok (pe_bounds_attempted e) (pe_bounds e) (pe_bounds_ok e) (zero_time, zero_time)
          (raw_bounds (pe_raw e)))"

definition values_ok :: "parsed_values option \<Rightarrow> bool" where
  "values_ok p =
     (case p of
        None \<Rightarrow> True
      | Some v \<Rightarrow> \<forall>k e. pv_cache v k = Some e \<longrightarrow> entry_ok e \<and> pv_raw v k = Some (pe_raw e))"

definition raw_of :: "parsed_values option \<Rightarrow> (string \<rightharpoonup> raw_json) option" where
  "raw_of p = map_option pv_raw p"

lemma entry_ok_new [simp]: "entry_ok (new_entry raw)"
  by (simp add: entry_ok_def new_entry_def slot_ok_def)

lemma pe_raw_new [simp]: "pe_raw (new_entry raw) = raw"
  by (simp add: new_entry_def)

lemma values_ok_new_parsed [simp]: "values_ok (new_parsed m)"
  by (cases m) (simp_all add: values_ok_def new_parsed_def)

lemma raw_of_new_parsed [simp]: "raw_of (new_parsed m) = m"
  by (cases m) (simp_all add: raw_of_def new_parsed_def)

lemma raw_of_eq_None [simp]: "raw_of p = None \<longleftrightarrow> p = None"
  by (simp add: raw_of_def)

lemma pv_lookup_raw_of: "pv_lookup p k = Option.bind (raw_of p) (\<lambda>m. m k)"
  by (cases p) (simp_all add: pv_lookup_def raw_of_def)

lemma pv_has_lookup: "pv_has p k \<longleftrightarrow> pv_lookup p k \<noteq> None"
  by (cases p) (simp_all add: pv_has_def pv_lookup_def)

lemma pv_is_null_raw_of:
  "pv_is_null p k
     = (case pv_lookup p k of None \<Rightarrow> True | Some raw \<Rightarrow> raw = [] \<or> trim_space raw = ''null'')"
  by (cases p) (simp_all add: pv_is_null_def pv_lookup_def)

lemma pv_get_ok:
  assumes "values_ok p" and "pv_get k p = (e, p1)"
  shows "values_ok p1 \<and> raw_of p1 = raw_of p
    \<and> (case e of None \<Rightarrow> pv_lookup p k = None
       | Some x \<Rightarrow> entry_ok x \<and> pv_lookup p k = Some (pe_raw x) \<and> pv_lookup p1 k = Some (pe_raw x))"
  using assms
  by (auto simp: pv_get_def values_ok_def raw_of_def pv_lookup_def Let_def
      split: option.splits if_splits)

lemma pv_store_ok:
  assumes "values_ok p" and "entry_ok x" and "pv_lookup p k = Some (pe_raw x)"
  shows "values_ok (pv_store k (Some x) p)" and "raw_of (pv_store k (Some x) p) = raw_of p"
  using assms by (auto simp: pv_store_def values_ok_def raw_of_def pv_lookup_def split: option.splits)

section \<open>The contract of a getter\<close>

locale memo_getter =
  fixes getter :: "'a getter" and direct :: "raw_json \<Rightarrow> 'a \<times> bool" and zero :: 'a
  assumes on_nil: "getter None = ((zero, False), None)"
    and on_entry: "entry_ok e \<Longrightarrow> fst (getter (Some e)) = direct (pe_raw e)"
    and on_entry_keeps: "entry_ok e \<Longrightarrow> pred_option (\<lambda>e'. entry_ok e' \<and> pe_raw e' = pe_raw e) (snd (getter (Some e)))"
    and on_entry_some: "entry_ok e \<Longrightarrow> snd (getter (Some e)) \<noteq> None"
begin

text \<open>A read through the cache is a parse of the raw value, whatever was read before.\<close>

lemma read_direct:
  assumes "values_ok p"
  shows "fst (pv_read getter k p) = raw_read direct zero (raw_of p) k"
    and "values_ok (snd (pv_read getter k p))"
    and "raw_of (snd (pv_read getter k p)) = raw_of p"
proof -
  obtain e p1 where get: "pv_get k p = (e, p1)" by fastforce
  note ok = pv_get_ok [OF assms get]
  have "fst (pv_read getter k p) = raw_read direct zero (raw_of p) k
    \<and> values_ok (snd (pv_read getter k p)) \<and> raw_of (snd (pv_read getter k p)) = raw_of p"
  proof (cases e)
    case None
    then show ?thesis
      using ok get
      by (auto simp: pv_read_def on_nil raw_read_def pv_store_def pv_lookup_raw_of split: option.splits)
  next
    case (Some x)
    then have x: "entry_ok x" "pv_lookup p k = Some (pe_raw x)" "pv_lookup p1 k = Some (pe_raw x)"
      using ok by simp_all
    obtain x' where snd: "snd (getter (Some x)) = Some x'"
      using on_entry_some [OF x(1)] by blast
    then have x': "getter (Some x) = (direct (pe_raw x), Some x')" "entry_ok x'" "pe_raw x' = pe_raw x"
      using on_entry [OF x(1)] on_entry_keeps [OF x(1)] by (simp_all add: prod_eq_iff)
    have "raw_read direct zero (raw_of p) k = direct (pe_raw x)"
      using x(2) by (cases p) (auto simp: raw_read_def pv_lookup_def raw_of_def)
    with Some x' x(3) ok get show ?thesis
      by (simp add: pv_read_def pv_store_ok)
  qed
  then show "fst (pv_read getter k p) = raw_read direct zero (raw_of p) k"
    and "values_ok (snd (pv_read getter k p))"
    and "raw_of (snd (pv_read getter k p)) = raw_of p" by simp_all
qed

text \<open>Reading again returns the same answer.\<close>

lemma read_twice:
  assumes "values_ok p"
  shows "fst (pv_read getter k (snd (pv_read getter k' p))) = fst (pv_read getter k p)"
  using read_direct [OF assms] read_direct(1) by metis

end

text \<open>
  The getters of the plain types share one scheme: the first call decodes, later calls
  return what it stored.
\<close>

lemma get_str_entry:
  assumes "entry_ok e"
  shows "fst (get_str (Some e)) = raw_str (pe_raw e)"
    and "pred_option (\<lambda>e'. entry_ok e' \<and> pe_raw e' = pe_raw e) (snd (get_str (Some e)))"
    and "snd (get_str (Some e)) \<noteq> None"
  using assms
  by (cases "raw_str (pe_raw e)"; cases "pe_str_attempted e";
      simp add: get_str_def entry_ok_def slot_ok_def raw_str_def)+

interpretation str: memo_getter get_str raw_str "[]"
  by unfold_locales (use get_str_entry in \<open>simp_all add: get_str_def [of None]\<close>)

lemma get_str_slice_entry:
  assumes "entry_ok e"
  shows "fst (get_str_slice (Some e)) = raw_strs (pe_raw e)"
    and "pred_option (\<lambda>e'. entry_ok e' \<and> pe_raw e' = pe_raw e) (snd (get_str_slice (Some e)))"
    and "snd (get_str_slice (Some e)) \<noteq> None"
  using assms
  by (cases "raw_strs (pe_raw e)"; cases "pe_strs_attempted e";
      simp add: get_str_slice_def entry_ok_def slot_ok_def raw_strs_def)+

interpretation strs: memo_getter get_str_slice raw_strs "[]"
  by unfold_locales (use get_str_slice_entry in \<open>simp_all add: get_str_slice_def [of None]\<close>)

lemma get_num_entry:
  assumes "entry_ok e"
  shows "fst (get_num (Some e)) = raw_num (pe_raw e)"
    and "pred_option (\<lambda>e'. entry_ok e' \<and> pe_raw e' = pe_raw e) (snd (get_num (Some e)))"
    and "snd (get_num (Some e)) \<noteq> None"
  using assms
  by (cases "raw_num (pe_raw e)"; cases "pe_num_attempted e";
      simp add: get_num_def entry_ok_def slot_ok_def raw_num_def)+

interpretation num: memo_getter get_num raw_num f64_zero
  by unfold_locales (use get_num_entry in \<open>simp_all add: get_num_def [of None]\<close>)

lemma get_num_slice_entry:
  assumes "entry_ok e"
  shows "fst (get_num_slice (Some e)) = raw_nums (pe_raw e)"
    and "pred_option (\<lambda>e'. entry_ok e' \<and> pe_raw e' = pe_raw e) (snd (get_num_slice (Some e)))"
    and "snd (get_num_slice (Some e)) \<noteq> None"
  using assms
  by (cases "raw_nums (pe_raw e)"; cases "pe_nums_attempted e";
      simp add: get_num_slice_def entry_ok_def slot_ok_def raw_nums_def)+

interpretation nums: memo_getter get_num_slice raw_nums "[]"
  by unfold_locales (use get_num_slice_entry in \<open>simp_all add: get_num_slice_def [of None]\<close>)

lemma get_bool_entry:
  assumes "entry_ok e"
  shows "fst (get_bool (Some e)) = raw_bool (pe_raw e)"
    and "pred_option (\<lambda>e'. entry_ok e' \<and> pe_raw e' = pe_raw e) (snd (get_bool (Some e)))"
    and "snd (get_bool (Some e)) \<noteq> None"
  using assms
  by (cases "raw_bool (pe_raw e)"; cases "pe_bool_attempted e";
      simp add: get_bool_def entry_ok_def slot_ok_def raw_bool_def)+

interpretation bln: memo_getter get_bool raw_bool False
  by unfold_locales (use get_bool_entry in \<open>simp_all add: get_bool_def [of None]\<close>)

lemma get_date_entry:
  assumes "entry_ok e"
  shows "fst (get_date (Some e)) = raw_date (pe_raw e)"
    and "pred_option (\<lambda>e'. entry_ok e' \<and> pe_raw e' = pe_raw e) (snd (get_date (Some e)))"
    and "snd (get_date (Some e)) \<noteq> None"
  using assms
  by (cases "raw_str (pe_raw e)"; cases "pe_date_attempted e"; cases "snd (raw_str (pe_raw e))";
      cases "parse_date (fst (raw_str (pe_raw e)))";
      simp add: get_date_def entry_ok_def slot_ok_def raw_date_def raw_str_def)+

interpretation dat: memo_getter get_date raw_date zero_time
  by unfold_locales (use get_date_entry in \<open>simp_all add: get_date_def [of None]\<close>)

lemma get_date_bounds_entry:
  assumes "entry_ok e"
  shows "fst (get_date_bounds (Some e)) = raw_bounds (pe_raw e)"
    and "pred_option (\<lambda>e'. entry_ok e' \<and> pe_raw e' = pe_raw e) (snd (get_date_bounds (Some e)))"
    and "snd (get_date_bounds (Some e)) \<noteq> None"
  using assms
  by (cases "raw_strs (pe_raw e)"; cases "pe_bounds_attempted e";
      cases "parse_date (fst (raw_strs (pe_raw e)) ! 0)"; cases "parse_date (fst (raw_strs (pe_raw e)) ! 1)";
      simp add: get_date_bounds_def entry_ok_def slot_ok_def raw_bounds_def raw_strs_def)+

interpretation bnd: memo_getter get_date_bounds raw_bounds "(zero_time, zero_time)"
  by unfold_locales (use get_date_bounds_entry in \<open>simp_all add: get_date_bounds_def [of None]\<close>)

end
