(* ===== verification/Condition_Compare.thy ===== *)
theory Condition_Compare
  imports Parsed_Values
begin

text \<open>
  The comparators of condition_evaluator.go and the sentinel values of
  condition_sentinels.go. Reading an attribute updates the caches, so every function is a
  state transformer over the two of them. A Go function returning \<open>(bool, error)\<close> returns a
  sum; one returning \<open>(result, handled, error)\<close> returns None when not handled (its error is
  always nil).
\<close>

section \<open>State and errors\<close>

record eval_state =
  es_exp :: "parsed_values option"
  es_usr :: "parsed_values option"

datatype eval_error =
    NotPreloaded uuid
  | BadActual string string
  | BadExpected string string
  | BadBounds nat string
  | BadOperator string string
  | BadDataType string

type_synonym eval_res = "(eval_error, bool) go_result"
type_synonym 'a ev = "(eval_state, 'a) state"

abbreviation ret :: "'a \<Rightarrow> 'a ev" where
  "ret \<equiv> State_Monad.return"

definition exp_read :: "'a getter \<Rightarrow> string \<Rightarrow> ('a \<times> bool) ev" where
  "exp_read getter k =
     State (\<lambda>s. let (r, p) = pv_read getter k (es_exp s) in (r, s\<lparr>es_exp := p\<rparr>))"

definition usr_read :: "'a getter \<Rightarrow> string \<Rightarrow> ('a \<times> bool) ev" where
  "usr_read getter k =
     State (\<lambda>s. let (r, p) = pv_read getter k (es_usr s) in (r, s\<lparr>es_usr := p\<rparr>))"

definition exp_ask :: "(parsed_values option \<Rightarrow> 'a) \<Rightarrow> 'a ev" where
  "exp_ask f = State (\<lambda>s. (f (es_exp s), s))"

definition usr_ask :: "(parsed_values option \<Rightarrow> 'a) \<Rightarrow> 'a ev" where
  "usr_ask f = State (\<lambda>s. (f (es_usr s), s))"

section \<open>Comparators\<close>

definition compare_text :: "string \<Rightarrow> string \<Rightarrow> string \<Rightarrow> eval_res ev" where
  "compare_text op actual0 k =
     (let actual = trim_space actual0 in
      if op = op_eq then
        do { (e, ok) \<leftarrow> exp_read get_str k;
             ret (if \<not> ok then Inl (BadExpected dt_text k)
                  else Inr (equal_fold actual (trim_space e))) }
      else if op = op_neq then
        do { (e, ok) \<leftarrow> exp_read get_str k;
             ret (if \<not> ok then Inl (BadExpected dt_text k)
                  else Inr (\<not> equal_fold actual (trim_space e))) }
      else if op = op_in then
        do { (es, ok) \<leftarrow> exp_read get_str_slice k;
             ret (if \<not> ok then Inl (BadExpected dt_text k)
                  else Inr (list_ex (\<lambda>e. equal_fold (trim_space e) actual) es)) }
      else if op = op_nin then
        do { (es, ok) \<leftarrow> exp_read get_str_slice k;
             ret (if \<not> ok then Inl (BadExpected dt_text k)
                  else Inr (\<not> list_ex (\<lambda>e. equal_fold (trim_space e) actual) es)) }
      else if op = op_contains then
        do { (e, ok) \<leftarrow> exp_read get_str k;
             ret (if \<not> ok then Inl (BadExpected dt_text k)
                  else Inr (contains (to_lower actual) (to_lower (trim_space e)))) }
      else ret (Inl (BadOperator op dt_text)))"

text \<open>The six order comparisons; a comparison with NaN is false, but for \<open>!=\<close>.\<close>

definition num_test :: "string \<Rightarrow> f64 \<Rightarrow> f64 \<Rightarrow> bool" where
  "num_test op a e =
     (if op = op_eq then f64_eq a e
      else if op = op_neq then \<not> f64_eq a e
      else if op = op_lt then f64_lt a e
      else if op = op_lte then f64_le a e
      else if op = op_gt then f64_lt e a
      else f64_le e a)"

definition is_order_op :: "string \<Rightarrow> bool" where
  "is_order_op op =
     (op = op_eq \<or> op = op_neq \<or> op = op_lt \<or> op = op_lte \<or> op = op_gt \<or> op = op_gte)"

definition compare_number :: "string \<Rightarrow> f64 \<Rightarrow> string \<Rightarrow> eval_res ev" where
  "compare_number op actual k =
     (if is_order_op op then
        do { (e, ok) \<leftarrow> exp_read get_num k;
             ret (if \<not> ok then Inl (BadExpected dt_number k) else Inr (num_test op actual e)) }
      else if op = op_in then
        do { (es, ok) \<leftarrow> exp_read get_num_slice k;
             ret (if \<not> ok then Inl (BadExpected dt_number k)
                  else Inr (list_ex (\<lambda>v. f64_eq actual v) es)) }
      else if op = op_between then
        do { (bs, ok) \<leftarrow> exp_read get_num_slice k;
             ret (if \<not> ok then Inl (BadExpected dt_number k)
                  else if length bs \<noteq> 2 then Inl (BadBounds (length bs) k)
                  else Inr (f64_le (bs ! 0) actual \<and> f64_le actual (bs ! 1))) }
      else ret (Inl (BadOperator op dt_number)))"

definition date_test :: "string \<Rightarrow> gotime \<Rightarrow> gotime \<Rightarrow> bool" where
  "date_test op a e =
     (if op = op_eq then time_equal a e
      else if op = op_neq then \<not> time_equal a e
      else if op = op_lt then time_before a e
      else if op = op_lte then time_before a e \<or> time_equal a e
      else if op = op_gt then time_after a e
      else time_after a e \<or> time_equal a e)"

definition compare_date :: "string \<Rightarrow> gotime \<Rightarrow> string \<Rightarrow> eval_res ev" where
  "compare_date op actual k =
     (if is_order_op op then
        do { (e, ok) \<leftarrow> exp_read get_date k;
             ret (if \<not> ok then Inl (BadExpected dt_date k) else Inr (date_test op actual e)) }
      else if op = op_between then
        do { ((lo, hi), ok) \<leftarrow> exp_read get_date_bounds k;
             ret (if \<not> ok then Inl (BadExpected dt_date k)
                  else Inr ((time_equal actual lo \<or> time_after actual lo)
                            \<and> (time_equal actual hi \<or> time_before actual hi))) }
      else ret (Inl (BadOperator op dt_date)))"

definition compare_boolean :: "string \<Rightarrow> bool \<Rightarrow> string \<Rightarrow> eval_res ev" where
  "compare_boolean op actual k =
     do { (e, ok) \<leftarrow> exp_read get_bool k;
          ret (if \<not> ok then Inl (BadExpected dt_boolean k)
               else if op = op_eq then Inr (actual = e)
               else if op = op_neq then Inr (actual \<noteq> e)
               else Inl (BadOperator op dt_boolean)) }"

definition compare_values :: "string \<Rightarrow> string \<Rightarrow> string \<Rightarrow> eval_res ev" where
  "compare_values dt op k =
     (if dt = dt_text then
        do { (actual, ok) \<leftarrow> usr_read get_str k;
             if \<not> ok then ret (Inl (BadActual dt_text k)) else compare_text op actual k }
      else if dt = dt_number then
        do { (actual, ok) \<leftarrow> usr_read get_num k;
             if \<not> ok then ret (Inl (BadActual dt_number k)) else compare_number op actual k }
      else if dt = dt_date then
        do { (actual, ok) \<leftarrow> usr_read get_date k;
             if \<not> ok then ret (Inl (BadActual dt_date k)) else compare_date op actual k }
      else if dt = dt_boolean then
        do { (actual, ok) \<leftarrow> usr_read get_bool k;
             if \<not> ok then ret (Inl (BadActual dt_boolean k)) else compare_boolean op actual k }
      else ret (Inl (BadDataType dt)))"

section \<open>Sentinels\<close>

datatype sentinel = SentinelNone | SentinelAny | SentinelNull | SentinelList string

definition extract_sentinel :: "raw_json \<Rightarrow> sentinel" where
  "extract_sentinel raw =
     (if raw = [] then SentinelNone
      else
        let (s, ok) = unmarshal dec_string [] raw in
        if \<not> ok then SentinelNone
        else
          let trimmed = trim_space s in
          if trimmed = [] then SentinelNone
          else if equal_fold trimmed ''ANY'' then SentinelAny
          else if equal_fold trimmed ''NULL'' then SentinelNull
          else if contains trimmed ''^'' then SentinelList trimmed
          else SentinelNone)"

definition split_caret_tokens :: "string \<Rightarrow> string list" where
  "split_caret_tokens payload =
     filter (\<lambda>t. t \<noteq> []) (map trim_space (split_on CHR ''^'' payload))"

fun parse_tokens :: "string list \<Rightarrow> f64 list option" where
  "parse_tokens [] = Some []"
| "parse_tokens (t # ts) =
     (case parse_float t of
        None \<Rightarrow> None
      | Some n \<Rightarrow> (case parse_tokens ts of None \<Rightarrow> None | Some ns \<Rightarrow> Some (n # ns)))"

definition parse_caret_numbers :: "string list \<Rightarrow> f64 list option" where
  "parse_caret_numbers tokens = (if tokens = [] then None else parse_tokens tokens)"

definition match_text_list :: "string \<Rightarrow> string list \<Rightarrow> string \<Rightarrow> bool ev" where
  "match_text_list op tokens k =
     do { (actual, ok) \<leftarrow> usr_read get_str k;
          ret (if \<not> ok then False
               else if op = op_eq \<or> op = op_in then list_ex (\<lambda>t. equal_fold t actual) tokens
               else if op = op_neq \<or> op = op_nin then \<not> list_ex (\<lambda>t. equal_fold t actual) tokens
               else False) }"

definition match_number_list :: "string \<Rightarrow> f64 list \<Rightarrow> string \<Rightarrow> bool ev" where
  "match_number_list op nums k =
     do { (actual, ok) \<leftarrow> usr_read get_num k;
          ret (if \<not> ok then False
               else if op = op_eq \<or> op = op_in then list_ex (\<lambda>n. f64_eq actual n) nums
               else if op = op_neq \<or> op = op_nin then \<not> list_ex (\<lambda>n. f64_eq actual n) nums
               else False) }"

definition apply_sentinel :: "string \<Rightarrow> string \<Rightarrow> raw_json \<Rightarrow> string \<Rightarrow> bool option ev" where
  "apply_sentinel dt op raw_expected k =
     (if dt \<noteq> dt_text \<and> dt \<noteq> dt_number then ret None
      else
        (case extract_sentinel raw_expected of
           SentinelAny \<Rightarrow> ret (Some True)
         | SentinelNull \<Rightarrow>
             if op = op_eq then do { n \<leftarrow> usr_ask (\<lambda>p. pv_is_null p k); ret (Some n) }
             else if op = op_neq then do { n \<leftarrow> usr_ask (\<lambda>p. pv_is_null p k); ret (Some (\<not> n)) }
             else ret (Some False)
         | SentinelList payload \<Rightarrow>
             (let tokens = split_caret_tokens payload in
              if tokens = [] then ret (Some False)
              else if dt = dt_text then
                do { b \<leftarrow> match_text_list op tokens k; ret (Some b) }
              else
                (case parse_caret_numbers tokens of
                   None \<Rightarrow> ret (Some False)
                 | Some nums \<Rightarrow> do { b \<leftarrow> match_number_list op nums k; ret (Some b) }))
         | SentinelNone \<Rightarrow> ret None))"

section \<open>evaluateSingleCondition\<close>

text \<open>
  The check of one condition. The callers have seen that AttributeID is not nil; \<open>a\<close> is the
  UUID it points to.
\<close>

definition evaluate_single :: "uuid_ops \<Rightarrow> rule_condition \<Rightarrow> uuid \<Rightarrow> eval_res ev" where
  "evaluate_single U c a =
     (let k = uuid_string U a in
      do { has \<leftarrow> exp_ask (\<lambda>p. pv_has p k);
           if \<not> has then ret (Inr False)
           else
             do { nil \<leftarrow> usr_ask (\<lambda>p. p = None);
                  if nil then ret (Inr False)
                  else
                    (case rc_attribute c of
                       None \<Rightarrow> ret (Inl (NotPreloaded (bm_id c)))
                     | Some att \<Rightarrow>
                         do { raw \<leftarrow> exp_ask (\<lambda>p. case pv_lookup p k of None \<Rightarrow> [] | Some r \<Rightarrow> r);
                              handled \<leftarrow> apply_sentinel (at_data_type att) (rc_operator c) raw k;
                              (case handled of
                                 Some b \<Rightarrow> ret (Inr b)
                               | None \<Rightarrow>
                                   do { present \<leftarrow> usr_ask (\<lambda>p. pv_lookup p k \<noteq> None);
                                        if \<not> present then ret (Inr False)
                                        else compare_values (at_data_type att) (rc_operator c) k }) }) } })"

end
