(* ===== verification/Go_Sha256.thy ===== *)
theory Go_Sha256
  imports Go_Strings "HOL-Library.Word"
begin

text \<open>
  crypto/sha256.Sum256 (FIPS 180-4) on bytes, with 32-bit words that wrap around, and
  hex.EncodeToString of the digest. Used for the condition and placement hashes.
\<close>

unbundle bit_operations_syntax

type_synonym w32 = "32 word"

text \<open>
  The constants are the first 32 bits of the fractional parts of the cube roots of the first
  64 primes and of the square roots of the first eight; they are computed bit by bit.
\<close>

fun root_bits :: "nat \<Rightarrow> nat \<Rightarrow> nat \<Rightarrow> nat \<Rightarrow> nat" where
  "root_bits k n 0 r = r"
| "root_bits k n (Suc i) r = root_bits k n i (if (r + 2 ^ i) ^ k \<le> n then r + 2 ^ i else r)"

definition small_primes :: "nat list" where
  "small_primes = filter (\<lambda>p. list_all (\<lambda>d. p mod d \<noteq> 0) [2..<p]) [2..<312]"

definition k_table :: "w32 list" where
  "k_table = map (\<lambda>p. of_nat (root_bits 3 (p * 2 ^ 96) 35 0)) small_primes"

definition h_init :: "w32 list" where
  "h_init = map (\<lambda>p. of_nat (root_bits 2 (p * 2 ^ 64) 37 0)) [2, 3, 5, 7, 11, 13, 17, 19]"

definition rotr :: "nat \<Rightarrow> w32 \<Rightarrow> w32" where
  "rotr n x = (drop_bit n x OR push_bit (32 - n) x)"

definition sigma0 :: "w32 \<Rightarrow> w32" where "sigma0 x = (rotr 7 x XOR rotr 18 x XOR drop_bit 3 x)"
definition sigma1 :: "w32 \<Rightarrow> w32" where "sigma1 x = (rotr 17 x XOR rotr 19 x XOR drop_bit 10 x)"
definition big_sigma0 :: "w32 \<Rightarrow> w32" where "big_sigma0 x = (rotr 2 x XOR rotr 13 x XOR rotr 22 x)"
definition big_sigma1 :: "w32 \<Rightarrow> w32" where "big_sigma1 x = (rotr 6 x XOR rotr 11 x XOR rotr 25 x)"
definition ch :: "w32 \<Rightarrow> w32 \<Rightarrow> w32 \<Rightarrow> w32" where "ch x y z = ((x AND y) XOR (NOT x AND z))"
definition maj :: "w32 \<Rightarrow> w32 \<Rightarrow> w32 \<Rightarrow> w32" where
  "maj x y z = ((x AND y) XOR (x AND z) XOR (y AND z))"

text \<open>The message schedule is kept newest first while it grows.\<close>

fun extend :: "nat \<Rightarrow> w32 list \<Rightarrow> w32 list" where
  "extend 0 ws = ws"
| "extend (Suc n) ws =
     extend n ((sigma1 (ws ! 1) + ws ! 6 + sigma0 (ws ! 14) + ws ! 15) # ws)"

fun rounds :: "(w32 \<times> w32) list \<Rightarrow> w32 list \<Rightarrow> w32 list" where
  "rounds [] st = st"
| "rounds ((k, w) # kws) st =
     (case st of
        [a, b, c, d, e, f, g, h] \<Rightarrow>
          let t1 = h + big_sigma1 e + ch e f g + k + w; t2 = big_sigma0 a + maj a b c in
          rounds kws [t1 + t2, a, b, c, d + t1, e, f, g]
      | _ \<Rightarrow> st)"

definition compress :: "w32 list \<Rightarrow> w32 list \<Rightarrow> w32 list" where
  "compress st block = map2 (+) st (rounds (zip k_table (rev (extend 48 (rev block)))) st)"

fun be_words :: "nat list \<Rightarrow> w32 list" where
  "be_words (a # b # c # d # bs) = of_nat (((a * 256 + b) * 256 + c) * 256 + d) # be_words bs"
| "be_words _ = []"

fun be_bytes :: "nat \<Rightarrow> nat \<Rightarrow> nat list" where
  "be_bytes 0 n = []"
| "be_bytes (Suc k) n = be_bytes k (n div 256) @ [n mod 256]"

definition pad_message :: "nat list \<Rightarrow> nat list" where
  "pad_message bs = bs @ [128] @ replicate ((119 - length bs mod 64) mod 64) 0 @ be_bytes 8 (8 * length bs)"

function blocks :: "w32 list \<Rightarrow> w32 list \<Rightarrow> w32 list" where
  "blocks st ws = (if ws = [] then st else blocks (compress st (take 16 ws)) (drop 16 ws))"
  by pat_completeness auto
termination by (relation "measure (\<lambda>(st, ws). length ws)") auto

declare blocks.simps [simp del]

definition sha256 :: "string \<Rightarrow> nat list" where
  "sha256 s =
     concat (map (\<lambda>w. be_bytes 4 (unat w)) (blocks h_init (be_words (pad_message (map of_char s)))))"

definition hex_byte :: "nat \<Rightarrow> string" where
  "hex_byte b =
     (let d = (\<lambda>n. if n < 10 then chr (48 + n) else chr (87 + n)) in [d (b div 16), d (b mod 16)])"

definition hex_encode :: "nat list \<Rightarrow> string" where
  "hex_encode bs = concat (map hex_byte bs)"

definition sha256_hex :: "string \<Rightarrow> string" where
  "sha256_hex s = hex_encode (sha256 s)"

lemma length_rounds [simp]: "length (rounds kws st) = length st"
  by (induction kws st rule: rounds.induct) (auto simp: Let_def split: list.splits)

lemma length_extend [simp]: "length (extend n ws) = n + length ws"
  by (induction n ws rule: extend.induct) simp_all

lemma length_compress [simp]: "length (compress st block) = length st"
  by (simp add: compress_def)

lemma length_blocks [simp]: "length (blocks st ws) = length st"
  by (induction st ws rule: blocks.induct) (subst blocks.simps, simp)

lemma length_be_bytes [simp]: "length (be_bytes k n) = k"
  by (induction k n rule: be_bytes.induct) simp_all

lemma length_concat_const: "(\<And>x. x \<in> set xs \<Longrightarrow> length (f x) = n) \<Longrightarrow> length (concat (map f xs)) = n * length xs"
  by (induction xs) simp_all

lemma length_sha256: "length (sha256 s) = 32"
  by (simp add: sha256_def length_concat_const [where n = 4] h_init_def)

text \<open>The digest always prints as 64 hexadecimal digits; in particular it is not empty.\<close>

lemma length_sha256_hex [simp]: "length (sha256_hex s) = 64"
  by (simp add: sha256_hex_def hex_encode_def length_concat_const [where n = 2] hex_byte_def Let_def
      length_sha256)

lemma sha256_hex_nonempty [simp]: "sha256_hex s \<noteq> []"
  using length_sha256_hex [of s] by (metis length_0_conv zero_neq_numeral)

end
