(* ===== verification/Condition_Tree.thy ===== *)
theory Condition_Tree
  imports Entities Go_Json Go_Sort Go_Sha256
begin

text \<open>
  The condition tree of a rule: the parent index that evaluation, validation and
  normalisation build, BuildLogicExpression and the hashes of condition_normalization.go,
  and condition_validation.go. Rendering recurses without a bound in Go; here it counts the
  levels and returns None when they exceed the number of conditions. A path that long meets
  some condition twice, so None is exactly the case in which the Go code never returns. With
  distinct condition ids it does not occur (\<open>build_logic_expression_total\<close>).
\<close>

section \<open>The parent index\<close>

definition parent_key :: "uuid_ops \<Rightarrow> rule_condition \<Rightarrow> string" where
  "parent_key U c = (case rc_parent_id c of None \<Rightarrow> [] | Some p \<Rightarrow> uuid_string U p)"

definition by_parent :: "uuid_ops \<Rightarrow> rule_condition list \<Rightarrow> (string, rule_condition list) gomap" where
  "by_parent U cs = group_by (parent_key U) cs"

definition sort_groups :: "('a \<Rightarrow> 'a \<Rightarrow> bool) \<Rightarrow> (string, 'a list) gomap \<Rightarrow> (string, 'a list) gomap" where
  "sort_groups lt m = map (\<lambda>(k, xs). (k, sort_slice lt xs)) m"

definition seq_lt :: "rule_condition \<Rightarrow> rule_condition \<Rightarrow> bool" where
  "seq_lt a b = (rc_sequence a < rc_sequence b)"

definition seq_id_lt :: "uuid_ops \<Rightarrow> rule_condition \<Rightarrow> rule_condition \<Rightarrow> bool" where
  "seq_id_lt U a b =
     (if rc_sequence a \<noteq> rc_sequence b then rc_sequence a < rc_sequence b
      else str_lt (uuid_string U (bm_id a)) (uuid_string U (bm_id b)))"

definition children_of :: "uuid_ops \<Rightarrow> (string, rule_condition list) gomap \<Rightarrow> rule_condition \<Rightarrow> rule_condition list" where
  "children_of U bp c = gm_slice bp (uuid_string U (bm_id c))"

interpretation seq: strict_weak seq_lt
  by unfold_locales (auto simp: seq_lt_def)

interpretation seq_id: strict_weak "seq_id_lt U" for U
proof
  show "seq_id_lt U a b \<Longrightarrow> seq_id_lt U b c \<Longrightarrow> seq_id_lt U a c" for a b c
    using str_lt_trans by (auto simp: seq_id_lt_def split: if_splits)
  show "\<not> seq_id_lt U a b \<Longrightarrow> \<not> seq_id_lt U b c \<Longrightarrow> \<not> seq_id_lt U a c" for a b c
    using str_lt_incomp by (auto simp: seq_id_lt_def split: if_splits)
qed (simp add: seq_id_lt_def)

lemma gm_slice_sort_groups [simp]: "gm_slice (sort_groups lt m) k = sort_slice lt (gm_slice m k)"
  by (induction m) (auto simp: sort_groups_def gm_slice_def gm_get_def)

lemma gm_slice_by_parent [simp]: "gm_slice (by_parent U cs) k = filter (\<lambda>c. parent_key U c = k) cs"
  by (simp add: by_parent_def)

section \<open>Canonical strings\<close>

definition forward_connector :: "string option \<Rightarrow> string" where
  "forward_connector op = (case op of None \<Rightarrow> ''AND'' | Some c \<Rightarrow> c)"

definition child_connector_of :: "string option \<Rightarrow> string" where
  "child_connector_of op = (case op of None \<Rightarrow> ''AND'' | Some c \<Rightarrow> c)"

text \<open>The parts of a sibling chain: each node's text, with the connectors in between.\<close>

fun chain_parts :: "(rule_condition \<times> string) list \<Rightarrow> string list" where
  "chain_parts [] = []"
| "chain_parts [(c, s)] = [s]"
| "chain_parts ((c, s) # x # xs) = s # forward_connector (rc_connector c) # chain_parts (x # xs)"

text \<open>buildCanonicalString and buildValueCanonicalString, given how a node is rendered.\<close>

definition chain_text :: "(rule_condition \<Rightarrow> string option) \<Rightarrow> rule_condition list \<Rightarrow> string option" where
  "chain_text node siblings =
     (case all_some (map node siblings) of
        None \<Rightarrow> None
      | Some ss \<Rightarrow> Some (join '' '' (chain_parts (zip siblings ss))))"

text \<open>
  renderCanonicalNode and renderValueCanonicalNode, given how an own check is printed; the
  number bounds the levels below the node.
\<close>

fun render_node :: "uuid_ops \<Rightarrow> (rule_condition \<Rightarrow> uuid \<Rightarrow> string)
    \<Rightarrow> (string, rule_condition list) gomap \<Rightarrow> nat \<Rightarrow> rule_condition \<Rightarrow> string option" where
  "render_node U leaf bp 0 c = None"
| "render_node U leaf bp (Suc n) c =
     (let children = children_of U bp c in
      if children = [] then
        (case rc_attribute_id c of None \<Rightarrow> Some ''()'' | Some a \<Rightarrow> Some (leaf c a))
      else
        (case chain_text (render_node U leaf bp n) children of
           None \<Rightarrow> None
         | Some s \<Rightarrow>
             (let children_str = ''('' @ s @ '')'' in
              case rc_attribute_id c of
                None \<Rightarrow> Some children_str
              | Some a \<Rightarrow>
                  Some (leaf c a @ '' '' @ child_connector_of (rc_child_connector c) @ '' '' @ children_str))))"

definition plain_leaf :: "uuid_ops \<Rightarrow> rule_condition \<Rightarrow> uuid \<Rightarrow> string" where
  "plain_leaf U c a = uuid_string U a @ '' '' @ rc_operator c"

text \<open>The expected value in its canonical JSON form, null when it is missing or malformed.\<close>

definition value_leaf :: "uuid_ops \<Rightarrow> (string \<rightharpoonup> raw_json) \<Rightarrow> rule_condition \<Rightarrow> uuid \<Rightarrow> string" where
  "value_leaf U expected c a =
     (let val_str =
        (case expected (uuid_string U a) of
           None \<Rightarrow> ''null''
         | Some raw \<Rightarrow> (case compact_json raw of None \<Rightarrow> ''null'' | Some s \<Rightarrow> s)) in
      uuid_string U a @ '' '' @ rc_operator c @ '' '' @ val_str)"

definition canonical_of :: "uuid_ops \<Rightarrow> (rule_condition \<Rightarrow> uuid \<Rightarrow> string) \<Rightarrow> rule_condition list \<Rightarrow> string option" where
  "canonical_of U leaf cs =
     (let bp = sort_groups (seq_id_lt U) (by_parent U cs); roots = gm_slice bp [] in
      if roots = [] then Some []
      else chain_text (render_node U leaf bp (length cs)) roots)"

text \<open>
  GenerateConditionHash; the canonical string of a non-empty chain is never empty, so the
  empty string stands for the early returns.
\<close>

definition generate_condition_hash :: "uuid_ops \<Rightarrow> rule_condition list \<Rightarrow> string option" where
  "generate_condition_hash U cs =
     (if cs = [] then Some []
      else if gm_slice (by_parent U cs) [] = [] then Some []
      else map_option sha256_hex (canonical_of U (plain_leaf U) cs))"

definition build_logic_expression :: "uuid_ops \<Rightarrow> rule_condition list \<Rightarrow> (string \<rightharpoonup> raw_json) \<Rightarrow> string option" where
  "build_logic_expression U cs expected =
     (if cs = [] then Some [] else canonical_of U (value_leaf U expected) cs)"

definition generate_logic_hash :: "uuid_ops \<Rightarrow> rule_condition list \<Rightarrow> (string \<rightharpoonup> raw_json) \<Rightarrow> string option" where
  "generate_logic_hash U cs expected =
     map_option (\<lambda>expr. if expr = [] then [] else sha256_hex expr) (build_logic_expression U cs expected)"

section \<open>Validation\<close>

datatype tree_error = NeedsChildConnector uuid | LastHasConnector uuid | NeedsConnector uuid

text \<open>The loop over a sorted chain.\<close>

fun check_links :: "rule_condition list \<Rightarrow> tree_error option" where
  "check_links [] = None"
| "check_links [c] = (if rc_connector c \<noteq> None then Some (LastHasConnector (bm_id c)) else None)"
| "check_links (c # d # cs) =
     (if rc_connector c = None then Some (NeedsConnector (bm_id c)) else check_links (d # cs))"

definition validate_sibling_chain :: "rule_condition list \<Rightarrow> tree_error option" where
  "validate_sibling_chain siblings =
     (if length siblings < 2 then
        (case siblings of
           [c] \<Rightarrow> if rc_connector c \<noteq> None then Some (LastHasConnector (bm_id c)) else None
         | _ \<Rightarrow> None)
      else check_links (sort_slice seq_lt siblings))"

text \<open>parentByID: of conditions with the same id the last one counts.\<close>

definition parent_by_id :: "uuid_ops \<Rightarrow> rule_condition list \<Rightarrow> string \<rightharpoonup> rule_condition" where
  "parent_by_id U cs = foldl (\<lambda>m c. m(uuid_string U (bm_id c) \<mapsto> c)) Map.empty cs"

definition check_own_connector :: "(string \<rightharpoonup> rule_condition) \<Rightarrow> string \<Rightarrow> rule_condition list \<Rightarrow> tree_error option" where
  "check_own_connector pm k children =
     (if k = [] \<or> children = [] then None
      else
        (case pm k of
           None \<Rightarrow> None
         | Some p \<Rightarrow>
             if rc_attribute_id p \<noteq> None \<and> rc_child_connector p = None
             then Some (NeedsChildConnector (bm_id p)) else None))"

text \<open>
  The first violation, with the expression conditionTreeValidationError appends to its
  message. None means that rendering the message does not return.
\<close>

definition find_violation :: "uuid_ops \<Rightarrow> rule_condition list \<Rightarrow> tree_error option" where
  "find_violation U cs =
     (let bp = by_parent U cs; pm = parent_by_id U cs in
      case first_error (\<lambda>(k, children). check_own_connector pm k children) bp of
        Some e \<Rightarrow> Some e
      | None \<Rightarrow> first_error (\<lambda>(_, siblings). validate_sibling_chain siblings) bp)"

definition validate_condition_tree ::
  "uuid_ops \<Rightarrow> rule_condition list \<Rightarrow> (string \<rightharpoonup> raw_json) \<Rightarrow> (tree_error \<times> string, unit) go_result option" where
  "validate_condition_tree U cs expected =
     (if cs = [] then Some (Inr ())
      else
        (case find_violation U cs of
           None \<Rightarrow> Some (Inr ())
         | Some e \<Rightarrow> map_option (\<lambda>expr. Inl (e, expr)) (build_logic_expression U cs expected)))"

section \<open>Rendering terminates\<close>

text \<open>A path from a condition up to a root.\<close>

fun up_chain :: "rule_condition list \<Rightarrow> bool" where
  "up_chain [] = False"
| "up_chain [r] = (rc_parent_id r = None)"
| "up_chain (d # c # ps) = (rc_parent_id d = Some (bm_id c) \<and> up_chain (c # ps))"

lemma up_chain_Cons: "up_chain (d # p) \<Longrightarrow> p = [] \<or> up_chain p"
  by (cases p) auto

lemma up_chain_drop: "up_chain (xs @ d # p) \<Longrightarrow> up_chain (d # p)"
  by (induction xs) (auto dest: up_chain_Cons)

lemma up_chain_unique:
  assumes "inj_on bm_id (set cs)"
    and "up_chain (d # p)" and "up_chain (d # q)"
    and "set p \<subseteq> set cs" and "set q \<subseteq> set cs"
  shows "p = q"
  using assms(2-)
proof (induction p arbitrary: d q)
  case Nil
  then show ?case by (cases q) auto
next
  case (Cons c p)
  then obtain e q' where q: "q = e # q'" by (cases q) auto
  with Cons.prems have "bm_id e = bm_id c" by auto
  with assms(1) Cons.prems q have "e = c" by (auto dest: inj_onD)
  with Cons q show ?case by auto
qed

lemma up_chain_distinct:
  assumes "inj_on bm_id (set cs)" and "up_chain p" and "set p \<subseteq> set cs"
  shows "distinct p"
  using assms(2,3)
proof (induction p)
  case (Cons d p)
  have "d \<notin> set p"
  proof
    assume "d \<in> set p"
    then obtain xs q where p: "p = xs @ d # q" by (meson split_list)
    with Cons.prems have "up_chain (d # q)" by (metis append_Cons up_chain_drop)
    from up_chain_unique [OF assms(1) Cons.prems(1) this] Cons.prems p have "p = q" by simp
    moreover from p have "length p = length xs + Suc (length q)" by simp
    ultimately show False by simp
  qed
  with Cons up_chain_Cons [of d p] show ?case by auto
qed simp

lemma chain_text_None: "chain_text f cs = None \<longleftrightarrow> (\<exists>c \<in> set cs. f c = None)"
proof -
  have "chain_text f cs = None \<longleftrightarrow> all_some (map f cs) = None"
    by (simp add: chain_text_def split: option.splits)
  then show ?thesis unfolding all_some_None by (simp add: image_iff) metis
qed

context uuid_laws
begin

lemma parent_key_id [simp]: "parent_key U c = uuid_string U i \<longleftrightarrow> rc_parent_id c = Some i"
  using string_nonempty [of i] by (auto simp: parent_key_def split: option.splits)

lemma parent_key_root [simp]: "parent_key U c = [] \<longleftrightarrow> rc_parent_id c = None"
  using string_nonempty by (auto simp: parent_key_def split: option.splits)

lemma set_children:
  "set (children_of U (sort_groups lt (by_parent U cs)) c) = {d \<in> set cs. rc_parent_id d = Some (bm_id c)}"
  by (auto simp: children_of_def)

lemma render_node_terminates:
  assumes "inj_on bm_id (set cs)" and "distinct cs"
    and "up_chain (c # p)" and "set (c # p) \<subseteq> set cs" and "length cs \<le> n + length p"
  shows "render_node U leaf (sort_groups (seq_id_lt U) (by_parent U cs)) n c \<noteq> None"
  using assms(3-)
proof (induction n arbitrary: c p)
  case 0
  then have "length (c # p) \<le> length cs"
    using up_chain_distinct [OF assms(1)] by (metis card_mono distinct_card card_length finite_set le_trans)
  with 0 show ?case by simp
next
  case (Suc n)
  have "render_node U leaf (sort_groups (seq_id_lt U) (by_parent U cs)) n d \<noteq> None"
    if "d \<in> set (children_of U (sort_groups (seq_id_lt U) (by_parent U cs)) c)" for d
    using that Suc.prems by (intro Suc.IH [of d "c # p"]) (auto simp: set_children)
  then have "chain_text (render_node U leaf (sort_groups (seq_id_lt U) (by_parent U cs)) n)
      (children_of U (sort_groups (seq_id_lt U) (by_parent U cs)) c) \<noteq> None"
    by (simp only: chain_text_None) blast
  then show ?case
    by (auto simp: Let_def split: option.splits)
qed

lemma canonical_of_total:
  assumes "distinct (map bm_id cs)"
  shows "canonical_of U leaf cs \<noteq> None"
proof -
  have inj: "inj_on bm_id (set cs)" "distinct cs" using assms by (simp_all add: distinct_map)
  have "render_node U leaf (sort_groups (seq_id_lt U) (by_parent U cs)) (length cs) r \<noteq> None"
    if "r \<in> set cs" "rc_parent_id r = None" for r
    using that by (intro render_node_terminates [OF inj, of r "[]"]) auto
  then have "chain_text (render_node U leaf (sort_groups (seq_id_lt U) (by_parent U cs)) (length cs))
      (sort_slice (seq_id_lt U) (filter (\<lambda>c. rc_parent_id c = None) cs)) \<noteq> None"
    unfolding chain_text_None by auto
  then show ?thesis by (simp add: canonical_of_def Let_def)
qed

text \<open>The text does not depend on the order in which the conditions are loaded.\<close>

lemma children_perm:
  assumes "mset cs = mset cs'" and "inj_on bm_id (set cs)"
  shows "sort_slice (seq_id_lt U) (filter P cs) = sort_slice (seq_id_lt U) (filter P cs')"
proof (rule seq_id.by_insertion.srt_cong_mset)
  show "mset (filter P cs) = mset (filter P cs')" using assms(1) by simp
  fix a b assume ab: "a \<in> set (filter P cs)" "b \<in> set (filter P cs)"
    and inc: "\<not> seq_id_lt U a b" "\<not> seq_id_lt U b a"
  then have "bm_id a = bm_id b"
    using str_lt_total [of "uuid_string U (bm_id a)" "uuid_string U (bm_id b)"]
    by (auto simp: seq_id_lt_def split: if_splits)
  with assms(2) ab show "a = b" by (auto dest: inj_onD)
qed

end

lemma render_node_cong:
  assumes "\<And>c. children_of U bp c = children_of U bp' c"
  shows "render_node U leaf bp n c = render_node U leaf bp' n c"
proof (induction n arbitrary: c)
  case (Suc n)
  then have "render_node U leaf bp n = render_node U leaf bp' n" by blast
  then show ?case unfolding render_node.simps by (simp only: assms)
qed simp

section \<open>Validation\<close>

text \<open>All but the last sibling carry a connector, the last one carries none.\<close>

definition well_linked :: "rule_condition list \<Rightarrow> bool" where
  "well_linked cs =
     (cs = [] \<or> rc_connector (last cs) = None \<and> list_all (\<lambda>c. rc_connector c \<noteq> None) (butlast cs))"

lemma check_links_None: "check_links cs = None \<longleftrightarrow> well_linked cs"
  by (induction cs rule: check_links.induct) (auto simp: well_linked_def)

lemma validate_sibling_chain_None:
  "validate_sibling_chain cs = None \<longleftrightarrow> well_linked (sort_slice seq_lt cs)"
proof (cases "length cs < 2")
  case True
  then consider "cs = []" | c where "cs = [c]"
    by (metis One_nat_def length_0_conv length_Suc_conv less_2_cases)
  then show ?thesis by cases (auto simp: validate_sibling_chain_def well_linked_def)
next
  case False
  then show ?thesis by (simp add: validate_sibling_chain_def check_links_None)
qed

lemma parent_by_id_eq:
  "parent_by_id U cs = map_of (rev (map (\<lambda>c. (uuid_string U (bm_id c), c)) cs))"
proof -
  have "foldl (\<lambda>m c. m(uuid_string U (bm_id c) \<mapsto> c)) m cs
      = m ++ map_of (rev (map (\<lambda>c. (uuid_string U (bm_id c), c)) cs))" for m
    by (induction cs arbitrary: m) (simp_all add: map_add_def fun_eq_iff split: option.splits)
  then show ?thesis by (simp add: parent_by_id_def)
qed

context uuid_laws
begin

lemma canonical_of_perm:
  assumes "mset cs = mset cs'" and "distinct (map bm_id cs)"
  shows "canonical_of U leaf cs = canonical_of U leaf cs'"
proof -
  have inj: "inj_on bm_id (set cs)" using assms(2) by (simp add: distinct_map)
  have len: "length cs = length cs'" using assms(1) by (rule mset_eq_length)
  have "render_node U leaf (sort_groups (seq_id_lt U) (by_parent U cs)) n
      = render_node U leaf (sort_groups (seq_id_lt U) (by_parent U cs')) n" for n
    by (intro ext render_node_cong) (simp add: children_of_def children_perm [OF assms(1) inj])
  then show ?thesis
    by (simp add: canonical_of_def Let_def children_perm [OF assms(1) inj] len)
qed

lemma parent_by_id_mem:
  assumes "distinct (map bm_id cs)"
  shows "parent_by_id U cs (uuid_string U i) = Some c \<longleftrightarrow> c \<in> set cs \<and> bm_id c = i"
proof -
  have "distinct (map (uuid_string U \<circ> bm_id) cs)"
    using assms by (simp add: distinct_map comp_inj_on inj_on_subset [OF inj_string])
  then show ?thesis
    by (auto simp: parent_by_id_eq map_of_eq_Some_iff comp_def rev_map [symmetric] distinct_rev)
qed

lemma set_by_parent:
  "(k, ys) \<in> set (by_parent U cs) \<longleftrightarrow>
     (\<exists>d \<in> set cs. parent_key U d = k) \<and> ys = filter (\<lambda>c. parent_key U c = k) cs"
  by (auto simp: by_parent_def set_group_by)

lemma check_own_parent:
  assumes "distinct (map bm_id cs)" and "c \<in> set cs" and "d \<in> set cs" and "rc_parent_id d = Some (bm_id c)"
  shows "check_own_connector (parent_by_id U cs) (uuid_string U (bm_id c))
      (filter (\<lambda>x. parent_key U x = uuid_string U (bm_id c)) cs) = None
    \<longleftrightarrow> rc_attribute_id c = None \<or> rc_child_connector c \<noteq> None"
proof -
  have "parent_by_id U cs (uuid_string U (bm_id c)) = Some c"
    using parent_by_id_mem [OF assms(1)] assms(2) by blast
  moreover have "filter (\<lambda>x. rc_parent_id x = Some (bm_id c)) cs \<noteq> []"
    using assms(3,4) by (auto simp: filter_empty_conv)
  ultimately show ?thesis
    by (simp add: check_own_connector_def string_nonempty)
qed

lemma own_connectors:
  assumes "distinct (map bm_id cs)"
  shows "(\<forall>(k, ys) \<in> set (by_parent U cs). check_own_connector (parent_by_id U cs) k ys = None)
    \<longleftrightarrow> (\<forall>c \<in> set cs. rc_attribute_id c \<noteq> None \<and> (\<exists>d \<in> set cs. rc_parent_id d = Some (bm_id c))
           \<longrightarrow> rc_child_connector c \<noteq> None)" (is "?L \<longleftrightarrow> ?R")
proof
  assume L: ?L
  show ?R
  proof (intro ballI impI)
    fix c assume c: "c \<in> set cs" "rc_attribute_id c \<noteq> None \<and> (\<exists>d \<in> set cs. rc_parent_id d = Some (bm_id c))"
    then obtain d where d: "d \<in> set cs" "rc_parent_id d = Some (bm_id c)" by blast
    let ?k = "uuid_string U (bm_id c)"
    have "(?k, filter (\<lambda>x. parent_key U x = ?k) cs) \<in> set (by_parent U cs)"
      using d by (auto simp: set_by_parent)
    with L have "check_own_connector (parent_by_id U cs) ?k (filter (\<lambda>x. parent_key U x = ?k) cs) = None"
      by blast
    with check_own_parent [OF assms c(1) d] c show "rc_child_connector c \<noteq> None" by simp
  qed
next
  assume R: ?R
  have "check_own_connector (parent_by_id U cs) k ys = None" if "(k, ys) \<in> set (by_parent U cs)" for k ys
  proof -
    from that obtain d where d: "d \<in> set cs" and k: "parent_key U d = k"
      and ys: "ys = filter (\<lambda>c. parent_key U c = k) cs" by (auto simp: set_by_parent)
    show ?thesis
    proof (cases "rc_parent_id d")
      case None
      with k show ?thesis by (simp add: parent_key_def check_own_connector_def)
    next
      case (Some i)
      with k have ki: "k = uuid_string U i" by (simp add: parent_key_def)
      show ?thesis
      proof (cases "parent_by_id U cs k")
        case p: (Some p)
        with ki parent_by_id_mem [OF assms] have "p \<in> set cs" "bm_id p = i" by blast+
        with R d Some show ?thesis by (auto simp: check_own_connector_def p)
      qed (simp add: check_own_connector_def)
    qed
  qed
  then show ?L by blast
qed

lemma linked_chains:
  "(\<forall>(k, ys) \<in> set (by_parent U cs). validate_sibling_chain ys = None)
     \<longleftrightarrow> (\<forall>p. well_linked (sort_slice seq_lt (filter (\<lambda>c. rc_parent_id c = p) cs)))" (is "?L \<longleftrightarrow> ?R")
proof
  assume L: ?L
  show ?R
  proof
    fix p
    show "well_linked (sort_slice seq_lt (filter (\<lambda>c. rc_parent_id c = p) cs))"
    proof (cases "\<exists>d \<in> set cs. rc_parent_id d = p")
      case True
      then obtain d where d: "d \<in> set cs" "rc_parent_id d = p" by blast
      have eq: "parent_key U c = parent_key U d \<longleftrightarrow> rc_parent_id c = p" for c
        using d(2) by (cases p) (simp_all add: parent_key_def [of U d])
      have "(parent_key U d, filter (\<lambda>c. rc_parent_id c = p) cs) \<in> set (by_parent U cs)"
        using d by (auto simp: set_by_parent eq)
      with L show ?thesis by (auto simp: validate_sibling_chain_None)
    next
      case False
      then have "filter (\<lambda>c. rc_parent_id c = p) cs = []" by (auto simp: filter_empty_conv)
      then show ?thesis by (simp add: well_linked_def)
    qed
  qed
next
  assume R: ?R
  have "validate_sibling_chain ys = None" if "(k, ys) \<in> set (by_parent U cs)" for k ys
  proof -
    from that obtain d where d: "parent_key U d = k" and ys: "ys = filter (\<lambda>c. parent_key U c = k) cs"
      by (auto simp: set_by_parent)
    have "parent_key U c = k \<longleftrightarrow> rc_parent_id c = rc_parent_id d" for c
      using d by (cases "rc_parent_id d") (auto simp: parent_key_def [of U d])
    with R ys show ?thesis by (simp add: validate_sibling_chain_None)
  qed
  then show ?L by blast
qed

lemma find_violation_None:
  assumes "distinct (map bm_id cs)"
  shows "find_violation U cs = None \<longleftrightarrow>
    (\<forall>c \<in> set cs. rc_attribute_id c \<noteq> None \<and> (\<exists>d \<in> set cs. rc_parent_id d = Some (bm_id c))
        \<longrightarrow> rc_child_connector c \<noteq> None)
    \<and> (\<forall>p. well_linked (sort_slice seq_lt (filter (\<lambda>c. rc_parent_id c = p) cs)))"
proof -
  have "find_violation U cs = None \<longleftrightarrow>
      first_error (\<lambda>(k, ys). check_own_connector (parent_by_id U cs) k ys) (by_parent U cs) = None
      \<and> first_error (\<lambda>(k, ys). validate_sibling_chain ys) (by_parent U cs) = None"
    by (simp add: find_violation_def Let_def split: option.splits)
  then show ?thesis
    using own_connectors [OF assms] linked_chains by (simp add: first_error_None split_beta)
qed

end

end
