(* ===== verification/Condition_Eval.thy ===== *)
theory Condition_Eval
  imports Condition_Compare Condition_Tree
begin

text \<open>
  Evaluation of a condition tree (condition_evaluator.go): evalSiblings, evalNode,
  evaluateConditionGroup, the conversion from the stored DTO and EvaluateLogicConditions.
\<close>

section \<open>The evaluator\<close>

definition max_condition_depth :: nat where "max_condition_depth = 4"

definition connector_value :: "string option \<Rightarrow> string" where
  "connector_value p = (case p of None \<Rightarrow> [] | Some c \<Rightarrow> c)"

text \<open>
  The loop of evalSiblings carries the previous sibling, the disjunction of the completed
  runs and the current run. An empty chain, on which Go would panic, is never evaluated.
\<close>

function (sequential)
    eval_siblings :: "uuid_ops \<Rightarrow> (string, rule_condition list) gomap \<Rightarrow> rule_condition list \<Rightarrow> nat \<Rightarrow> eval_res ev"
and eval_loop :: "uuid_ops \<Rightarrow> (string, rule_condition list) gomap \<Rightarrow> rule_condition \<Rightarrow> bool \<Rightarrow> bool
      \<Rightarrow> rule_condition list \<Rightarrow> nat \<Rightarrow> eval_res ev"
and eval_node :: "uuid_ops \<Rightarrow> (string, rule_condition list) gomap \<Rightarrow> rule_condition \<Rightarrow> nat \<Rightarrow> eval_res ev"
where
  "eval_siblings U bp [] depth = ret (Inr False)"
| "eval_siblings U bp (c # cs) depth =
     do { r \<leftarrow> eval_node U bp c depth;
          (case r of
             Inl e \<Rightarrow> ret (Inl e)
           | Inr result \<Rightarrow> eval_loop U bp c False result cs depth) }"
| "eval_loop U bp prev acc_or result [] depth = ret (Inr (acc_or \<or> result))"
| "eval_loop U bp prev acc_or result (c # cs) depth =
     do { r \<leftarrow> eval_node U bp c depth;
          (case r of
             Inl e \<Rightarrow> ret (Inl e)
           | Inr nxt \<Rightarrow>
               if connector_value (rc_connector prev) = conn_or
               then eval_loop U bp c (acc_or \<or> result) nxt cs depth
               else eval_loop U bp c acc_or (result \<and> nxt) cs depth) }"
| "eval_node U bp c depth =
     (let children = (if depth < max_condition_depth then children_of U bp c else []) in
      if children = [] then
        (case rc_attribute_id c of
           None \<Rightarrow> ret (Inr True)
         | Some a \<Rightarrow> evaluate_single U c a)
      else
        do { cr \<leftarrow> eval_siblings U bp children (depth + 1);
             (case cr of
                Inl e \<Rightarrow> ret (Inl e)
              | Inr children_result \<Rightarrow>
                  (case rc_attribute_id c of
                     None \<Rightarrow> ret (Inr children_result)
                   | Some a \<Rightarrow>
                       do { own \<leftarrow> evaluate_single U c a;
                            ret (case own of
                                   Inl e \<Rightarrow> Inl e
                                 | Inr own_result \<Rightarrow>
                                     if connector_value (rc_child_connector c) = conn_or
                                     then Inr (own_result \<or> children_result)
                                     else Inr (own_result \<and> children_result)) })) })"
  by pat_completeness auto

termination
proof (relation "measures [\<lambda>x. max_condition_depth -
      (case x of Inl (_, _, _, d) \<Rightarrow> d | Inr (Inl (_, _, _, _, _, _, d)) \<Rightarrow> d | Inr (Inr (_, _, _, d)) \<Rightarrow> d),
    \<lambda>x. case x of Inl (_, _, cs, _) \<Rightarrow> Suc (length cs) | Inr (Inl (_, _, _, _, _, cs, _)) \<Rightarrow> Suc (length cs)
      | Inr (Inr _) \<Rightarrow> 0]")
qed (auto split: if_splits)

definition evaluate_condition_group :: "uuid_ops \<Rightarrow> rule_condition list \<Rightarrow> eval_res ev" where
  "evaluate_condition_group U cs =
     (let bp = sort_groups seq_lt (by_parent U cs); roots = gm_slice bp [] in
      if roots = [] then ret (Inr True) else eval_siblings U bp roots 1)"

section \<open>From the stored conditions\<close>

definition must_parse_uuid_ptr :: "uuid_ops \<Rightarrow> string \<Rightarrow> uuid option" where
  "must_parse_uuid_ptr U s =
     (if s = [] then None
      else (case uuid_parse U s of (i, ok) \<Rightarrow> if \<not> ok \<or> i = uuid_nil then None else Some i))"

definition logic_condition_to_rule_condition :: "uuid_ops \<Rightarrow> logic_condition \<Rightarrow> rule_condition" where
  "logic_condition_to_rule_condition U lc =
     zero_rule_condition
       \<lparr>bm_id := fst (uuid_parse U (lc_id lc)),
        rc_attribute_id := must_parse_uuid_ptr U (lc_attribute_id lc),
        rc_sequence := lc_sequence lc,
        rc_operator := lc_operator lc,
        rc_attribute := Some (zero_attribute\<lparr>at_data_type := lc_data_type lc\<rparr>),
        rc_connector := (if lc_connector lc = [] then None else Some (lc_connector lc)),
        rc_child_connector := (if lc_child_connector lc = [] then None else Some (lc_child_connector lc)),
        rc_parent_id := (if lc_parent_id lc = [] then None else Some (fst (uuid_parse U (lc_parent_id lc))))\<rparr>"

text \<open>Only expected values that are neither empty nor the literal null are stamped.\<close>

definition stamp_expected :: "logic_condition list \<Rightarrow> string \<rightharpoonup> raw_json" where
  "stamp_expected conditions =
     foldl (\<lambda>m lc. if lc_expected lc \<noteq> [] \<and> lc_expected lc \<noteq> ''null''
                   then m(lc_attribute_id lc \<mapsto> lc_expected lc) else m) Map.empty conditions"

text \<open>
  EvaluateLogicConditions. The user attributes are None for a nil map; the outer None is
  unbounded recursion while a validation error is rendered.
\<close>

definition evaluate_logic_conditions ::
  "uuid_ops \<Rightarrow> logic_condition list \<Rightarrow> (string \<rightharpoonup> raw_json) option \<Rightarrow> eval_res option" where
  "evaluate_logic_conditions U conditions attrs =
     (if conditions = [] then Some (Inr True)
      else
        let rcs = map (logic_condition_to_rule_condition U) conditions;
            expected = stamp_expected conditions in
        (case validate_condition_tree U rcs expected of
           None \<Rightarrow> None
         | Some (Inl _) \<Rightarrow> Some (Inr False)
         | Some (Inr _) \<Rightarrow>
             Some (fst (run_state (evaluate_condition_group U rcs)
                          \<lparr>es_exp = new_parsed (Some expected), es_usr = new_parsed attrs\<rparr>))))"

declare eval_node.simps [simp del]

end
