(* ===== verification/Condition_Spec.thy ===== *)
theory Condition_Spec
  imports Condition_Eval
begin

text \<open>
  What evaluating a condition tree means: a function without caches that parses every value
  where it is needed, reads a sibling chain as a disjunction of conjunctions and stops at the
  first error. The second half proves that the evaluator, with its lazy caches and its
  single loop over a chain, computes exactly this.
\<close>

section \<open>The specification\<close>

type_synonym attrs = "(string \<rightharpoonup> raw_json) option"

definition spec_text :: "string \<Rightarrow> string \<Rightarrow> string \<Rightarrow> attrs \<Rightarrow> eval_res" where
  "spec_text op actual0 k E =
     (let actual = trim_space actual0;
          (e, e_ok) = raw_read raw_str [] E k;
          (es, es_ok) = raw_read raw_strs [] E k;
          member = list_ex (\<lambda>x. equal_fold (trim_space x) actual) es in
      if op = op_eq then (if e_ok then Inr (equal_fold actual (trim_space e)) else Inl (BadExpected dt_text k))
      else if op = op_neq then (if e_ok then Inr (\<not> equal_fold actual (trim_space e)) else Inl (BadExpected dt_text k))
      else if op = op_in then (if es_ok then Inr member else Inl (BadExpected dt_text k))
      else if op = op_nin then (if es_ok then Inr (\<not> member) else Inl (BadExpected dt_text k))
      else if op = op_contains then
        (if e_ok then Inr (contains (to_lower actual) (to_lower (trim_space e))) else Inl (BadExpected dt_text k))
      else Inl (BadOperator op dt_text))"

definition spec_number :: "string \<Rightarrow> f64 \<Rightarrow> string \<Rightarrow> attrs \<Rightarrow> eval_res" where
  "spec_number op actual k E =
     (let (e, e_ok) = raw_read raw_num f64_zero E k; (es, es_ok) = raw_read raw_nums [] E k in
      if is_order_op op then (if e_ok then Inr (num_test op actual e) else Inl (BadExpected dt_number k))
      else if op = op_in then (if es_ok then Inr (list_ex (f64_eq actual) es) else Inl (BadExpected dt_number k))
      else if op = op_between then
        (if \<not> es_ok then Inl (BadExpected dt_number k)
         else if length es \<noteq> 2 then Inl (BadBounds (length es) k)
         else Inr (f64_le (es ! 0) actual \<and> f64_le actual (es ! 1)))
      else Inl (BadOperator op dt_number))"

definition spec_date :: "string \<Rightarrow> gotime \<Rightarrow> string \<Rightarrow> attrs \<Rightarrow> eval_res" where
  "spec_date op actual k E =
     (let (e, e_ok) = raw_read raw_date zero_time E k;
          ((lo, hi), b_ok) = raw_read raw_bounds (zero_time, zero_time) E k in
      if is_order_op op then (if e_ok then Inr (date_test op actual e) else Inl (BadExpected dt_date k))
      else if op = op_between then
        (if b_ok then Inr (tm_ns lo \<le> tm_ns actual \<and> tm_ns actual \<le> tm_ns hi)
         else Inl (BadExpected dt_date k))
      else Inl (BadOperator op dt_date))"

definition spec_boolean :: "string \<Rightarrow> bool \<Rightarrow> string \<Rightarrow> attrs \<Rightarrow> eval_res" where
  "spec_boolean op actual k E =
     (let (e, e_ok) = raw_read raw_bool False E k in
      if \<not> e_ok then Inl (BadExpected dt_boolean k)
      else if op = op_eq then Inr (actual = e)
      else if op = op_neq then Inr (actual \<noteq> e)
      else Inl (BadOperator op dt_boolean))"

text \<open>The test of a data type on the actual value, or an error when that cannot be read.\<close>

definition on_actual :: "string \<Rightarrow> string \<Rightarrow> 'a \<times> bool \<Rightarrow> ('a \<Rightarrow> eval_res) \<Rightarrow> eval_res" where
  "on_actual dt k r test = (if snd r then test (fst r) else Inl (BadActual dt k))"

definition spec_compare :: "string \<Rightarrow> string \<Rightarrow> string \<Rightarrow> attrs \<Rightarrow> attrs \<Rightarrow> eval_res" where
  "spec_compare dt op k E P =
     (if dt = dt_text then on_actual dt k (raw_read raw_str [] P k) (\<lambda>a. spec_text op a k E)
      else if dt = dt_number then on_actual dt k (raw_read raw_num f64_zero P k) (\<lambda>a. spec_number op a k E)
      else if dt = dt_date then on_actual dt k (raw_read raw_date zero_time P k) (\<lambda>a. spec_date op a k E)
      else if dt = dt_boolean then on_actual dt k (raw_read raw_bool False P k) (\<lambda>a. spec_boolean op a k E)
      else Inl (BadDataType dt))"

definition attr_value :: "attrs \<Rightarrow> string \<Rightarrow> raw_json option" where
  "attr_value P k = Option.bind P (\<lambda>m. m k)"

definition attr_null :: "attrs \<Rightarrow> string \<Rightarrow> bool" where
  "attr_null P k =
     (case attr_value P k of None \<Rightarrow> True | Some raw \<Rightarrow> raw = [] \<or> trim_space raw = ''null'')"

text \<open>Membership of a caret list: an operator other than the four list ones never matches.\<close>

definition list_match :: "string \<Rightarrow> bool \<times> bool \<Rightarrow> bool" where
  "list_match op r =
     (snd r \<and> (if op = op_eq \<or> op = op_in then fst r
               else if op = op_neq \<or> op = op_nin then \<not> fst r else False))"

definition spec_sentinel :: "string \<Rightarrow> string \<Rightarrow> raw_json \<Rightarrow> string \<Rightarrow> attrs \<Rightarrow> bool option" where
  "spec_sentinel dt op expected k P =
     (if dt \<noteq> dt_text \<and> dt \<noteq> dt_number then None
      else
        (case extract_sentinel expected of
           SentinelNone \<Rightarrow> None
         | SentinelAny \<Rightarrow> Some True
         | SentinelNull \<Rightarrow>
             Some (if op = op_eq then attr_null P k else if op = op_neq then \<not> attr_null P k else False)
         | SentinelList payload \<Rightarrow>
             let tokens = split_caret_tokens payload in
             if tokens = [] then Some False
             else if dt = dt_text then
               (let (a, ok) = raw_read raw_str [] P k in
                Some (list_match op (list_ex (\<lambda>t. equal_fold t a) tokens, ok)))
             else
               (case parse_caret_numbers tokens of
                  None \<Rightarrow> Some False
                | Some nums \<Rightarrow>
                    let (a, ok) = raw_read raw_num f64_zero P k in
                    Some (list_match op (list_ex (f64_eq a) nums, ok)))))"

definition spec_single :: "uuid_ops \<Rightarrow> attrs \<Rightarrow> attrs \<Rightarrow> rule_condition \<Rightarrow> uuid \<Rightarrow> eval_res" where
  "spec_single U E P c a =
     (let k = uuid_string U a in
      case attr_value E k of
        None \<Rightarrow> Inr False
      | Some expected \<Rightarrow>
          if P = None then Inr False
          else
            (case rc_attribute c of
               None \<Rightarrow> Inl (NotPreloaded (bm_id c))
             | Some att \<Rightarrow>
                 (case spec_sentinel (at_data_type att) (rc_operator c) expected k P of
                    Some b \<Rightarrow> Inr b
                  | None \<Rightarrow>
                      if attr_value P k = None then Inr False
                      else spec_compare (at_data_type att) (rc_operator c) k E P)))"

text \<open>
  A sibling chain is cut at its OR connectors; it holds when all members of some run hold.
\<close>

fun and_runs :: "(string \<times> bool) list \<Rightarrow> bool list list" where
  "and_runs [] = []"
| "and_runs [(conn, b)] = [[b]]"
| "and_runs ((conn, b) # x # xs) =
     (if conn = conn_or then [b] # and_runs (x # xs)
      else (case and_runs (x # xs) of [] \<Rightarrow> [[b]] | r # rs \<Rightarrow> (b # r) # rs))"

definition or_of_ands :: "(string \<times> bool) list \<Rightarrow> bool" where
  "or_of_ands xs = list_ex (list_all (\<lambda>b. b)) (and_runs xs)"

text \<open>The values of all siblings, or the error of the first one that fails.\<close>

fun all_values :: "(string \<times> eval_res) list \<Rightarrow> (eval_error, (string \<times> bool) list) go_result" where
  "all_values [] = Inr []"
| "all_values ((conn, r) # rs) =
     (case r of
        Inl e \<Rightarrow> Inl e
      | Inr b \<Rightarrow> (case all_values rs of Inl e \<Rightarrow> Inl e | Inr bs \<Rightarrow> Inr ((conn, b) # bs)))"

definition spec_chain :: "(string \<times> eval_res) list \<Rightarrow> eval_res" where
  "spec_chain rs = (case all_values rs of Inl e \<Rightarrow> Inl e | Inr bs \<Rightarrow> Inr (or_of_ands bs))"

text \<open>A node at a given depth: its own check, joined with the chain of its children.\<close>

definition join_children :: "string \<Rightarrow> eval_res \<Rightarrow> eval_res \<Rightarrow> eval_res" where
  "join_children conn cr own =
     (case cr of
        Inl e \<Rightarrow> Inl e
      | Inr b \<Rightarrow> (case own of Inl e \<Rightarrow> Inl e | Inr a \<Rightarrow> Inr (if conn = conn_or then a \<or> b else a \<and> b)))"

function spec_node :: "uuid_ops \<Rightarrow> attrs \<Rightarrow> attrs \<Rightarrow> (rule_condition \<Rightarrow> rule_condition list)
    \<Rightarrow> nat \<Rightarrow> rule_condition \<Rightarrow> eval_res" where
  "spec_node U E P kids depth c =
     (let children = (if depth < max_condition_depth then kids c else []);
          own = map_option (spec_single U E P c) (rc_attribute_id c) in
      if children = [] then (case own of None \<Rightarrow> Inr True | Some r \<Rightarrow> r)
      else
        let cr = spec_chain (map (\<lambda>d. (connector_value (rc_connector d), spec_node U E P kids (depth + 1) d)) children) in
        (case own of None \<Rightarrow> cr | Some r \<Rightarrow> join_children (connector_value (rc_child_connector c)) cr r))"
  by pat_completeness auto
termination
  by (relation "measure (\<lambda>(U, E, P, kids, depth, c). max_condition_depth - depth)") (auto split: if_splits)

declare spec_node.simps [simp del]

text \<open>The conditions below a key of the index, in order of their sequence numbers.\<close>

definition ordered_children :: "rule_condition list \<Rightarrow> uuid option \<Rightarrow> rule_condition list" where
  "ordered_children cs p = sort_slice seq_lt (filter (\<lambda>c. rc_parent_id c = p) cs)"

definition spec_group :: "uuid_ops \<Rightarrow> rule_condition list \<Rightarrow> attrs \<Rightarrow> attrs \<Rightarrow> eval_res" where
  "spec_group U cs E P =
     (if ordered_children cs None = [] then Inr True
      else spec_chain (map (\<lambda>d. (connector_value (rc_connector d),
             spec_node U E P (\<lambda>c. ordered_children cs (Some (bm_id c))) 1 d)) (ordered_children cs None)))"

section \<open>Computations\<close>

text \<open>
  A computation yields \<open>v\<close> from every state whose caches are sound for the raw values
  \<open>E\<close> and \<open>P\<close>, and leaves such a state behind.
\<close>

definition sound_for :: "attrs \<Rightarrow> attrs \<Rightarrow> eval_state \<Rightarrow> bool" where
  "sound_for E P s =
     (values_ok (es_exp s) \<and> raw_of (es_exp s) = E \<and> values_ok (es_usr s) \<and> raw_of (es_usr s) = P)"

definition computes :: "attrs \<Rightarrow> attrs \<Rightarrow> 'a ev \<Rightarrow> 'a \<Rightarrow> bool" where
  "computes E P m v =
     (\<forall>s. sound_for E P s \<longrightarrow> fst (run_state m s) = v \<and> sound_for E P (snd (run_state m s)))"

named_theorems computed \<open>introduction rules for computations\<close>

lemma computes_ret [computed]: "v = w \<Longrightarrow> computes E P (ret v) w"
  by (simp add: computes_def)

lemma computes_bind:
  assumes "computes E P m a" and "computes E P (f a) v"
  shows "computes E P (m \<bind> f) v"
  using assms by (simp add: computes_def split_beta)

lemma computes_exp_read:
  assumes "memo_getter getter direct zero"
  shows "computes E P (exp_read getter k) (raw_read direct zero E k)"
  using memo_getter.read_direct [OF assms]
  by (auto simp: computes_def exp_read_def sound_for_def split_beta)

lemma computes_usr_read:
  assumes "memo_getter getter direct zero"
  shows "computes E P (usr_read getter k) (raw_read direct zero P k)"
  using memo_getter.read_direct [OF assms]
  by (auto simp: computes_def usr_read_def sound_for_def split_beta)

lemmas exp_reads =
  computes_exp_read [OF str.memo_getter_axioms] computes_exp_read [OF strs.memo_getter_axioms]
  computes_exp_read [OF num.memo_getter_axioms] computes_exp_read [OF nums.memo_getter_axioms]
  computes_exp_read [OF bln.memo_getter_axioms] computes_exp_read [OF dat.memo_getter_axioms]
  computes_exp_read [OF bnd.memo_getter_axioms]

lemmas usr_reads =
  computes_usr_read [OF str.memo_getter_axioms] computes_usr_read [OF num.memo_getter_axioms]
  computes_usr_read [OF bln.memo_getter_axioms] computes_usr_read [OF dat.memo_getter_axioms]

lemma computes_ask [computed]:
  "(\<And>p. values_ok p \<Longrightarrow> raw_of p = E \<Longrightarrow> f p = v) \<Longrightarrow> computes E P (exp_ask f) v"
  "(\<And>p. values_ok p \<Longrightarrow> raw_of p = P \<Longrightarrow> f p = v) \<Longrightarrow> computes E P (usr_ask f) v"
  by (simp_all add: computes_def exp_ask_def usr_ask_def sound_for_def)

lemmas computes_binds = exp_reads [THEN computes_bind] usr_reads [THEN computes_bind]

lemma compare_text_computes: "computes E P (compare_text op a k) (spec_text op a k E)"
  unfolding compare_text_def spec_text_def Let_def
  by (auto intro!: computes_binds computes_ret split: prod.splits)

lemma compare_number_computes: "computes E P (compare_number op a k) (spec_number op a k E)"
  unfolding compare_number_def spec_number_def Let_def
  by (auto intro!: computes_binds computes_ret split: prod.splits)

lemma compare_date_computes: "computes E P (compare_date op a k) (spec_date op a k E)"
  unfolding compare_date_def spec_date_def Let_def
  by (auto intro!: computes_binds computes_ret split: prod.splits
      simp: time_equal_def time_before_def time_after_def)

lemma compare_boolean_computes: "computes E P (compare_boolean op a k) (spec_boolean op a k E)"
  unfolding compare_boolean_def spec_boolean_def Let_def
  by (auto intro!: computes_binds computes_ret split: prod.splits)

lemma compare_values_computes: "computes E P (compare_values dt op k) (spec_compare dt op k E P)"
  unfolding compare_values_def spec_compare_def on_actual_def
  by (auto intro!: computes_binds computes_ret compare_text_computes compare_number_computes
      compare_date_computes compare_boolean_computes split: prod.splits)

lemma computes_null: "computes E P (usr_ask (\<lambda>p. pv_is_null p k)) (attr_null P k)"
  by (rule computes_ask) (simp add: pv_is_null_raw_of attr_null_def attr_value_def pv_lookup_raw_of)

lemma match_text_computes:
  "computes E P (match_text_list op ts k)
     (let (a, ok) = raw_read raw_str [] P k in list_match op (list_ex (\<lambda>t. equal_fold t a) ts, ok))"
  unfolding match_text_list_def list_match_def Let_def
  by (auto intro!: computes_binds computes_ret split: prod.splits)

lemma match_number_computes:
  "computes E P (match_number_list op ns k)
     (let (a, ok) = raw_read raw_num f64_zero P k in list_match op (list_ex (f64_eq a) ns, ok))"
  unfolding match_number_list_def list_match_def Let_def
  by (auto intro!: computes_binds computes_ret split: prod.splits)

lemma apply_sentinel_computes:
  "computes E P (apply_sentinel dt op raw k) (spec_sentinel dt op raw k P)"
  unfolding apply_sentinel_def spec_sentinel_def Let_def
  by (auto intro!: computes_ret computes_bind [OF computes_null] computes_bind [OF match_text_computes]
      computes_bind [OF match_number_computes] split: sentinel.splits option.splits prod.splits)

text \<open>The raw maps do not change, so asking for them can be resolved in place.\<close>

lemma computes_ask_bind:
  "(\<And>p. raw_of p = E \<Longrightarrow> g p = a) \<Longrightarrow> computes E P (exp_ask g \<bind> f) v \<longleftrightarrow> computes E P (f a) v"
  "(\<And>p. raw_of p = P \<Longrightarrow> g p = a) \<Longrightarrow> computes E P (usr_ask g \<bind> f) v \<longleftrightarrow> computes E P (f a) v"
  by (simp_all add: computes_def exp_ask_def usr_ask_def sound_for_def)

lemma lookup_raw: "raw_of p = M \<Longrightarrow> pv_lookup p k = attr_value M k"
  by (auto simp: pv_lookup_raw_of attr_value_def)

lemma computes_has:
  "computes E P (exp_ask (\<lambda>p. pv_has p k) \<bind> f) v \<longleftrightarrow> computes E P (f (attr_value E k \<noteq> None)) v"
  by (rule computes_ask_bind) (simp add: pv_has_lookup lookup_raw)

lemma computes_nil:
  "computes E P (usr_ask (\<lambda>p. p = None) \<bind> f) v \<longleftrightarrow> computes E P (f (P = None)) v"
  by (rule computes_ask_bind) auto

lemma computes_expected:
  "computes E P (exp_ask (\<lambda>p. case pv_lookup p k of None \<Rightarrow> [] | Some r \<Rightarrow> r) \<bind> f) v
     \<longleftrightarrow> computes E P (f (case attr_value E k of None \<Rightarrow> [] | Some r \<Rightarrow> r)) v"
  by (rule computes_ask_bind) (simp add: lookup_raw)

lemma computes_present:
  "computes E P (usr_ask (\<lambda>p. pv_lookup p k \<noteq> None) \<bind> f) v
     \<longleftrightarrow> computes E P (f (attr_value P k \<noteq> None)) v"
  by (rule computes_ask_bind) (simp only: lookup_raw)

lemmas computes_asks = computes_has computes_nil computes_expected computes_present

lemma evaluate_single_computes: "computes E P (evaluate_single U c a) (spec_single U E P c a)"
  unfolding evaluate_single_def spec_single_def Let_def computes_asks
  by (auto intro!: computes_ret computes_bind [OF apply_sentinel_computes] compare_values_computes
      simp: computes_asks simp del: not_None_eq split: option.split)

text \<open>evaluateSingleCondition on fresh caches.\<close>

definition condition_result ::
  "uuid_ops \<Rightarrow> (string \<rightharpoonup> raw_json) \<Rightarrow> attrs \<Rightarrow> rule_condition \<Rightarrow> uuid \<Rightarrow> eval_res" where
  "condition_result U E P c a =
     fst (run_state (evaluate_single U c a) \<lparr>es_exp = new_parsed (Some E), es_usr = new_parsed P\<rparr>)"

lemma condition_result_spec: "condition_result U E P c a = spec_single U (Some E) P c a"
  using evaluate_single_computes [of "Some E" P U c a]
  by (simp add: condition_result_def computes_def sound_for_def)

section \<open>The loop over a chain\<close>

text \<open>What the loop returns for the values still to come, from the two accumulators.\<close>

fun fold_chain :: "bool \<Rightarrow> bool \<Rightarrow> string \<Rightarrow> (string \<times> bool) list \<Rightarrow> bool" where
  "fold_chain acc_or result prev [] = (acc_or \<or> result)"
| "fold_chain acc_or result prev ((conn, b) # xs) =
     (if prev = conn_or then fold_chain (acc_or \<or> result) b conn xs
      else fold_chain acc_or (result \<and> b) conn xs)"

lemma and_runs_Cons: "\<exists>r rs. and_runs ((conn, b) # xs) = (b # r) # rs"
  by (cases xs) (auto split: list.splits)

lemma fold_chain_or_of_ands:
  "fold_chain acc_or result conn xs \<longleftrightarrow> acc_or \<or> or_of_ands ((conn, result) # xs)"
proof (induction acc_or result conn xs rule: fold_chain.induct)
  case (2 acc_or result prev conn b xs)
  obtain r rs where runs: "and_runs ((conn, b) # xs) = (b # r) # rs"
    using and_runs_Cons by blast
  then have "and_runs ((conn, result \<and> b) # xs) = ((result \<and> b) # r) # rs"
    by (cases xs) (auto split: list.splits if_splits)
  with 2 runs show ?case by (auto simp: or_of_ands_def)
qed (simp add: or_of_ands_def)

lemma eval_loop_computes:
  assumes "\<And>c. c \<in> set cs \<Longrightarrow> computes E P (eval_node U bp c depth) (node c)"
  shows "computes E P (eval_loop U bp prev acc_or result cs depth)
    (case all_values (map (\<lambda>d. (connector_value (rc_connector d), node d)) cs) of
       Inl e \<Rightarrow> Inl e
     | Inr bs \<Rightarrow> Inr (fold_chain acc_or result (connector_value (rc_connector prev)) bs))"
  using assms
proof (induction cs arbitrary: prev acc_or result)
  case Nil
  then show ?case by (auto intro!: computes_ret)
next
  case (Cons c cs)
  have c: "computes E P (eval_node U bp c depth) (node c)" using Cons.prems by simp
  show ?case
    unfolding eval_loop.simps
    using Cons.IH [OF Cons.prems] by (rule_tac computes_bind [OF c])
      (auto intro!: computes_ret simp: computes_def split: sum.splits)
qed

lemma eval_siblings_computes:
  assumes "cs \<noteq> []" and "\<And>c. c \<in> set cs \<Longrightarrow> computes E P (eval_node U bp c depth) (node c)"
  shows "computes E P (eval_siblings U bp cs depth)
    (spec_chain (map (\<lambda>d. (connector_value (rc_connector d), node d)) cs))"
proof -
  from assms(1) obtain c ds where cs: "cs = c # ds" by (cases cs) auto
  have c: "computes E P (eval_node U bp c depth) (node c)"
    and ds: "\<And>prev acc_or result. computes E P (eval_loop U bp prev acc_or result ds depth)
      (case all_values (map (\<lambda>d. (connector_value (rc_connector d), node d)) ds) of
         Inl e \<Rightarrow> Inl e
       | Inr bs \<Rightarrow> Inr (fold_chain acc_or result (connector_value (rc_connector prev)) bs))"
    using assms(2) cs by (auto intro: eval_loop_computes)
  show ?thesis
  proof (cases "node c")
    case (Inl e)
    then show ?thesis
      by (auto simp: cs spec_chain_def intro!: computes_bind [OF c] computes_ret)
  next
    case (Inr b)
    then show ?thesis
      using ds [of c False b]
      by (auto simp: cs spec_chain_def fold_chain_or_of_ands intro!: computes_bind [OF c] split: sum.splits)
  qed
qed

section \<open>The tree\<close>

lemma eval_node_computes:
  assumes "\<And>c. children_of U bp c = kids c"
  shows "computes E P (eval_node U bp c depth) (spec_node U E P kids depth c)"
proof (induction "max_condition_depth - depth" arbitrary: depth c rule: less_induct)
  case less
  define children where "children = (if depth < max_condition_depth then kids c else [])"
  show ?case
  proof (cases "children = []")
    case True
    then show ?thesis
      unfolding eval_node.simps [of U bp c depth] spec_node.simps [of U E P kids depth c] assms
        Let_def children_def [symmetric]
      by (auto intro!: computes_ret evaluate_single_computes split: option.split)
  next
    case False
    then have depth: "max_condition_depth - Suc depth < max_condition_depth - depth"
      by (auto simp: children_def split: if_splits)
    have sib: "computes E P (eval_siblings U bp children (Suc depth))
        (spec_chain (map (\<lambda>d. (connector_value (rc_connector d), spec_node U E P kids (Suc depth) d)) children))"
      by (rule eval_siblings_computes [OF False less.hyps [OF depth]])
    show ?thesis
      using False
      unfolding eval_node.simps [of U bp c depth] spec_node.simps [of U E P kids depth c] assms
        Let_def children_def [symmetric]
      by (auto simp: join_children_def intro!: computes_ret computes_bind [OF sib]
          computes_bind [OF evaluate_single_computes] split: option.split sum.split)
  qed
qed

context uuid_laws
begin

lemma children_ordered:
  "children_of U (sort_groups seq_lt (by_parent U cs)) c = ordered_children cs (Some (bm_id c))"
  by (simp add: children_of_def ordered_children_def)

lemma evaluate_condition_group_computes:
  "computes E P (evaluate_condition_group U cs) (spec_group U cs E P)"
proof -
  have node: "computes E P (eval_node U (sort_groups seq_lt (by_parent U cs)) c (Suc 0))
      (spec_node U E P (\<lambda>c. ordered_children cs (Some (bm_id c))) (Suc 0) c)" for c
    by (rule eval_node_computes) (rule children_ordered)
  have roots: "gm_slice (sort_groups seq_lt (by_parent U cs)) [] = ordered_children cs None"
    by (simp add: ordered_children_def)
  show ?thesis
    unfolding evaluate_condition_group_def spec_group_def Let_def roots
    by (auto intro!: computes_ret eval_siblings_computes node)
qed

lemma evaluate_logic_conditions_spec:
  assumes "conditions \<noteq> []"
  shows "evaluate_logic_conditions U conditions attrs =
    (let rcs = map (logic_condition_to_rule_condition U) conditions;
         expected = stamp_expected conditions in
     case validate_condition_tree U rcs expected of
       None \<Rightarrow> None
     | Some (Inl _) \<Rightarrow> Some (Inr False)
     | Some (Inr _) \<Rightarrow> Some (spec_group U rcs (Some expected) attrs))"
proof -
  have "fst (run_state (evaluate_condition_group U cs)
      \<lparr>es_exp = new_parsed (Some E), es_usr = new_parsed attrs\<rparr>) = spec_group U cs (Some E) attrs" for cs E
    using evaluate_condition_group_computes [of "Some E" attrs cs]
    by (simp add: computes_def sound_for_def)
  with assms show ?thesis
    by (simp add: evaluate_logic_conditions_def Let_def split: option.split sum.split)
qed

end

end
