(* ===== verification/Local_Evaluator.thy ===== *)
theory Local_Evaluator
  imports Condition_Spec
begin

text \<open>
  placement_logic.go, lead_enrichment.go and evaluator.go: the entries of a decision rule,
  the expansion of a sales-target entry over the customer's leads, and
  LocalEvaluator.Evaluate. As in Condition_Tree, None is a recursion in Go that does not
  return (while a logic expression is rendered).
\<close>

section \<open>placement_logic.go\<close>

definition sorted_variations :: "rule_variation list \<Rightarrow> rule_variation list" where
  "sorted_variations rules = sort_slice (\<lambda>a b. rl_order_no a < rl_order_no b) rules"

definition to_logic_condition :: "uuid_ops \<Rightarrow> (string \<rightharpoonup> raw_json) \<Rightarrow> rule_condition \<Rightarrow> logic_condition" where
  "to_logic_condition U expected rc =
     (let attr_id = (case rc_attribute_id rc of None \<Rightarrow> [] | Some a \<Rightarrow> uuid_string U a) in
      \<lparr>lc_id = uuid_string U (bm_id rc),
       lc_parent_id = (case rc_parent_id rc of None \<Rightarrow> [] | Some p \<Rightarrow> uuid_string U p),
       lc_attribute_id = attr_id,
       lc_data_type = (case rc_attribute rc of None \<Rightarrow> [] | Some a \<Rightarrow> at_data_type a),
       lc_operator = rc_operator rc,
       lc_connector = connector_value (rc_connector rc),
       lc_child_connector = connector_value (rc_child_connector rc),
       lc_sequence = rc_sequence rc,
       lc_expected = (case expected attr_id of None \<Rightarrow> [] | Some raw \<Rightarrow> raw)\<rparr>)"

definition build_logic_entry ::
  "uuid_ops \<Rightarrow> decision_rule \<Rightarrow> schedule \<Rightarrow> f64 \<Rightarrow> string \<Rightarrow> (string \<rightharpoonup> raw_json) \<Rightarrow> content_result option" where
  "build_logic_entry U rule sched score placement_name expected =
     (case generate_logic_hash U (dr_conditions rule) expected of
        None \<Rightarrow> None
      | Some hash \<Rightarrow>
          (case build_logic_expression U (dr_conditions rule) expected of
             None \<Rightarrow> None
           | Some expr \<Rightarrow>
               Some
                 (zero_content_result
                   \<lparr>cr_rule_id := dr_running rule,
                    cr_content_path := dr_content_path rule,
                    cr_rule_type := dr_type rule,
                    cr_source := placement_name,
                    cr_score := score,
                    cr_start := format_rfc3339 (sc_from sched),
                    cr_end := format_rfc3339 (sc_until sched),
                    cr_campaign_code := Some (dr_campaign_code rule),
                    cr_logic_hash := hash,
                    cr_logic_expr := expr,
                    cr_conditions := map (to_logic_condition U expected) (dr_conditions rule)\<rparr>)))"

definition variation_values :: "uuid_ops \<Rightarrow> rule_variation \<Rightarrow> string \<rightharpoonup> raw_json" where
  "variation_values U v =
     foldl (\<lambda>m ra. m(uuid_string U (ra_attribute_id ra) \<mapsto> ra_value ra)) Map.empty (rl_attributes v)"

definition build_placement_logic_entries ::
  "uuid_ops \<Rightarrow> decision_rule \<Rightarrow> schedule \<Rightarrow> string \<Rightarrow> content_result list option" where
  "build_placement_logic_entries U rule sched placement_name =
     (if dr_rules rule = [] then
        all_some [build_logic_entry U rule sched (dr_score rule) placement_name Map.empty]
      else
        all_some (map (\<lambda>v. build_logic_entry U rule sched (dr_score rule) placement_name (variation_values U v))
                    (sorted_variations (dr_rules rule))))"

section \<open>lead_enrichment.go\<close>

definition lead_matches_placement :: "lead \<Rightarrow> string \<Rightarrow> bool" where
  "lead_matches_placement l placement_name =
     (if placement_name = [] then False else list_ex (\<lambda>p. p = placement_name) (ld_placements l))"

definition parse_lead_score :: "string \<Rightarrow> f64 \<Rightarrow> f64" where
  "parse_lead_score raw fallback =
     (if raw = [] then fallback
      else (case parse_float raw of None \<Rightarrow> fallback | Some v \<Rightarrow> v))"

definition expand_with_leads :: "content_result \<Rightarrow> lead list \<Rightarrow> string \<Rightarrow> f64 \<Rightarrow> content_result list" where
  "expand_with_leads entry leads placement_name fallback =
     map (\<lambda>l. entry\<lparr>cr_content_path := ld_content_id l,
                    cr_score := parse_lead_score (ld_final_score l) fallback,
                    cr_campaign_code := Some (ld_csvm_code l),
                    cr_start := ld_sla_start l,
                    cr_end := ld_sla_end l\<rparr>)
       (filter (\<lambda>l. lead_matches_placement l placement_name) leads)"

section \<open>evaluator.go\<close>

text \<open>The inner loop: the results of one entry.\<close>

definition entry_results ::
  "uuid_ops \<Rightarrow> string \<Rightarrow> attrs \<Rightarrow> lead list \<Rightarrow> bool \<Rightarrow> content_result \<Rightarrow> content_result list option" where
  "entry_results U placement_name attrs leads is_sales_target entry =
     (case evaluate_logic_conditions U (cr_conditions entry) attrs of
        None \<Rightarrow> None
      | Some (Inl _) \<Rightarrow> Some []
      | Some (Inr pass) \<Rightarrow>
          if \<not> pass then Some []
          else
            (let entry' = entry\<lparr>cr_logic_eval := pass\<rparr> in
             if is_sales_target
             then Some (expand_with_leads entry' leads placement_name (cr_score entry'))
             else Some [entry']))"

definition schedule_results ::
  "uuid_ops \<Rightarrow> string \<Rightarrow> attrs \<Rightarrow> lead list \<Rightarrow> schedule \<Rightarrow> content_result list option" where
  "schedule_results U placement_name attrs leads sched =
     (case sc_rule sched of
        None \<Rightarrow> Some []
      | Some rule \<Rightarrow>
          (case build_placement_logic_entries U rule sched placement_name of
             None \<Rightarrow> None
           | Some entries \<Rightarrow>
               map_option concat
                 (all_some (map (entry_results U placement_name attrs leads (dr_type rule = type_sales_target))
                    entries))))"

definition score_before :: "content_result \<Rightarrow> content_result \<Rightarrow> bool" where
  "score_before a b = f64_lt (cr_score b) (cr_score a)"

definition local_evaluate ::
  "uuid_ops \<Rightarrow> string \<Rightarrow> schedule list \<Rightarrow> attrs \<Rightarrow> lead list \<Rightarrow> content_result list option" where
  "local_evaluate U placement_name schedules attrs leads =
     map_option (\<lambda>rss. sort_slice score_before (concat rss))
       (all_some (map (schedule_results U placement_name attrs leads) schedules))"

section \<open>Ordering by score\<close>

text \<open>
  Go compares scores with \<open>>\<close>, which is a strict weak order on numbers but not in the
  presence of NaN. Putting NaN last gives one that agrees with it on numbers.
\<close>

definition num_before :: "f64 \<Rightarrow> f64 \<Rightarrow> bool" where
  "num_before x y = (if y = NaN then x \<noteq> NaN else f64_lt y x)"

definition score_order :: "content_result \<Rightarrow> content_result \<Rightarrow> bool" where
  "score_order a b = num_before (cr_score a) (cr_score b)"

lemma f64_lt_NaN [simp]: "\<not> f64_lt x NaN" "\<not> f64_lt NaN y"
  by (cases x; simp)+

lemma num_before_trans: "num_before x y \<Longrightarrow> num_before y z \<Longrightarrow> num_before x z"
  by (auto simp: num_before_def split: if_splits intro: f64_trans)

lemma num_before_incomp: "\<not> num_before x y \<Longrightarrow> \<not> num_before y z \<Longrightarrow> \<not> num_before x z"
  by (cases "x = NaN"; cases "y = NaN"; cases "z = NaN")
    (auto simp: num_before_def dest: f64_incomp)

interpretation score: strict_weak score_order
proof
  show "score_order a b \<Longrightarrow> score_order b c \<Longrightarrow> score_order a c" for a b c
    unfolding score_order_def by (rule num_before_trans)
  show "\<not> score_order a b \<Longrightarrow> \<not> score_order b c \<Longrightarrow> \<not> score_order a c" for a b c
    unfolding score_order_def by (rule num_before_incomp)
qed (simp add: score_order_def num_before_def)

lemma sort_by_score:
  assumes "\<And>x. x \<in> set xs \<Longrightarrow> cr_score x \<noteq> NaN"
  shows "sorted_wrt (\<lambda>a b. \<not> f64_lt (cr_score a) (cr_score b)) (sort_slice score_before xs)"
proof -
  have eq: "sort_slice score_before xs = sort_slice score_order xs"
    by (rule sort_slice_cong) (use assms in \<open>auto simp: score_before_def score_order_def num_before_def\<close>)
  have "sorted_wrt (\<lambda>a b. \<not> score_order b a) (sort_slice score_order xs)"
    by (rule score.by_insertion.sorted_srt)
  then show ?thesis
    unfolding eq
  proof (rule sorted_wrt_mono_rel [rotated])
    fix a b assume "a \<in> set (sort_slice score_order xs)" "b \<in> set (sort_slice score_order xs)"
      and "\<not> score_order b a"
    then show "\<not> f64_lt (cr_score a) (cr_score b)"
      using assms by (auto simp: score_order_def num_before_def split: if_splits)
  qed
qed

section \<open>Entries and their conditions\<close>

lemma build_logic_entry_fields:
  assumes "build_logic_entry U rule sched score pn expected = Some e"
  shows "cr_source e = pn" "cr_rule_id e = dr_running rule" "cr_rule_type e = dr_type rule"
    "cr_score e = score" "cr_content_path e = dr_content_path rule"
    "cr_conditions e = map (to_logic_condition U expected) (dr_conditions rule)"
    "cr_start e = format_rfc3339 (sc_from sched)" "cr_end e = format_rfc3339 (sc_until sched)"
    "cr_campaign_code e = Some (dr_campaign_code rule)"
  using assms by (auto simp: build_logic_entry_def split: option.splits)

text \<open>The expected values an entry is built for: none for a rule without variations.\<close>

definition entry_values :: "uuid_ops \<Rightarrow> decision_rule \<Rightarrow> (string \<rightharpoonup> raw_json) set" where
  "entry_values U rule =
     (if dr_rules rule = [] then {Map.empty} else variation_values U ` set (dr_rules rule))"

lemma set_build_entries:
  assumes "build_placement_logic_entries U rule sched pn = Some es"
  shows "e \<in> set es \<longleftrightarrow>
    (\<exists>vals \<in> entry_values U rule. build_logic_entry U rule sched (dr_score rule) pn vals = Some e)"
  using assms
  by (auto simp: build_placement_logic_entries_def entry_values_def sorted_variations_def set_all_some
      split: if_splits option.splits)

lemma build_entries_length:
  assumes "build_placement_logic_entries U rule sched pn = Some es"
  shows "length es = max 1 (length (dr_rules rule))"
  using assms
  by (auto simp: build_placement_logic_entries_def all_some_map_nth sorted_variations_def
      max_def Suc_le_eq split: if_splits option.splits)

context uuid_laws
begin

lemma build_logic_expression_total:
  assumes "distinct (map bm_id cs)"
  shows "build_logic_expression U cs expected \<noteq> None"
  using canonical_of_total [OF assms] by (simp add: build_logic_expression_def)

lemma build_entries_total:
  assumes "distinct (map bm_id (dr_conditions rule))"
  shows "build_placement_logic_entries U rule sched pn \<noteq> None"
proof -
  have entry: "build_logic_entry U rule sched s pn vals \<noteq> None" for s vals
    using build_logic_expression_total [OF assms, of vals]
    by (auto simp: build_logic_entry_def generate_logic_hash_def)
  show ?thesis
    using entry entry [symmetric]
    by (auto simp: build_placement_logic_entries_def all_some_None simp del: not_None_eq split: option.splits)
qed

end

text \<open>
  What survives the trip of a condition through the stored DTO: everything evaluation looks
  at. The nil UUID as an attribute id and an empty connector text are read back as absent.
\<close>

definition storable :: "rule_condition \<Rightarrow> bool" where
  "storable rc = (rc_attribute_id rc \<noteq> Some uuid_nil \<and> rc_connector rc \<noteq> Some [] \<and> rc_child_connector rc \<noteq> Some [])"

definition evaluated_part :: "rule_condition \<Rightarrow> rule_condition" where
  "evaluated_part rc =
     zero_rule_condition
       \<lparr>bm_id := bm_id rc, rc_parent_id := rc_parent_id rc, rc_attribute_id := rc_attribute_id rc,
        rc_sequence := rc_sequence rc, rc_operator := rc_operator rc, rc_connector := rc_connector rc,
        rc_child_connector := rc_child_connector rc,
        rc_attribute := Some (zero_attribute\<lparr>at_data_type :=
          (case rc_attribute rc of None \<Rightarrow> [] | Some a \<Rightarrow> at_data_type a)\<rparr>)\<rparr>"

context uuid_laws
begin

lemma stored_condition:
  assumes "storable rc"
  shows "logic_condition_to_rule_condition U (to_logic_condition U expected rc) = evaluated_part rc"
  using assms string_nonempty
  by (auto simp: logic_condition_to_rule_condition_def to_logic_condition_def evaluated_part_def
      storable_def must_parse_uuid_ptr_def connector_value_def parse_string Let_def
      zero_rule_condition_def split: option.splits)

end

section \<open>What passes\<close>

text \<open>
  The expected values that reach evaluation: those of the attributes the conditions name,
  leaving out empty values and the literal null.
\<close>

definition usable :: "raw_json option \<Rightarrow> raw_json option" where
  "usable r = (case r of None \<Rightarrow> None | Some raw \<Rightarrow> if raw = [] \<or> raw = ''null'' then None else Some raw)"

definition attr_key :: "uuid_ops \<Rightarrow> rule_condition \<Rightarrow> string" where
  "attr_key U c = (case rc_attribute_id c of None \<Rightarrow> [] | Some a \<Rightarrow> uuid_string U a)"

definition stamped :: "uuid_ops \<Rightarrow> (string \<rightharpoonup> raw_json) \<Rightarrow> rule_condition list \<Rightarrow> string \<rightharpoonup> raw_json" where
  "stamped U vals cs k = (if k \<in> set (map (attr_key U) cs) then usable (vals k) else None)"

text \<open>The forward links and the own connectors are as the evaluation needs them.\<close>

definition tree_ok :: "rule_condition list \<Rightarrow> bool" where
  "tree_ok cs =
     (list_all (\<lambda>c. rc_attribute_id c \<noteq> None \<and> list_ex (\<lambda>d. rc_parent_id d = Some (bm_id c)) cs
          \<longrightarrow> rc_child_connector c \<noteq> None) cs
      \<and> list_all (\<lambda>p. well_linked (ordered_children cs p)) (map rc_parent_id cs))"

text \<open>Whether a rule's own conditions hold of a customer for one set of expected values.\<close>

definition rule_passes ::
  "uuid_ops \<Rightarrow> rule_condition list \<Rightarrow> (string \<rightharpoonup> raw_json) \<Rightarrow> attrs \<Rightarrow> bool" where
  "rule_passes U cs vals P =
     (cs = [] \<or> tree_ok cs \<and> spec_group U (map evaluated_part cs) (Some (stamped U vals cs)) P = Inr True)"

lemma stamp_stored: "stamp_expected (map (to_logic_condition U vals) cs) = stamped U vals cs"
proof -
  have "foldl (\<lambda>m lc. if lc_expected lc \<noteq> [] \<and> lc_expected lc \<noteq> ''null''
                     then m(lc_attribute_id lc \<mapsto> lc_expected lc) else m) m (map (to_logic_condition U vals) cs)
      = (\<lambda>k. if k \<in> set (map (attr_key U) cs) \<and> usable (vals k) \<noteq> None then usable (vals k) else m k)" for m
  proof (induction cs arbitrary: m)
    case (Cons c cs)
    show ?case
      unfolding list.map foldl_Cons Cons.IH
      by (auto simp: to_logic_condition_def attr_key_def [symmetric] usable_def fun_eq_iff Let_def
          split: option.split)
  qed simp
  then show ?thesis by (auto simp: stamp_expected_def stamped_def fun_eq_iff)
qed

lemma tree_ok_iff:
  "tree_ok cs \<longleftrightarrow>
    (\<forall>c \<in> set cs. rc_attribute_id c \<noteq> None \<and> (\<exists>d \<in> set cs. rc_parent_id d = Some (bm_id c))
        \<longrightarrow> rc_child_connector c \<noteq> None)
    \<and> (\<forall>p. well_linked (ordered_children cs p))"
proof -
  have "well_linked (ordered_children cs p)" if "p \<notin> rc_parent_id ` set cs" for p
  proof -
    from that have "filter (\<lambda>c. rc_parent_id c = p) cs = []" by (auto simp: filter_empty_conv)
    then show ?thesis by (simp add: ordered_children_def well_linked_def)
  qed
  then have "(\<forall>p \<in> rc_parent_id ` set cs. well_linked (ordered_children cs p))
      \<longleftrightarrow> (\<forall>p. well_linked (ordered_children cs p))" by blast
  then show ?thesis by (simp add: tree_ok_def list_all_iff list_ex_iff)
qed

text \<open>The trip through the DTO keeps the shape of the tree.\<close>

lemma evaluated_part_simps [simp]:
  "bm_id (evaluated_part c) = bm_id c" "rc_parent_id (evaluated_part c) = rc_parent_id c"
  "rc_attribute_id (evaluated_part c) = rc_attribute_id c" "rc_sequence (evaluated_part c) = rc_sequence c"
  "rc_connector (evaluated_part c) = rc_connector c"
  "rc_child_connector (evaluated_part c) = rc_child_connector c"
  "rc_operator (evaluated_part c) = rc_operator c"
  by (simp_all add: evaluated_part_def zero_rule_condition_def)

lemma sort_slice_map:
  assumes "\<And>a b. lt (f a) (f b) = lt' a b"
  shows "sort_slice lt (map f xs) = map f (sort_slice lt' xs)"
proof -
  have sift: "sift_left lt (f x) (map f ys) = map f (sift_left lt' x ys)" for x ys
    by (induction ys) (simp_all add: assms)
  have "foldl (\<lambda>acc x. sift_left lt x acc) (map f acc) (map f zs)
      = map f (foldl (\<lambda>acc x. sift_left lt' x acc) acc zs)" for acc zs
    by (induction zs arbitrary: acc) (simp_all add: sift)
  from this [of "[]" xs] show ?thesis by (simp add: sort_slice_def rev_map)
qed

lemma ordered_children_part:
  "ordered_children (map evaluated_part cs) p = map evaluated_part (ordered_children cs p)"
  by (simp add: ordered_children_def filter_map comp_def sort_slice_map [where lt' = seq_lt] seq_lt_def)

lemma well_linked_part: "well_linked (map evaluated_part cs) = well_linked cs"
  by (cases "cs = []") (simp_all add: well_linked_def last_map map_butlast [symmetric] list_all_iff)

lemma tree_ok_part: "tree_ok (map evaluated_part cs) = tree_ok cs"
  by (auto simp: tree_ok_iff ordered_children_part well_linked_part)

context uuid_laws
begin

lemma map_stored:
  assumes "list_all storable cs"
  shows "map (logic_condition_to_rule_condition U) (map (to_logic_condition U vals) cs) = map evaluated_part cs"
  using assms by (simp add: stored_condition list_all_iff)

lemma validate_iff:
  assumes "distinct (map bm_id cs)"
  shows "find_violation U cs = None \<longleftrightarrow> tree_ok cs"
  unfolding tree_ok_iff find_violation_None [OF assms] by (simp add: ordered_children_def)

lemma evaluate_stored:
  assumes "list_all storable cs" and "distinct (map bm_id cs)" and "cs \<noteq> []"
  shows "evaluate_logic_conditions U (map (to_logic_condition U vals) cs) P =
    Some (if tree_ok cs then spec_group U (map evaluated_part cs) (Some (stamped U vals cs)) P else Inr False)"
proof -
  let ?rcs = "map evaluated_part cs" and ?E = "stamped U vals cs"
  have dist: "distinct (map bm_id ?rcs)" using assms(2) by (simp add: comp_def)
  have valid: "validate_condition_tree U ?rcs ?E = Some (Inr ()) \<longleftrightarrow> tree_ok cs"
    and ends: "validate_condition_tree U ?rcs ?E \<noteq> None"
    using validate_iff [OF dist] build_logic_expression_total [OF dist, of ?E] assms(3)
    by (auto simp: validate_condition_tree_def tree_ok_part split: option.splits)
  have ne: "map (to_logic_condition U vals) cs \<noteq> []" using assms(3) by simp
  show ?thesis
    unfolding evaluate_logic_conditions_spec [OF ne] map_stored [OF assms(1)] stamp_stored Let_def
    using valid ends by (auto split: option.splits sum.splits)
qed

end

section \<open>What is offered\<close>

text \<open>The results of an entry that passes, given whether its rule is sales-targeted.\<close>

definition offers :: "bool \<Rightarrow> string \<Rightarrow> lead list \<Rightarrow> content_result \<Rightarrow> content_result list" where
  "offers is_sales_target placement_name leads e =
     (let e' = e\<lparr>cr_logic_eval := True\<rparr> in
      if is_sales_target then expand_with_leads e' leads placement_name (cr_score e') else [e'])"

text \<open>Conditions as the database delivers them: distinct ids, and nothing the DTO cannot carry.\<close>

definition rule_loaded :: "decision_rule \<Rightarrow> bool" where
  "rule_loaded r = (distinct (map bm_id (dr_conditions r)) \<and> list_all storable (dr_conditions r))"

lemma entry_results_offers:
  "entry_results U pn P leads st e = Some xs \<Longrightarrow> x \<in> set xs \<Longrightarrow> x \<in> set (offers st pn leads e)"
  by (auto simp: entry_results_def offers_def Let_def split: option.splits sum.splits if_splits)

text \<open>Where a result comes from.\<close>

lemma result_origin:
  assumes "local_evaluate U pn schedules P leads = Some rs" and "x \<in> set rs"
  obtains s r vals e where "s \<in> set schedules" "sc_rule s = Some r" "vals \<in> entry_values U r"
    "build_logic_entry U r s (dr_score r) pn vals = Some e"
    "x \<in> set (offers (dr_type r = type_sales_target) pn leads e)"
proof -
  from assms obtain xss where xss: "all_some (map (schedule_results U pn P leads) schedules) = Some xss"
    and x: "x \<in> set (concat xss)" by (auto simp: local_evaluate_def)
  then obtain s xs where s: "s \<in> set schedules" "schedule_results U pn P leads s = Some xs" "x \<in> set xs"
    using set_concat_all_some [OF xss] by blast
  then obtain r where r: "sc_rule s = Some r" by (auto simp: schedule_results_def split: option.splits)
  with s obtain es yss where es: "build_placement_logic_entries U r s pn = Some es"
    and yss: "all_some (map (entry_results U pn P leads (dr_type r = type_sales_target)) es) = Some yss"
    and xs: "xs = concat yss" by (auto simp: schedule_results_def split: option.splits)
  then obtain e ys where e: "e \<in> set es" "entry_results U pn P leads (dr_type r = type_sales_target) e = Some ys"
    "x \<in> set ys" using s(3) set_concat_all_some [OF yss] by blast
  with set_build_entries [OF es] obtain vals where "vals \<in> entry_values U r"
    "build_logic_entry U r s (dr_score r) pn vals = Some e" by blast
  with that s r e entry_results_offers show ?thesis by blast
qed

lemma offers_source: "x \<in> set (offers st pn leads e) \<Longrightarrow> cr_source x = cr_source e \<and> cr_logic_eval x"
  by (auto simp: offers_def expand_with_leads_def Let_def split: if_splits)

context uuid_laws
begin

lemma entry_results_eq:
  assumes "cr_conditions e = map (to_logic_condition U vals) cs"
    and "distinct (map bm_id cs)" and "list_all storable cs"
  shows "entry_results U pn P leads st e = Some (if rule_passes U cs vals P then offers st pn leads e else [])"
proof (cases "cs = []")
  case True
  then show ?thesis
    using assms(1) by (simp add: entry_results_def evaluate_logic_conditions_def rule_passes_def offers_def Let_def)
next
  case False
  show ?thesis
    using False
    by (auto simp: entry_results_def assms(1) evaluate_stored [OF assms(3,2) False] rule_passes_def offers_def
        Let_def split: sum.splits)
qed

lemma build_logic_entry_Some:
  assumes "rule_loaded r"
  obtains e where "build_logic_entry U r s sc pn vals = Some e"
proof -
  have "distinct (map bm_id (dr_conditions r))" using assms by (simp add: rule_loaded_def)
  from build_logic_expression_total [OF this, of vals] show ?thesis
    using that by (auto simp: build_logic_entry_def generate_logic_hash_def)
qed

lemma schedule_results_eq:
  assumes "\<And>r. sc_rule s = Some r \<Longrightarrow> rule_loaded r"
  obtains rs where "schedule_results U pn P leads s = Some rs"
    and "\<And>x. x \<in> set rs \<longleftrightarrow> (\<exists>r vals e. sc_rule s = Some r \<and> vals \<in> entry_values U r
      \<and> build_logic_entry U r s (dr_score r) pn vals = Some e
      \<and> rule_passes U (dr_conditions r) vals P \<and> x \<in> set (offers (dr_type r = type_sales_target) pn leads e))"
proof (cases "sc_rule s")
  case None
  then show ?thesis using that [of "[]"] by (simp add: schedule_results_def)
next
  case (Some r)
  then have r: "rule_loaded r" by (rule assms)
  then have dist: "distinct (map bm_id (dr_conditions r))" and st: "list_all storable (dr_conditions r)"
    by (simp_all add: rule_loaded_def)
  from build_entries_total [OF dist] obtain es
    where es: "build_placement_logic_entries U r s pn = Some es" by blast
  define res where "res = entry_results U pn P leads (dr_type r = type_sales_target)"
  have res_eq: "res e = Some (if rule_passes U (dr_conditions r) vals P
      then offers (dr_type r = type_sales_target) pn leads e else [])"
    if "build_logic_entry U r s (dr_score r) pn vals = Some e" for vals e
    unfolding res_def by (rule entry_results_eq [OF build_logic_entry_fields(6) [OF that] dist st])
  have "all_some (map res es) \<noteq> None"
    unfolding all_some_None using set_build_entries [OF es] res_eq by auto
  then obtain xss where xss: "all_some (map res es) = Some xss" by blast
  have "x \<in> set (concat xss) \<longleftrightarrow> (\<exists>vals e. vals \<in> entry_values U r
      \<and> build_logic_entry U r s (dr_score r) pn vals = Some e
      \<and> rule_passes U (dr_conditions r) vals P \<and> x \<in> set (offers (dr_type r = type_sales_target) pn leads e))" for x
  proof -
    have one: "(\<exists>xs. res e = Some xs \<and> x \<in> set xs) \<longleftrightarrow> rule_passes U (dr_conditions r) vals P
        \<and> x \<in> set (offers (dr_type r = type_sales_target) pn leads e)"
      if "build_logic_entry U r s (dr_score r) pn vals = Some e" for vals e
      using res_eq [OF that] by simp
    have "x \<in> set (concat xss) \<longleftrightarrow> (\<exists>e \<in> set es. \<exists>xs. res e = Some xs \<and> x \<in> set xs)"
      by (rule set_concat_all_some [OF xss])
    also have "\<dots> \<longleftrightarrow> (\<exists>vals e. vals \<in> entry_values U r
      \<and> build_logic_entry U r s (dr_score r) pn vals = Some e
      \<and> rule_passes U (dr_conditions r) vals P \<and> x \<in> set (offers (dr_type r = type_sales_target) pn leads e))"
      unfolding Bex_def set_build_entries [OF es] using one by blast
    finally show ?thesis .
  qed
  then show ?thesis
    using that [of "concat xss"] xss es Some by (simp add: schedule_results_def res_def)
qed

end

end
