(* ===== verification/Evaluator_Properties.thy ===== *)
theory Evaluator_Properties
  imports Local_Evaluator "HOL-Library.Code_Target_Numeral"
begin

text \<open>
  What the evaluator guarantees: the cached evaluation is the specification, what passes and
  what is offered, validation, the stability of the logic expression and its hash, and the
  special expected values. Each property is followed by an instance on concrete data.
\<close>

section \<open>Sample data\<close>

definition sample_condition :: rule_condition where
  "sample_condition =
     zero_rule_condition
       \<lparr>bm_id := 1, rc_sequence := 1, rc_attribute_id := Some 2,
        rc_attribute := Some (zero_attribute\<lparr>at_data_type := dt_number\<rparr>), rc_operator := op_gt\<rparr>"

definition sample_variation :: rule_variation where
  "sample_variation =
     zero_rule\<lparr>rl_attributes := [zero_rule_attribute\<lparr>ra_attribute_id := 2, ra_value := ''10''\<rparr>]\<rparr>"

definition sample_rule :: decision_rule where
  "sample_rule =
     zero_decision_rule\<lparr>dr_conditions := [sample_condition], dr_rules := [sample_variation],
       dr_type := type_sales_target\<rparr>"

definition sample_schedule :: schedule where
  "sample_schedule = zero_schedule\<lparr>sc_rule := Some sample_rule\<rparr>"

definition sample_attrs :: attrs where
  "sample_attrs = Some [std_string 2 \<mapsto> ''25'']"

definition sample_lead :: lead where
  "sample_lead = zero_lead\<lparr>ld_content_id := ''offer'', ld_placements := [''home'']\<rparr>"

lemmas sample_defs =
  sample_condition_def sample_variation_def sample_rule_def sample_schedule_def zero_defs

lemma sample_loaded: "rule_loaded sample_rule"
  by (simp add: rule_loaded_def sample_defs storable_def uuid_nil_def)

section \<open>Evaluation\<close>

text \<open>C1: EvaluateLogicConditions, with its lazy caches, is the cache-free specification on the
  converted conditions; a tree that fails validation evaluates to false without an error.\<close>

theorem evaluation_refines_spec:
  assumes "uuid_laws U" and "conditions \<noteq> []"
  shows "evaluate_logic_conditions U conditions attrs =
    (let rcs = map (logic_condition_to_rule_condition U) conditions;
         expected = stamp_expected conditions in
     case validate_condition_tree U rcs expected of
       None \<Rightarrow> None
     | Some (Inl _) \<Rightarrow> Some (Inr False)
     | Some (Inr _) \<Rightarrow> Some (spec_group U rcs (Some expected) attrs))"
  using assms by (rule uuid_laws.evaluate_logic_conditions_spec)

theorem evaluation_refines_spec_witness:
  "evaluate_logic_conditions std_uuid [zero_logic_condition] None =
    (let rcs = map (logic_condition_to_rule_condition std_uuid) [zero_logic_condition];
         expected = stamp_expected [zero_logic_condition] in
     case validate_condition_tree std_uuid rcs expected of
       None \<Rightarrow> None
     | Some (Inl _) \<Rightarrow> Some (Inr False)
     | Some (Inr _) \<Rightarrow> Some (spec_group std_uuid rcs (Some expected) None))"
  by (rule evaluation_refines_spec) (simp_all add: canonical.uuid_laws_axioms)

text \<open>C20: The conditions of a rule, stored in an entry and read back at delivery, pass exactly
  when the rule's own tree is well formed and holds of the customer under the specification;
  the evaluation always returns.\<close>

theorem stored_rule_evaluation:
  assumes "uuid_laws U" and "list_all storable cs" and "distinct (map bm_id cs)"
  shows "\<exists>r. evaluate_logic_conditions U (map (to_logic_condition U vals) cs) P = Some r
    \<and> (r = Inr True \<longleftrightarrow> rule_passes U cs vals P)"
proof (cases "cs = []")
  case True
  then show ?thesis by (simp add: evaluate_logic_conditions_def rule_passes_def)
next
  case False
  then show ?thesis
    by (simp add: uuid_laws.evaluate_stored [OF assms False] rule_passes_def)
qed

theorem stored_rule_evaluation_witness:
  "\<exists>r. evaluate_logic_conditions std_uuid
      (map (to_logic_condition std_uuid (variation_values std_uuid sample_variation)) [sample_condition])
      sample_attrs = Some r
    \<and> (r = Inr True \<longleftrightarrow> rule_passes std_uuid [sample_condition]
          (variation_values std_uuid sample_variation) sample_attrs)"
  by (rule stored_rule_evaluation)
    (simp_all add: canonical.uuid_laws_axioms sample_defs storable_def uuid_nil_def)

text \<open>C13: LocalEvaluator.Evaluate returns, and its results are exactly the offers of the entries
  (one per variation, or a single one) whose rule passes for the customer.\<close>

theorem evaluate_members:
  assumes "uuid_laws U"
    and "\<And>s r. s \<in> set schedules \<Longrightarrow> sc_rule s = Some r \<Longrightarrow> rule_loaded r"
  shows "\<exists>rs. local_evaluate U pn schedules P leads = Some rs
    \<and> (\<forall>x. x \<in> set rs \<longleftrightarrow> (\<exists>s \<in> set schedules. \<exists>r vals e. sc_rule s = Some r \<and> vals \<in> entry_values U r
        \<and> build_logic_entry U r s (dr_score r) pn vals = Some e
        \<and> rule_passes U (dr_conditions r) vals P
        \<and> x \<in> set (offers (dr_type r = type_sales_target) pn leads e)))"
proof -
  let ?in = "\<lambda>s x. \<exists>r vals e. sc_rule s = Some r \<and> vals \<in> entry_values U r
    \<and> build_logic_entry U r s (dr_score r) pn vals = Some e
    \<and> rule_passes U (dr_conditions r) vals P
    \<and> x \<in> set (offers (dr_type r = type_sales_target) pn leads e)"
  have one: "\<exists>xs. schedule_results U pn P leads s = Some xs \<and> (\<forall>x. x \<in> set xs \<longleftrightarrow> ?in s x)"
    if "s \<in> set schedules" for s
    using uuid_laws.schedule_results_eq [OF assms(1), of s pn P leads] assms(2) [OF that] by metis
  then have "all_some (map (schedule_results U pn P leads) schedules) \<noteq> None"
    unfolding all_some_None by force
  then obtain xss where xss: "all_some (map (schedule_results U pn P leads) schedules) = Some xss"
    by blast
  have "x \<in> set (concat xss) \<longleftrightarrow> (\<exists>s \<in> set schedules. ?in s x)" for x
    unfolding set_concat_all_some [OF xss] using one by (metis option.inject)
  with xss show ?thesis by (simp add: local_evaluate_def)
qed

theorem evaluate_members_witness:
  "\<exists>rs. local_evaluate std_uuid ''home'' [sample_schedule] sample_attrs [sample_lead] = Some rs
    \<and> (\<forall>x. x \<in> set rs \<longleftrightarrow> (\<exists>s \<in> set [sample_schedule]. \<exists>r vals e. sc_rule s = Some r
        \<and> vals \<in> entry_values std_uuid r
        \<and> build_logic_entry std_uuid r s (dr_score r) ''home'' vals = Some e
        \<and> rule_passes std_uuid (dr_conditions r) vals sample_attrs
        \<and> x \<in> set (offers (dr_type r = type_sales_target) ''home'' [sample_lead] e)))"
  by (rule evaluate_members)
    (auto simp: canonical.uuid_laws_axioms sample_schedule_def zero_schedule_def sample_loaded)

text \<open>C14: The results come in descending order of score, as long as no score is NaN.\<close>

theorem evaluate_sorted:
  assumes "local_evaluate U pn schedules P leads = Some rs"
    and "\<And>x. x \<in> set rs \<Longrightarrow> cr_score x \<noteq> NaN"
  shows "sorted_wrt (\<lambda>a b. f64_le (cr_score b) (cr_score a)) rs"
proof -
  from assms(1) obtain xs where xs: "rs = sort_slice score_before xs"
    by (auto simp: local_evaluate_def)
  have "sorted_wrt (\<lambda>a b. \<not> f64_lt (cr_score a) (cr_score b)) rs"
    unfolding xs by (rule sort_by_score) (use assms(2) xs in simp)
  then show ?thesis
  proof (rule sorted_wrt_mono_rel [rotated])
    fix a b assume "a \<in> set rs" "b \<in> set rs" "\<not> f64_lt (cr_score a) (cr_score b)"
    then show "f64_le (cr_score b) (cr_score a)"
      using assms(2) f64_trichotomy [of "cr_score a" "cr_score b"] f64_eq_sym
      unfolding f64_le_def by metis
  qed
qed

definition sample_mass :: "f64 \<Rightarrow> schedule" where
  "sample_mass score = zero_schedule\<lparr>sc_rule := Some (zero_decision_rule\<lparr>dr_type := type_mass, dr_score := score\<rparr>)\<rparr>"

lemma sample_mass_scores:
  "map_option (map cr_score) (local_evaluate std_uuid ''home'' [sample_mass (Fin False 1 0), sample_mass (Fin False 3 0)] None [])
     = Some [Fin False 3 0, Fin False 1 0]"
  by code_simp

theorem evaluate_sorted_witness:
  "\<exists>rs. local_evaluate std_uuid ''home'' [sample_mass (Fin False 1 0), sample_mass (Fin False 3 0)] None [] = Some rs
    \<and> length rs = 2 \<and> sorted_wrt (\<lambda>a b. f64_le (cr_score b) (cr_score a)) rs"
proof -
  obtain rs where rs: "local_evaluate std_uuid ''home'' [sample_mass (Fin False 1 0), sample_mass (Fin False 3 0)] None [] = Some rs"
    and scores: "map cr_score rs = [Fin False 3 0, Fin False 1 0]"
    using sample_mass_scores by auto
  have "cr_score ` set rs = {Fin False 3 0, Fin False 1 0}"
    using scores by (metis list.set_map list.simps(15) empty_set)
  then have "cr_score x \<noteq> NaN" if "x \<in> set rs" for x
    using that by (metis (no_types, lifting) f64.distinct(3) image_eqI insert_iff singletonD)
  with evaluate_sorted [OF rs] rs scores show ?thesis
    by (metis length_map length_Cons list.size(3) numeral_2_eq_2)
qed

lemma result_source:
  assumes "local_evaluate U pn schedules P leads = Some rs" and "x \<in> set rs"
  shows "cr_source x = pn"
proof -
  from assms obtain s r vals e where e: "build_logic_entry U r s (dr_score r) pn vals = Some e"
    and x: "x \<in> set (offers (dr_type r = type_sales_target) pn leads e)"
    by (rule result_origin)
  then show ?thesis using offers_source [OF x] by (simp add: build_logic_entry_fields [OF e])
qed

text \<open>A result of a sales-target rule is made from a lead that lists the placement.\<close>

lemma sales_result_lead:
  assumes "local_evaluate U pn schedules P leads = Some rs" and "x \<in> set rs"
    and "cr_rule_type x = type_sales_target"
  shows "\<exists>l \<in> set leads. lead_matches_placement l pn \<and> cr_content_path x = ld_content_id l
    \<and> cr_start x = ld_sla_start l \<and> cr_end x = ld_sla_end l \<and> cr_campaign_code x = Some (ld_csvm_code l)"
proof -
  from assms(1,2) obtain s r vals e where e: "build_logic_entry U r s (dr_score r) pn vals = Some e"
    and x: "x \<in> set (offers (dr_type r = type_sales_target) pn leads e)"
    by (rule result_origin)
  have "cr_rule_type x = cr_rule_type e"
    using x by (auto simp: offers_def expand_with_leads_def Let_def split: if_splits)
  with assms(3) e have "dr_type r = type_sales_target"
    by (simp add: build_logic_entry_fields)
  with x show ?thesis
    by (auto simp: offers_def expand_with_leads_def Let_def)
qed

text \<open>C12: A sales-target rule yields nothing but its leads: every result of that type carries the
  content and the period of a lead that lists the placement.\<close>

theorem sales_target_needs_lead:
  assumes "local_evaluate U pn schedules P leads = Some rs" and "x \<in> set rs"
    and "cr_rule_type x = type_sales_target"
  shows "\<exists>l \<in> set leads. lead_matches_placement l pn \<and> cr_content_path x = ld_content_id l
    \<and> cr_start x = ld_sla_start l \<and> cr_end x = ld_sla_end l \<and> cr_campaign_code x = Some (ld_csvm_code l)"
  by (rule sales_result_lead [OF assms])

lemma sample_sales_results:
  "map_option (map (\<lambda>x. (cr_rule_type x, cr_content_path x)))
     (local_evaluate std_uuid ''home'' [zero_schedule\<lparr>sc_rule := Some (zero_decision_rule\<lparr>dr_type := type_sales_target\<rparr>)\<rparr>]
        None [sample_lead]) = Some [(type_sales_target, ''offer'')]"
  by code_simp

theorem sales_target_needs_lead_witness:
  "\<exists>l \<in> set [sample_lead]. lead_matches_placement l ''home'' \<and> ld_content_id l = ''offer''"
proof -
  obtain rs where rs: "local_evaluate std_uuid ''home''
      [zero_schedule\<lparr>sc_rule := Some (zero_decision_rule\<lparr>dr_type := type_sales_target\<rparr>)\<rparr>] None [sample_lead] = Some rs"
    and scores: "map (\<lambda>x. (cr_rule_type x, cr_content_path x)) rs = [(type_sales_target, ''offer'')]"
    using sample_sales_results by auto
  then obtain x where "x \<in> set rs" "cr_rule_type x = type_sales_target" "cr_content_path x = ''offer''"
    by auto
  with sales_target_needs_lead [OF rs] show ?thesis by metis
qed

section \<open>The condition tree\<close>



text \<open>C25: For conditions with distinct ids the logic expression and both hashes exist and do not
  depend on the order in which the conditions were loaded.\<close>

theorem logic_hash_stable:
  assumes "uuid_laws U" and "distinct (map bm_id cs)" and "mset cs = mset cs'"
  shows "build_logic_expression U cs expected \<noteq> None
    \<and> build_logic_expression U cs' expected = build_logic_expression U cs expected
    \<and> generate_logic_hash U cs' expected = generate_logic_hash U cs expected
    \<and> generate_condition_hash U cs' = generate_condition_hash U cs"
proof -
  have expr: "build_logic_expression U cs' expected = build_logic_expression U cs expected"
    using uuid_laws.canonical_of_perm [OF assms(1,3,2)] assms(3)
    by (auto simp: build_logic_expression_def)
  have "(cs = []) = (cs' = [])" using assms(3) by auto
  moreover have "(filter (\<lambda>c. parent_key U c = []) cs = []) = (filter (\<lambda>c. parent_key U c = []) cs' = [])"
    using mset_filter_eq [OF assms(3)] by (metis mset_zero_iff)
  ultimately have "generate_condition_hash U cs' = generate_condition_hash U cs"
    using uuid_laws.canonical_of_perm [OF assms(1,3,2)]
    by (simp add: generate_condition_hash_def)
  with expr uuid_laws.build_logic_expression_total [OF assms(1,2)] show ?thesis
    by (simp add: generate_logic_hash_def)
qed

theorem logic_hash_stable_witness:
  "build_logic_expression std_uuid [zero_rule_condition, sample_condition] Map.empty \<noteq> None
    \<and> build_logic_expression std_uuid [sample_condition, zero_rule_condition] Map.empty
        = build_logic_expression std_uuid [zero_rule_condition, sample_condition] Map.empty
    \<and> generate_logic_hash std_uuid [sample_condition, zero_rule_condition] Map.empty
        = generate_logic_hash std_uuid [zero_rule_condition, sample_condition] Map.empty
    \<and> generate_condition_hash std_uuid [sample_condition, zero_rule_condition]
        = generate_condition_hash std_uuid [zero_rule_condition, sample_condition]"
  by (rule logic_hash_stable)
    (simp_all add: canonical.uuid_laws_axioms sample_condition_def zero_rule_condition_def)



section \<open>Depth\<close>

text \<open>Below level four nothing is looked at: the value of a node at that depth is its own check
  whatever the index says, and a group container there is true.\<close>

theorem depth_limit:
  assumes "max_condition_depth \<le> depth"
  shows "eval_node U bp c depth =
    (case rc_attribute_id c of None \<Rightarrow> ret (Inr True) | Some a \<Rightarrow> evaluate_single U c a)"
  using assms by (subst eval_node.simps) simp

theorem depth_limit_witness:
  "eval_node std_uuid [(std_string 1, [zero_rule_condition])] (zero_rule_condition\<lparr>bm_id := 1\<rparr>) 4 = ret (Inr True)"
  using depth_limit [of 4 std_uuid "[(std_string 1, [zero_rule_condition])]" "zero_rule_condition\<lparr>bm_id := 1\<rparr>"]
  by (simp add: max_condition_depth_def zero_rule_condition_def)

section \<open>Special expected values\<close>

lemma attr_value_Some [simp]: "attr_value (Some m) k = m k"
  by (simp add: attr_value_def)

text \<open>The expected value ANY, in any case and with blanks around it, matches every customer of
  a text or number attribute, also one who does not have the attribute.\<close>

theorem any_matches:
  assumes "E (uuid_string U a) = Some raw" and "extract_sentinel raw = SentinelAny"
    and "rc_attribute c = Some att" and "at_data_type att = dt_text \<or> at_data_type att = dt_number"
  shows "condition_result U E (Some P) c a = Inr True"
  using assms by (auto simp: condition_result_spec spec_single_def spec_sentinel_def Let_def)

definition quoted :: "string \<Rightarrow> string" where
  "quoted s = CHR 0x22 # s @ [CHR 0x22]"

theorem any_matches_witness:
  "condition_result std_uuid [std_string 2 \<mapsto> quoted '' aNy ''] (Some Map.empty) sample_condition 2 = Inr True"
proof (rule any_matches [where att = "zero_attribute\<lparr>at_data_type := dt_number\<rparr>"])
  show "[std_string 2 \<mapsto> quoted '' aNy ''] (uuid_string std_uuid 2) = Some (quoted '' aNy '')"
    by (simp add: std_uuid_def)
  show "extract_sentinel (quoted '' aNy '') = SentinelAny" by code_simp
qed (simp_all add: sample_condition_def)

text \<open>The expected value NULL tests for the absence of a value: with = it holds of a customer
  without the attribute or with JSON null, with != of the others, and with any other operator
  of nobody.\<close>

theorem null_sentinel:
  assumes "E (uuid_string U a) = Some raw" and "extract_sentinel raw = SentinelNull"
    and "rc_attribute c = Some att" and "at_data_type att = dt_text \<or> at_data_type att = dt_number"
  shows "condition_result U E (Some P) c a =
    Inr (if rc_operator c = op_eq then attr_null (Some P) (uuid_string U a)
         else rc_operator c = op_neq \<and> \<not> attr_null (Some P) (uuid_string U a))"
  using assms by (auto simp: condition_result_spec spec_single_def spec_sentinel_def Let_def)

theorem null_sentinel_witness:
  "condition_result std_uuid [std_string 2 \<mapsto> quoted ''null''] (Some Map.empty)
     (sample_condition\<lparr>rc_operator := op_eq\<rparr>) 2 = Inr True"
proof -
  have "condition_result std_uuid [std_string 2 \<mapsto> quoted ''null''] (Some Map.empty)
      (sample_condition\<lparr>rc_operator := op_eq\<rparr>) 2
    = Inr (if rc_operator (sample_condition\<lparr>rc_operator := op_eq\<rparr>) = op_eq
           then attr_null (Some Map.empty) (uuid_string std_uuid 2)
           else rc_operator (sample_condition\<lparr>rc_operator := op_eq\<rparr>) = op_neq
             \<and> \<not> attr_null (Some Map.empty) (uuid_string std_uuid 2))"
  proof (rule null_sentinel [where att = "zero_attribute\<lparr>at_data_type := dt_number\<rparr>"])
    show "[std_string 2 \<mapsto> quoted ''null''] (uuid_string std_uuid 2) = Some (quoted ''null'')"
      by (simp add: std_uuid_def)
    show "extract_sentinel (quoted ''null'') = SentinelNull" by code_simp
  qed (simp_all add: sample_condition_def)
  then show ?thesis by (simp add: sample_condition_def attr_null_def)
qed

text \<open>A caret list of texts makes = membership and != its complement, for every customer whose
  value is a JSON string; for the others neither matches.\<close>

theorem caret_list_complement:
  assumes "E (uuid_string U a) = Some raw" and "extract_sentinel raw = SentinelList payload"
    and "split_caret_tokens payload \<noteq> []"
    and "rc_attribute c = Some att" and "at_data_type att = dt_text" and "P (uuid_string U a) = Some actual"
  shows "condition_result U E (Some P) (c\<lparr>rc_operator := op_eq\<rparr>) a =
      Inr (snd (raw_str actual) \<and> list_ex (\<lambda>t. equal_fold t (fst (raw_str actual))) (split_caret_tokens payload))
    \<and> condition_result U E (Some P) (c\<lparr>rc_operator := op_neq\<rparr>) a =
      Inr (snd (raw_str actual) \<and> \<not> list_ex (\<lambda>t. equal_fold t (fst (raw_str actual))) (split_caret_tokens payload))"
proof -
  have "op_neq \<noteq> op_eq" "op_neq \<noteq> op_in" by (simp_all add: op_defs)
  with assms show ?thesis
    by (simp add: condition_result_spec spec_single_def spec_sentinel_def raw_read_def list_match_def
        Let_def split_beta)
qed

theorem caret_list_complement_witness:
  "condition_result std_uuid [std_string 2 \<mapsto> quoted ''gold^ silver''] (Some [std_string 2 \<mapsto> quoted ''SILVER''])
     (sample_condition\<lparr>rc_attribute := Some (zero_attribute\<lparr>at_data_type := dt_text\<rparr>), rc_operator := op_eq\<rparr>) 2 = Inr True"
proof -
  let ?c = "sample_condition\<lparr>rc_attribute := Some (zero_attribute\<lparr>at_data_type := dt_text\<rparr>)\<rparr>"
  have "snd (raw_str (quoted ''SILVER'')) \<and>
      list_ex (\<lambda>t. equal_fold t (fst (raw_str (quoted ''SILVER'')))) (split_caret_tokens ''gold^ silver'')"
    by code_simp
  moreover have "extract_sentinel (quoted ''gold^ silver'') = SentinelList ''gold^ silver''"
    and "split_caret_tokens ''gold^ silver'' \<noteq> []" by code_simp+
  ultimately show ?thesis
    using caret_list_complement [of "[std_string 2 \<mapsto> quoted ''gold^ silver'']" std_uuid 2 "quoted ''gold^ silver''"
        "''gold^ silver''" ?c "zero_attribute\<lparr>at_data_type := dt_text\<rparr>" "[std_string 2 \<mapsto> quoted ''SILVER'']"
        "quoted ''SILVER''"]
    by (simp add: std_uuid_def)
qed

text \<open>A customer who lacks the attribute never matches a condition without a special expected
  value, whatever its operator, and this is not an error.\<close>

theorem missing_attribute_no_match:
  assumes "P (uuid_string U a) = None" and "rc_attribute c = Some att"
    and "\<And>raw. E (uuid_string U a) = Some raw \<Longrightarrow> extract_sentinel raw = SentinelNone"
  shows "condition_result U E (Some P) c a = Inr False"
  using assms by (auto simp: condition_result_spec spec_single_def spec_sentinel_def Let_def split: option.split)

theorem missing_attribute_no_match_witness:
  "condition_result std_uuid [std_string 2 \<mapsto> ''10''] (Some Map.empty) (sample_condition\<lparr>rc_operator := op_neq\<rparr>) 2 = Inr False"
proof (rule missing_attribute_no_match)
  show "rc_attribute (sample_condition\<lparr>rc_operator := op_neq\<rparr>) = Some (zero_attribute\<lparr>at_data_type := dt_number\<rparr>)"
    by (simp add: sample_condition_def)
  have "extract_sentinel ''10'' = SentinelNone" by code_simp
  then show "extract_sentinel raw = SentinelNone"
    if "[std_string 2 \<mapsto> ''10''] (uuid_string std_uuid 2) = Some raw" for raw
    using that by (simp add: std_uuid_def)
qed simp

section \<open>Comparisons\<close>

text \<open>On numbers the six comparisons agree with one order: exactly one of <, = and > holds, and
  !=, <= and >= are made of them.\<close>

theorem number_comparisons_consistent:
  assumes "E (uuid_string U a) = Some e" and "raw_num e = (y, True)" and "y \<noteq> NaN"
    and "P (uuid_string U a) = Some v" and "raw_num v = (x, True)" and "x \<noteq> NaN"
    and "rc_attribute c = Some att" and "at_data_type att = dt_number" and "extract_sentinel e = SentinelNone"
  shows "\<exists>lt eq gt. condition_result U E (Some P) (c\<lparr>rc_operator := op_lt\<rparr>) a = Inr lt
    \<and> condition_result U E (Some P) (c\<lparr>rc_operator := op_eq\<rparr>) a = Inr eq
    \<and> condition_result U E (Some P) (c\<lparr>rc_operator := op_gt\<rparr>) a = Inr gt
    \<and> condition_result U E (Some P) (c\<lparr>rc_operator := op_lte\<rparr>) a = Inr (lt \<or> eq)
    \<and> condition_result U E (Some P) (c\<lparr>rc_operator := op_gte\<rparr>) a = Inr (gt \<or> eq)
    \<and> condition_result U E (Some P) (c\<lparr>rc_operator := op_neq\<rparr>) a = Inr (\<not> eq)
    \<and> (lt \<or> eq \<or> gt) \<and> \<not> (lt \<and> eq) \<and> \<not> (lt \<and> gt) \<and> \<not> (eq \<and> gt)"
proof -
  have res: "condition_result U E (Some P) (c\<lparr>rc_operator := op\<rparr>) a = Inr (num_test op x y)"
    if "is_order_op op" for op
    using assms that dt_distinct(1) [symmetric]
    by (simp add: condition_result_spec spec_single_def spec_sentinel_def spec_compare_def on_actual_def
        spec_number_def raw_read_def Let_def split_beta)
  have ops: "is_order_op op_lt" "is_order_op op_eq" "is_order_op op_gt" "is_order_op op_lte"
    "is_order_op op_gte" "is_order_op op_neq" by (simp_all add: is_order_op_def)
  have tests: "num_test op_lt x y = f64_lt x y" "num_test op_eq x y = f64_eq x y"
    "num_test op_gt x y = f64_lt y x" "num_test op_lte x y = (f64_lt x y \<or> f64_eq x y)"
    "num_test op_gte x y = (f64_lt y x \<or> f64_eq x y)" "num_test op_neq x y = (\<not> f64_eq x y)"
    by (auto simp: num_test_def op_defs f64_le_def f64_eq_sym)
  have order: "(f64_lt x y \<or> f64_eq x y \<or> f64_lt y x) \<and> \<not> (f64_lt x y \<and> f64_eq x y)
      \<and> \<not> (f64_lt x y \<and> f64_lt y x) \<and> \<not> (f64_eq x y \<and> f64_lt y x)"
    using f64_trichotomy [OF assms(6,3)] f64_eq_not_lt [of x y] f64_eq_not_lt [of y x] f64_lt_asym [of x y]
      f64_eq_sym [of x y] by blast
  show ?thesis
    by (rule exI [of _ "f64_lt x y"], rule exI [of _ "f64_eq x y"], rule exI [of _ "f64_lt y x"])
      (intro conjI, simp_all only: res [OF ops(1)] res [OF ops(2)] res [OF ops(3)] res [OF ops(4)]
        res [OF ops(5)] res [OF ops(6)] tests, (use order in blast)+)
qed

theorem number_comparisons_consistent_witness:
  "\<exists>lt eq gt. condition_result std_uuid [std_string 2 \<mapsto> ''10''] (Some [std_string 2 \<mapsto> ''0'']) (sample_condition\<lparr>rc_operator := op_lt\<rparr>) 2 = Inr lt
    \<and> condition_result std_uuid [std_string 2 \<mapsto> ''10''] (Some [std_string 2 \<mapsto> ''0'']) (sample_condition\<lparr>rc_operator := op_eq\<rparr>) 2 = Inr eq
    \<and> condition_result std_uuid [std_string 2 \<mapsto> ''10''] (Some [std_string 2 \<mapsto> ''0'']) (sample_condition\<lparr>rc_operator := op_gt\<rparr>) 2 = Inr gt
    \<and> (lt \<or> eq \<or> gt)"
proof -
  obtain y where y: "raw_num ''10'' = (y, True)" "y \<noteq> NaN"
  proof -
    have "snd (raw_num ''10'') \<and> fst (raw_num ''10'') \<noteq> NaN" by code_simp
    then show ?thesis using that [of "fst (raw_num ''10'')"] by (simp add: prod_eq_iff)
  qed
  have x: "raw_num ''0'' = (f64_zero, True)" and none: "extract_sentinel ''10'' = SentinelNone" by code_simp+
  from number_comparisons_consistent [of "[std_string 2 \<mapsto> ''10'']" std_uuid 2 "''10''" y
      "[std_string 2 \<mapsto> ''0'']" "''0''" f64_zero sample_condition "zero_attribute\<lparr>at_data_type := dt_number\<rparr>"]
  show ?thesis
    using x y none by (simp add: std_uuid_def sample_condition_def f64_zero_def) blast
qed

text \<open>A number attribute whose value is JSON null compares as zero: null satisfies <= 0 and the
  like, since decoding null leaves the zero value and reports success.\<close>

theorem null_number_is_zero:
  assumes "E (uuid_string U a) = Some e" and "raw_num e = (y, True)" and "extract_sentinel e = SentinelNone"
    and "P (uuid_string U a) = Some ''null''" and "rc_attribute c = Some att"
    and "at_data_type att = dt_number" and "is_order_op (rc_operator c)"
  shows "condition_result U E (Some P) c a = Inr (num_test (rc_operator c) f64_zero y)"
proof -
  have "raw_num ''null'' = (f64_zero, True)" by code_simp
  with assms dt_distinct(1) [symmetric] show ?thesis
    by (simp add: condition_result_spec spec_single_def spec_sentinel_def spec_compare_def on_actual_def
        spec_number_def raw_read_def Let_def split_beta)
qed

theorem null_number_is_zero_witness:
  "condition_result std_uuid [std_string 2 \<mapsto> ''0''] (Some [std_string 2 \<mapsto> ''null''])
     (sample_condition\<lparr>rc_operator := op_lte\<rparr>) 2 = Inr True"
proof -
  have "raw_num ''0'' = (f64_zero, True)" and "extract_sentinel ''0'' = SentinelNone" by code_simp+
  moreover have "num_test op_lte f64_zero f64_zero" by code_simp
  ultimately show ?thesis
    using null_number_is_zero [of "[std_string 2 \<mapsto> ''0'']" std_uuid 2 "''0''" f64_zero
        "[std_string 2 \<mapsto> ''null'']" "sample_condition\<lparr>rc_operator := op_lte\<rparr>" "zero_attribute\<lparr>at_data_type := dt_number\<rparr>"]
    by (simp add: std_uuid_def sample_condition_def is_order_op_def)
qed

end
