(* ===== verification/Cache_Memory.thy ===== *)
theory Cache_Memory
  imports Prelude Go_Time Go_Float "HOL-Library.Word"
begin

text \<open>
  src/internal/infrastructure/cache: the in-process cache CacheMemory and the memory monitor
  its instances share. The store behind it, github.com/patrickmn/go-cache, is a parameter:
  its operations are the fields of a record, and the locale states their documented
  behaviour (an item is found until its lifetime is over; a lifetime of zero stands for the
  cache's default, a negative one, also as default, for an item that never expires). Instants
  are nanoseconds since 1970. The Prometheus counters and gauges of the package are left out.
\<close>

section \<open>The store\<close>

record ('c, 'v) go_cache =
  gc_default :: duration
  gc_get :: "'c \<Rightarrow> int \<Rightarrow> string \<Rightarrow> 'v option"
  gc_set :: "'c \<Rightarrow> int \<Rightarrow> string \<Rightarrow> 'v \<Rightarrow> duration \<Rightarrow> 'c"
  gc_delete :: "'c \<Rightarrow> string \<Rightarrow> 'c"
  gc_flush :: "'c \<Rightarrow> 'c"
  gc_items :: "'c \<Rightarrow> int \<Rightarrow> string list"

text \<open>Whether an item stored at one instant is still there at another.\<close>

definition alive :: "duration \<Rightarrow> int \<Rightarrow> duration \<Rightarrow> int \<Rightarrow> bool" where
  "alive dflt stored d now =
     (let d' = (if d = 0 then dflt else d) in d' \<le> 0 \<or> now \<le> stored + d')"

lemma alive_now [simp]: "alive dflt now d now"
  unfolding alive_def Let_def by auto

lemma alive_mono: "alive dflt stored d now' \<Longrightarrow> now \<le> now' \<Longrightarrow> alive dflt stored d now"
  by (auto simp: alive_def Let_def)

locale go_cache_laws =
  fixes G :: "('c, 'v) go_cache"
  assumes get_set: "gc_get G (gc_set G c now k v d) now' k' =
      (if k' = k then (if alive (gc_default G) now d now' then Some v else None)
       else gc_get G c now' k')"
    and get_delete: "gc_get G (gc_delete G c k) now k' = (if k' = k then None else gc_get G c now k')"
    and get_flush: "gc_get G (gc_flush G c) now k = None"
    and get_later: "now \<le> now' \<Longrightarrow> gc_get G c now' k = None \<or> gc_get G c now' k = gc_get G c now k"
    and set_items: "set (gc_items G c now) = {k. gc_get G c now k \<noteq> None}"
    and distinct_items: "distinct (gc_items G c now)"

section \<open>MemoryMonitor\<close>

record memory_monitor =
  mm_max_pct :: f64
  mm_stopped :: bool
  mm_under_pressure :: bool
  mm_last_used_pct :: f64

definition new_memory_monitor :: "f64 \<Rightarrow> memory_monitor" where
  "new_memory_monitor max_pct =
     \<lparr>mm_max_pct = max_pct, mm_stopped = False, mm_under_pressure = False, mm_last_used_pct = f64_zero\<rparr>"

definition is_under_pressure :: "memory_monitor \<Rightarrow> bool" where
  "is_under_pressure mm = mm_under_pressure mm"

definition monitor_status :: "memory_monitor \<Rightarrow> bool \<times> f64" where
  "monitor_status mm = (mm_under_pressure mm, mm_last_used_pct mm)"

text \<open>The channel is closed once, however often Stop is called.\<close>

definition monitor_stop :: "memory_monitor \<Rightarrow> memory_monitor" where
  "monitor_stop mm = (if mm_stopped mm then mm else mm\<lparr>mm_stopped := True\<rparr>)"

text \<open>
  One turn of the loop on the ticker's channel, for the readings HeapInuse and HeapSys; the
  second component tells whether it asks for a garbage collection.
\<close>

definition critical_pct :: f64 where
  "critical_pct = f64_div (f64_of_nat 8) (f64_of_nat 10)"

definition monitor_tick :: "64 word \<Rightarrow> 64 word \<Rightarrow> memory_monitor \<Rightarrow> memory_monitor \<times> bool" where
  "monitor_tick heap_inuse heap_sys mm =
     (if heap_sys = 0 then (mm, False)
      else
        let used_pct = f64_div (f64_of_nat (unat heap_inuse)) (f64_of_nat (unat heap_sys)) in
        (mm\<lparr>mm_last_used_pct := used_pct, mm_under_pressure := f64_lt (mm_max_pct mm) used_pct\<rparr>,
         f64_lt critical_pct used_pct))"

text \<open>The whole loop: the readings of the ticks that come before the stop channel closes.\<close>

datatype monitor_event = Tick "64 word" "64 word" | Stop_Closed

fun monitor_run :: "memory_monitor \<Rightarrow> monitor_event list \<Rightarrow> memory_monitor" where
  "monitor_run mm [] = mm"
| "monitor_run mm (Tick inuse sys # es) = monitor_run (fst (monitor_tick inuse sys mm)) es"
| "monitor_run mm (Stop_Closed # es) = mm"

text \<open>The flag always agrees with the last measurement, before the first tick as well.\<close>

definition monitor_ok :: "memory_monitor \<Rightarrow> bool" where
  "monitor_ok mm =
     (mm_under_pressure mm = f64_lt (mm_max_pct mm) (mm_last_used_pct mm))"

lemma monitor_ok_new: "\<not> f64_lt max_pct f64_zero \<Longrightarrow> monitor_ok (new_memory_monitor max_pct)"
  by (simp add: monitor_ok_def new_memory_monitor_def)

lemma monitor_ok_tick [inv_intros]: "monitor_ok mm \<Longrightarrow> monitor_ok (fst (monitor_tick inuse sys mm))"
  by (simp add: monitor_ok_def monitor_tick_def Let_def)

lemma monitor_ok_stop [inv_intros]: "monitor_ok mm \<Longrightarrow> monitor_ok (monitor_stop mm)"
  by (simp add: monitor_ok_def monitor_stop_def)

lemma monitor_ok_run: "monitor_ok mm \<Longrightarrow> monitor_ok (monitor_run mm es)"
  by (induction mm es rule: monitor_run.induct) (simp_all add: inv_intros)

lemma monitor_stop_idem [simp]: "monitor_stop (monitor_stop mm) = monitor_stop mm"
  by (simp add: monitor_stop_def)

section \<open>CacheMemory\<close>

text \<open>The operations of CacheMemory on its store; the monitor is shared, hence an argument.\<close>

definition cm_get :: "('c, 'v) go_cache \<Rightarrow> int \<Rightarrow> 'c \<Rightarrow> string \<Rightarrow> 'v option" where
  "cm_get G now c k = gc_get G c now k"

definition cm_set ::
  "('c, 'v) go_cache \<Rightarrow> memory_monitor \<Rightarrow> int \<Rightarrow> duration \<Rightarrow> string \<Rightarrow> 'v \<Rightarrow> 'c \<Rightarrow> 'c" where
  "cm_set G mm now ttl k v c =
     (if is_under_pressure mm \<and> gc_get G c now k = None then c else gc_set G c now k v ttl)"

definition cm_delete :: "('c, 'v) go_cache \<Rightarrow> string \<Rightarrow> 'c \<Rightarrow> 'c" where
  "cm_delete G k c = gc_delete G c k"

definition cm_clear :: "('c, 'v) go_cache \<Rightarrow> 'c \<Rightarrow> 'c" where
  "cm_clear G c = gc_flush G c"

definition cm_keys :: "('c, 'v) go_cache \<Rightarrow> int \<Rightarrow> 'c \<Rightarrow> string list" where
  "cm_keys G now c = gc_items G c now"

definition cm_status :: "memory_monitor \<Rightarrow> bool \<times> f64" where
  "cm_status mm = monitor_status mm"

section \<open>What the mirror relies on\<close>

text \<open>
  A keyed store that may refuse new keys: the contract of CacheMemory at one instant, for one
  state of the monitor and one lifetime.
\<close>

locale bounded_store =
  fixes get :: "'c \<Rightarrow> string \<Rightarrow> 'v option"
    and put :: "string \<Rightarrow> 'v \<Rightarrow> 'c \<Rightarrow> 'c"
    and del :: "string \<Rightarrow> 'c \<Rightarrow> 'c"
    and keys :: "'c \<Rightarrow> string list"
    and refusing :: bool
  assumes get_put: "get (put k v c) k' =
      (if k' = k \<and> \<not> (refusing \<and> get c k = None) then Some v else get c k')"
    and get_del: "get (del k c) k' = (if k' = k then None else get c k')"
    and set_keys: "set (keys c) = {k. get c k \<noteq> None}"
begin

definition put_all :: "(string \<times> 'v) list \<Rightarrow> 'c \<Rightarrow> 'c" where
  "put_all kvs c = foldl (\<lambda>c (k, v). put k v c) c kvs"

definition del_all :: "string list \<Rightarrow> 'c \<Rightarrow> 'c" where
  "del_all ks c = foldl (\<lambda>c k. del k c) c ks"

lemma get_del_all: "get (del_all ks c) k = (if k \<in> set ks then None else get c k)"
  by (induction ks arbitrary: c) (auto simp: del_all_def get_del)

lemma del_all_filter:
  "foldl (\<lambda>c k. if P k then c else del k c) c ks = del_all (filter (\<lambda>k. \<not> P k) ks) c"
  by (induction ks arbitrary: c) (simp_all add: del_all_def)

lemma get_put_all:
  assumes "gm_ok kvs"
  shows "get (put_all kvs c) k =
    (case gm_get kvs k of None \<Rightarrow> get c k
     | Some v \<Rightarrow> if refusing \<and> get c k = None then None else Some v)"
  using assms
proof (induction kvs arbitrary: c)
  case (Cons kv kvs)
  obtain k' v where kv: "kv = (k', v)" by fastforce
  from Cons.prems have "gm_ok kvs" and fresh: "gm_get kvs k' = None"
    by (auto simp: kv gm_ok_def gm_get_def map_of_eq_None_iff)
  have "put_all (kv # kvs) c = put_all kvs (put k' v c)" by (simp add: put_all_def kv)
  with Cons.IH [OF \<open>gm_ok kvs\<close>, of "put k' v c"] fresh show ?case
    by (auto simp: kv get_put gm_get_def split: option.split)
qed (simp add: put_all_def)

lemma put_refused: "refusing \<Longrightarrow> {j. get (put k v c) j \<noteq> None} = {j. get c j \<noteq> None}"
  by (auto simp: get_put)

end

text \<open>CacheMemory meets the contract, whatever the instant, the monitor and the lifetime.\<close>

locale cache_at = go_cache_laws G for G :: "('c, 'v) go_cache" +
  fixes mm :: memory_monitor and now :: int and ttl :: duration

sublocale cache_at \<subseteq> store: bounded_store "cm_get G now" "cm_set G mm now ttl" "cm_delete G"
  "cm_keys G now" "is_under_pressure mm"
  by unfold_locales
    (auto simp: cm_get_def cm_set_def cm_delete_def cm_keys_def get_set get_delete set_items)

section \<open>Facts about every entry\<close>

text \<open>A property of all the entries a store answers with, at whatever instant.\<close>

definition cache_all :: "('c, 'v) go_cache \<Rightarrow> (string \<Rightarrow> 'v \<Rightarrow> bool) \<Rightarrow> 'c \<Rightarrow> bool" where
  "cache_all G P c = (\<forall>now k v. gc_get G c now k = Some v \<longrightarrow> P k v)"

lemma cache_all_mono: "cache_all G P c \<Longrightarrow> (\<And>k v. P k v \<Longrightarrow> Q k v) \<Longrightarrow> cache_all G Q c"
  by (auto simp: cache_all_def)

lemma cache_allD: "cache_all G P c \<Longrightarrow> cm_get G now c k = Some v \<Longrightarrow> P k v"
  by (auto simp: cache_all_def cm_get_def)

context go_cache_laws
begin

lemma cache_all_set [inv_intros]:
  "cache_all G P c \<Longrightarrow> P k v \<Longrightarrow> cache_all G P (cm_set G mm now ttl k v c)"
  by (auto simp: cache_all_def cm_set_def get_set split: if_splits)

lemma cache_all_delete [inv_intros]: "cache_all G P c \<Longrightarrow> cache_all G P (cm_delete G k c)"
  by (auto simp: cache_all_def cm_delete_def get_delete split: if_splits)

lemma cache_all_clear [inv_intros]: "cache_all G P (cm_clear G c)"
  by (simp add: cache_all_def cm_clear_def get_flush)

lemma cm_get_delete: "cm_get G now (cm_delete G k c) = (cm_get G now c)(k := None)"
  by (simp add: fun_eq_iff cm_get_def cm_delete_def get_delete)

lemma cm_get_clear: "cm_get G now (cm_clear G c) = Map.empty"
  by (simp add: fun_eq_iff cm_get_def cm_clear_def get_flush)

lemma cm_get_set:
  "\<not> is_under_pressure mm \<Longrightarrow> cm_get G now (cm_set G mm now ttl k v c) = (cm_get G now c)(k \<mapsto> v)"
  by (simp add: fun_eq_iff cm_get_def cm_set_def get_set)

end

section \<open>A store that meets the laws\<close>

text \<open>
  Items with the last instant at which they are found. One type of stores serves several
  value types: \<open>box\<close> and \<open>unbox\<close> go to and from the type of everything stored.
\<close>

type_synonym 'a std_store = "(string, 'a \<times> int option) gomap"

definition std_get :: "('a \<Rightarrow> 'v option) \<Rightarrow> 'a std_store \<Rightarrow> int \<Rightarrow> string \<Rightarrow> 'v option" where
  "std_get unbox c now k =
     (case gm_get c k of
        None \<Rightarrow> None
      | Some (x, e) \<Rightarrow> (case e of None \<Rightarrow> unbox x | Some t \<Rightarrow> if now \<le> t then unbox x else None))"

definition std_cache ::
  "duration \<Rightarrow> ('v \<Rightarrow> 'a) \<Rightarrow> ('a \<Rightarrow> 'v option) \<Rightarrow> ('a std_store, 'v) go_cache" where
  "std_cache dflt box unbox =
     \<lparr>gc_default = dflt,
      gc_get = std_get unbox,
      gc_set = (\<lambda>c now k v d.
        let d' = (if d = 0 then dflt else d) in
        gm_put k (box v, if d' \<le> 0 then None else Some (now + d')) c),
      gc_delete = (\<lambda>c k. filter (\<lambda>kv. fst kv \<noteq> k) c),
      gc_flush = (\<lambda>c. []),
      gc_items = (\<lambda>c now. remdups (filter (\<lambda>k. std_get unbox c now k \<noteq> None) (gm_keys c)))\<rparr>"

lemma gm_get_filter: "gm_get (filter (\<lambda>kv. fst kv \<noteq> k) c) k' = (if k' = k then None else gm_get c k')"
  by (induction c) (auto simp: gm_get_def)

lemma std_cache_laws:
  assumes "\<And>v. unbox (box v) = Some v"
  shows "go_cache_laws (std_cache dflt box unbox)"
proof
  show "set (gc_items (std_cache dflt box unbox) c now) =
      {k. gc_get (std_cache dflt box unbox) c now k \<noteq> None}" for c now
    by (auto simp: std_cache_def set_gm_keys std_get_def split: option.splits)
qed (auto simp: std_cache_def std_get_def assms alive_def Let_def gm_get_filter split: option.splits)

definition plain_cache :: "(string std_store, string) go_cache" where
  "plain_cache = std_cache (24 * hour_ns) (\<lambda>s. s) Some"

interpretation plain: cache_at plain_cache mm now ttl for mm now ttl
  unfolding plain_cache_def cache_at_def by (rule std_cache_laws) simp

end
