(* ===== verification/Memory_Mirror.thy ===== *)
theory Memory_Mirror
  imports Cache_Memory Entities Go_Sha256 "HOL-Library.Monad_Syntax"
begin

text \<open>
  MemoryCache of src/cmd/server/service/cms_delivery_service.go: the in-memory mirror of the
  active schedules and their rules, with UpdateSchedules, PruneOrphanedRules and getStatus.
  The schedules are shared: the mirror stores pointers, and the request path writes through
  them. A pointer is an index into the heap of schedules, a list. The caches of the mirror
  are pointers too and may be nil; None as the result of an operation is a panic of the
  program (here: the use of a nil cache). The Prometheus gauge of the placements' versions
  is seen through the sequence of calls on it.
\<close>

section \<open>The heap of schedules\<close>

type_synonym sched_ptr = nat
type_synonym heap = "schedule list"

definition deref :: "heap \<Rightarrow> sched_ptr \<Rightarrow> schedule" where
  "deref h p = (if p < length h then h ! p else zero_schedule)"

text \<open>New objects, and the pointers to them.\<close>

definition alloc :: "schedule list \<Rightarrow> heap \<Rightarrow> sched_ptr list \<times> heap" where
  "alloc ss h = ([length h ..< length h + length ss], h @ ss)"

text \<open>\<open>p.DecisionRule = rule\<close>.\<close>

definition attach_rule :: "sched_ptr \<Rightarrow> decision_rule \<Rightarrow> heap \<Rightarrow> heap" where
  "attach_rule p r h = (if p < length h then h[p := (h ! p)\<lparr>sc_rule := Some r\<rparr>] else h)"

section \<open>Keys and versions\<close>

definition schedules_key :: "string \<Rightarrow> string" where
  "schedules_key name = ''schedules:placement:'' @ name"

definition rule_cache_key :: "string \<Rightarrow> string" where
  "rule_cache_key rule_id = ''rule:'' @ rule_id"

text \<open>The time's String form names the local zone, hence \<open>time_string\<close> is an argument.\<close>

definition compute_placement_hash ::
  "uuid_ops \<Rightarrow> (gotime \<Rightarrow> string) \<Rightarrow> schedule list \<Rightarrow> string" where
  "compute_placement_hash U time_string schedules =
     sha256_hex (concat (map (\<lambda>s. uuid_string U (bm_id s) @ time_string (bm_updated_at s)) schedules))"

section \<open>State\<close>

record 'c cache_ops =
  co_schedules :: "('c, sched_ptr list) go_cache"
  co_rules :: "('c, decision_rule) go_cache"
  co_versions :: "('c, string) go_cache"
  co_syncs :: "('c, gotime) go_cache"

record 'c memory_cache =
  mc_monitor :: memory_monitor
  mc_schedules :: "'c option"
  mc_rules :: "'c option"
  mc_versions :: "'c option"
  mc_syncs :: "'c option"

datatype metric_event =
    Delete_Labels string string   \<comment> \<open>DeleteLabelValues(placement, version)\<close>
  | Delete_Placement string       \<comment> \<open>DeletePartialMatch of the placement\<close>
  | Set_Labels string string      \<comment> \<open>WithLabelValues(placement, version).Set(1)\<close>

section \<open>UpdateSchedules\<close>

text \<open>
  The pattern of each of its four steps: set the new entries, then delete the keys that were
  there before and are not among the new ones.
\<close>

definition delete_absent :: "('c, 'v) go_cache \<Rightarrow> string list \<Rightarrow> string list \<Rightarrow> 'c \<Rightarrow> 'c" where
  "delete_absent G new_keys existing c =
     foldl (\<lambda>c k. if k \<in> set new_keys then c else cm_delete G k c) c existing"

definition set_entries ::
  "('c, 'v) go_cache \<Rightarrow> memory_monitor \<Rightarrow> int \<Rightarrow> duration \<Rightarrow> (string, 'v) gomap \<Rightarrow> 'c \<Rightarrow> 'c" where
  "set_entries G mm now ttl new c = foldl (\<lambda>c (k, v). cm_set G mm now ttl k v c) c new"

definition sync_cache ::
  "('c, 'v) go_cache \<Rightarrow> memory_monitor \<Rightarrow> int \<Rightarrow> duration \<Rightarrow> (string, 'v) gomap \<Rightarrow> 'c \<Rightarrow> 'c" where
  "sync_cache G mm now ttl new c =
     (let existing = cm_keys G now c in
      delete_absent G (gm_keys new) existing (set_entries G mm now ttl new c))"

text \<open>The third step also reports each new version through the callback.\<close>

definition set_versions ::
  "('c, string) go_cache \<Rightarrow> memory_monitor \<Rightarrow> int \<Rightarrow> duration
    \<Rightarrow> ('c \<Rightarrow> string \<Rightarrow> string \<Rightarrow> metric_event list) option
    \<Rightarrow> (string, string) gomap \<Rightarrow> 'c \<Rightarrow> 'c \<times> metric_event list" where
  "set_versions G mm now ttl on_update new c =
     foldl (\<lambda>(c, evs) (k, v).
         let c' = cm_set G mm now ttl k v c in
         (c', evs @ (case on_update of None \<Rightarrow> [] | Some f \<Rightarrow> f c' k v)))
       (c, []) new"

definition sync_times :: "gotime \<Rightarrow> (string, sched_ptr list) gomap \<Rightarrow> (string, gotime) gomap" where
  "sync_times now new_schedules =
     foldl (\<lambda>m k. gm_put (trim_prefix k ''schedules:placement:'') now m) [] (gm_keys new_schedules)"

definition update_schedules ::
  "'c cache_ops \<Rightarrow> gotime \<Rightarrow> (string, sched_ptr list) gomap \<Rightarrow> (string, decision_rule) gomap
    \<Rightarrow> (string, string) gomap \<Rightarrow> duration
    \<Rightarrow> ('c \<Rightarrow> string \<Rightarrow> string \<Rightarrow> metric_event list) option
    \<Rightarrow> 'c memory_cache \<Rightarrow> ('c memory_cache \<times> metric_event list) option" where
  "update_schedules C now new_schedules new_rules new_versions ttl on_update m =
     do { schedules \<leftarrow> mc_schedules m;
          let schedules' = sync_cache (co_schedules C) (mc_monitor m) (tm_ns now) ttl new_schedules schedules;
          rules \<leftarrow> mc_rules m;
          let rules' = sync_cache (co_rules C) (mc_monitor m) (tm_ns now) ttl new_rules rules;
          let (versions', evs) =
            (case mc_versions m of
               None \<Rightarrow> (None, [])
             | Some c \<Rightarrow>
                 (let existing = cm_keys (co_versions C) (tm_ns now) c;
                      (c', evs) = set_versions (co_versions C) (mc_monitor m) (tm_ns now) ttl on_update new_versions c in
                  (Some (delete_absent (co_versions C) (gm_keys new_versions) existing c'), evs)));
          let syncs' =
            map_option (sync_cache (co_syncs C) (mc_monitor m) (tm_ns now) ttl (sync_times now new_schedules))
              (mc_syncs m);
          Some (m\<lparr>mc_schedules := Some schedules', mc_rules := Some rules',
                  mc_versions := versions', mc_syncs := syncs'\<rparr>, evs) }"

section \<open>PruneOrphanedRules\<close>

definition used_rule_keys ::
  "uuid_ops \<Rightarrow> ('c, sched_ptr list) go_cache \<Rightarrow> int \<Rightarrow> heap \<Rightarrow> 'c \<Rightarrow> string list" where
  "used_rule_keys U G now h c =
     concat (map (\<lambda>key.
       case cm_get G now c key of
         None \<Rightarrow> []
       | Some item \<Rightarrow>
           map (\<lambda>p. rule_cache_key (uuid_string U (sc_rule_id (deref h p))))
             (filter (\<lambda>p. sc_rule_id (deref h p) \<noteq> uuid_nil) item))
       (cm_keys G now c))"

definition prune_orphaned_rules ::
  "uuid_ops \<Rightarrow> 'c cache_ops \<Rightarrow> int \<Rightarrow> heap \<Rightarrow> 'c memory_cache \<Rightarrow> 'c memory_cache" where
  "prune_orphaned_rules U C now h m =
     (case (mc_schedules m, mc_rules m) of
        (Some schedules, Some rules) \<Rightarrow>
          m\<lparr>mc_rules := Some
            (delete_absent (co_rules C) (used_rule_keys U (co_schedules C) now h schedules)
              (cm_keys (co_rules C) now rules) rules)\<rparr>
      | _ \<Rightarrow> m)"

section \<open>getStatus\<close>

definition get_status :: "'c memory_cache \<Rightarrow> (bool \<times> f64) option" where
  "get_status m =
     do { _ \<leftarrow> mc_rules m;
          let (pressure_rules, pct_rules) = cm_status (mc_monitor m);
          _ \<leftarrow> mc_schedules m;
          let (pressure_schedules, pct_schedules) = cm_status (mc_monitor m);
          Some (pressure_rules \<or> pressure_schedules,
                f64_div (f64_add pct_rules pct_schedules) (f64_of_nat 2)) }"

section \<open>Facts\<close>

lemma deref_alloc:
  "alloc ss h = (ps, h') \<Longrightarrow> map (deref h') ps = ss"
  unfolding alloc_def prod.inject by (intro nth_equalityI) (auto simp: deref_def nth_append)

lemma deref_alloc_old: "alloc ss h = (ps, h') \<Longrightarrow> p < length h \<Longrightarrow> deref h' p = deref h p"
  unfolding alloc_def prod.inject by (auto simp: deref_def nth_append)

lemma length_attach_rule [simp]: "length (attach_rule p r h) = length h"
  by (simp add: attach_rule_def)

lemma deref_attach_rule:
  "deref (attach_rule p r h) q =
     (if q = p \<and> p < length h then (deref h p)\<lparr>sc_rule := Some r\<rparr> else deref h q)"
  by (auto simp: attach_rule_def deref_def)

lemma schedules_key_inj [simp]: "schedules_key a = schedules_key b \<longleftrightarrow> a = b"
  by (simp add: schedules_key_def)

lemma rule_cache_key_inj [simp]: "rule_cache_key a = rule_cache_key b \<longleftrightarrow> a = b"
  by (simp add: rule_cache_key_def)

lemma trim_schedules_key [simp]: "trim_prefix (schedules_key name) ''schedules:placement:'' = name"
  unfolding schedules_key_def by (rule trim_prefix_append)

lemma gm_ok_sync_times [simp]: "gm_ok (sync_times now new)"
proof -
  have "gm_ok m \<Longrightarrow> gm_ok (foldl (\<lambda>m k. gm_put (trim_prefix k ''schedules:placement:'') now m) m ks)" for m ks
    by (induction ks arbitrary: m) simp_all
  then show ?thesis by (simp add: sync_times_def)
qed

lemma gm_get_sync_times:
  "gm_get (sync_times now new) name =
     (if name \<in> (\<lambda>k. trim_prefix k ''schedules:placement:'') ` set (gm_keys new) then Some now else None)"
proof -
  have "gm_get (foldl (\<lambda>m k. gm_put (trim_prefix k ''schedules:placement:'') now m) m ks) name =
      (if name \<in> (\<lambda>k. trim_prefix k ''schedules:placement:'') ` set ks then Some now else gm_get m name)" for m ks
    by (induction ks arbitrary: m) auto
  then show ?thesis by (simp add: sync_times_def)
qed

text \<open>
  What a cache holds after one step of UpdateSchedules: exactly the new entries, but for the
  keys it has not held before if it refuses new ones.
\<close>

definition mirrored :: "bool \<Rightarrow> (string, 'v) gomap \<Rightarrow> (string \<rightharpoonup> 'v) \<Rightarrow> string \<rightharpoonup> 'v" where
  "mirrored refusing new old k =
     (case gm_get new k of None \<Rightarrow> None | Some v \<Rightarrow> if refusing \<and> old k = None then None else Some v)"

context bounded_store
begin

lemma get_mirror:
  assumes "gm_ok new"
  shows "get (foldl (\<lambda>c k. if k \<in> set (gm_keys new) then c else del k c) (put_all new c) (keys c)) k
    = mirrored refusing new (get c) k"
proof -
  have "k \<in> set (gm_keys new) \<longleftrightarrow> gm_get new k \<noteq> None" by (simp add: set_gm_keys)
  then show ?thesis
    by (auto simp: del_all_filter get_del_all get_put_all [OF assms] set_keys mirrored_def split: option.splits)
qed

lemma get_delete_absent:
  "get (foldl (\<lambda>c k. if k \<in> K then c else del k c) c (keys c)) k = (if k \<in> K then get c k else None)"
  by (simp add: del_all_filter get_del_all set_keys)

end

context cache_at
begin

lemma sync_cache_view:
  "gm_ok new \<Longrightarrow> cm_get G now (sync_cache G mm now ttl new c) =
    mirrored (is_under_pressure mm) new (cm_get G now c)"
  using store.get_mirror [of new c]
  by (simp add: fun_eq_iff sync_cache_def delete_absent_def set_entries_def Let_def store.put_all_def)

lemma delete_absent_view:
  "cm_get G now (delete_absent G ks (cm_keys G now c) c) k =
    (if k \<in> set ks then cm_get G now c k else None)"
  using store.get_delete_absent [of "set ks" c k] by (simp add: delete_absent_def)

end

lemma fst_set_versions: "fst (set_versions G mm now ttl on_update new c) = set_entries G mm now ttl new c"
proof -
  have "fst (foldl (\<lambda>(c, evs) (k, v). let c' = cm_set G mm now ttl k v c in
        (c', evs @ (case on_update of None \<Rightarrow> [] | Some f \<Rightarrow> f c' k v))) (c, evs) new) =
      foldl (\<lambda>c (k, v). cm_set G mm now ttl k v c) c new" for c evs
    by (induction new arbitrary: c evs) (simp_all add: Let_def split_beta)
  then show ?thesis by (simp add: set_versions_def set_entries_def)
qed

section \<open>The mirror as maps\<close>

text \<open>What the caches answer at an instant; a nil cache has no entries.\<close>

definition schedules_at :: "'c cache_ops \<Rightarrow> int \<Rightarrow> 'c memory_cache \<Rightarrow> string \<rightharpoonup> sched_ptr list" where
  "schedules_at C now m k = Option.bind (mc_schedules m) (\<lambda>c. cm_get (co_schedules C) now c k)"

definition rules_at :: "'c cache_ops \<Rightarrow> int \<Rightarrow> 'c memory_cache \<Rightarrow> string \<rightharpoonup> decision_rule" where
  "rules_at C now m k = Option.bind (mc_rules m) (\<lambda>c. cm_get (co_rules C) now c k)"

definition versions_at :: "'c cache_ops \<Rightarrow> int \<Rightarrow> 'c memory_cache \<Rightarrow> string \<rightharpoonup> string" where
  "versions_at C now m k = Option.bind (mc_versions m) (\<lambda>c. cm_get (co_versions C) now c k)"

definition syncs_at :: "'c cache_ops \<Rightarrow> int \<Rightarrow> 'c memory_cache \<Rightarrow> string \<rightharpoonup> gotime" where
  "syncs_at C now m k = Option.bind (mc_syncs m) (\<lambda>c. cm_get (co_syncs C) now c k)"

lemmas view_defs = schedules_at_def rules_at_def versions_at_def syncs_at_def

lemma cache_all_delete_absent:
  "go_cache_laws G \<Longrightarrow> cache_all G P c \<Longrightarrow> cache_all G P (delete_absent G ks existing c)"
proof -
  assume laws: "go_cache_laws G" and "cache_all G P c"
  then show ?thesis
    unfolding delete_absent_def
    by (induction existing arbitrary: c) (simp_all add: go_cache_laws.cache_all_delete)
qed

lemma cache_all_set_entries:
  "go_cache_laws G \<Longrightarrow> cache_all G P c \<Longrightarrow> (\<forall>kv \<in> set new. P (fst kv) (snd kv))
    \<Longrightarrow> cache_all G P (set_entries G mm now ttl new c)"
proof -
  assume laws: "go_cache_laws G" and "cache_all G P c" "\<forall>kv \<in> set new. P (fst kv) (snd kv)"
  then show ?thesis
    unfolding set_entries_def
    by (induction new arbitrary: c) (auto simp: go_cache_laws.cache_all_set)
qed

lemma cache_all_sync:
  "go_cache_laws G \<Longrightarrow> cache_all G P c \<Longrightarrow> (\<forall>kv \<in> set new. P (fst kv) (snd kv))
    \<Longrightarrow> cache_all G P (sync_cache G mm now ttl new c)"
  by (simp add: sync_cache_def Let_def cache_all_delete_absent cache_all_set_entries)

lemma views_Some:
  "mc_schedules m = Some s \<Longrightarrow> schedules_at C now m = cm_get (co_schedules C) now s"
  "mc_rules m = Some r \<Longrightarrow> rules_at C now m = cm_get (co_rules C) now r"
  "mc_versions m = Some v \<Longrightarrow> versions_at C now m = cm_get (co_versions C) now v"
  "mc_syncs m = Some t \<Longrightarrow> syncs_at C now m = cm_get (co_syncs C) now t"
  by (simp_all add: view_defs fun_eq_iff)

text \<open>All four caches are there, as ProvideCacheMemory builds them.\<close>

definition complete_cache :: "'c memory_cache \<Rightarrow> bool" where
  "complete_cache m =
     (mc_schedules m \<noteq> None \<and> mc_rules m \<noteq> None \<and> mc_versions m \<noteq> None \<and> mc_syncs m \<noteq> None)"

locale mirror_laws =
  S: go_cache_laws "co_schedules C" + R: go_cache_laws "co_rules C" +
  V: go_cache_laws "co_versions C" + T: go_cache_laws "co_syncs C"
  for C :: "'c cache_ops"
begin

lemmas S_at = cache_at.intro [OF S.go_cache_laws_axioms]
lemmas R_at = cache_at.intro [OF R.go_cache_laws_axioms]
lemmas V_at = cache_at.intro [OF V.go_cache_laws_axioms]
lemmas T_at = cache_at.intro [OF T.go_cache_laws_axioms]

lemmas sync_views =
  cache_at.sync_cache_view [OF S_at] cache_at.sync_cache_view [OF R_at]
  cache_at.sync_cache_view [OF V_at] cache_at.sync_cache_view [OF T_at]

lemmas cm_views =
  S.cm_get_set R.cm_get_set V.cm_get_set T.cm_get_set
  S.cm_get_delete R.cm_get_delete V.cm_get_delete T.cm_get_delete
  S.cm_get_clear R.cm_get_clear V.cm_get_clear T.cm_get_clear

lemmas cm_alls = S.cache_all_set S.cache_all_delete S.cache_all_clear

lemma versions_step:
  "gm_ok new \<Longrightarrow>
    cm_get (co_versions C) now
      (delete_absent (co_versions C) (gm_keys new) (cm_keys (co_versions C) now c)
        (fst (set_versions (co_versions C) mm now ttl f new c)))
    = mirrored (is_under_pressure mm) new (cm_get (co_versions C) now c)"
  using sync_views(3) [of new now mm ttl c] by (simp add: fst_set_versions sync_cache_def Let_def)

lemma update_schedules_views:
  assumes "complete_cache m" and "gm_ok ns" "gm_ok nr" "gm_ok nv"
  obtains m' evs where "update_schedules C now ns nr nv ttl f m = Some (m', evs)"
    and "complete_cache m'" and "mc_monitor m' = mc_monitor m"
    and "\<forall>P c. mc_schedules m = Some c \<and> cache_all (co_schedules C) P c \<and> (\<forall>kv \<in> set ns. P (fst kv) (snd kv))
        \<longrightarrow> cache_all (co_schedules C) P (the (mc_schedules m'))"
    and "schedules_at C (tm_ns now) m' =
      mirrored (is_under_pressure (mc_monitor m)) ns (schedules_at C (tm_ns now) m)"
    and "rules_at C (tm_ns now) m' =
      mirrored (is_under_pressure (mc_monitor m)) nr (rules_at C (tm_ns now) m)"
    and "versions_at C (tm_ns now) m' =
      mirrored (is_under_pressure (mc_monitor m)) nv (versions_at C (tm_ns now) m)"
    and "syncs_at C (tm_ns now) m' =
      mirrored (is_under_pressure (mc_monitor m)) (sync_times now ns) (syncs_at C (tm_ns now) m)"
proof -
  from assms(1) obtain s r v t where m: "mc_schedules m = Some s" "mc_rules m = Some r"
    "mc_versions m = Some v" "mc_syncs m = Some t" by (auto simp: complete_cache_def)
  define sv where "sv = set_versions (co_versions C) (mc_monitor m) (tm_ns now) ttl f nv v"
  let ?m' = "m\<lparr>mc_schedules := Some (sync_cache (co_schedules C) (mc_monitor m) (tm_ns now) ttl ns s),
      mc_rules := Some (sync_cache (co_rules C) (mc_monitor m) (tm_ns now) ttl nr r),
      mc_versions := Some (delete_absent (co_versions C) (gm_keys nv) (cm_keys (co_versions C) (tm_ns now) v) (fst sv)),
      mc_syncs := Some (sync_cache (co_syncs C) (mc_monitor m) (tm_ns now) ttl (sync_times now ns) t)\<rparr>"
  have "update_schedules C now ns nr nv ttl f m = Some (?m', snd sv)"
    by (simp add: update_schedules_def m sv_def [symmetric] Let_def split_beta)
  then show thesis
    by (rule that) (simp_all add: complete_cache_def views_Some m sync_views versions_step sv_def assms
        cache_all_sync [OF S.go_cache_laws_axioms])
qed

lemma prune_views:
  assumes "mc_schedules m = Some s" and m'_def: "m' = prune_orphaned_rules U C now h m"
  shows "rules_at C now m' k =
      (if k \<in> set (used_rule_keys U (co_schedules C) now h s) then rules_at C now m k else None)"
    and "mc_schedules m' = mc_schedules m" and "mc_versions m' = mc_versions m"
    and "mc_syncs m' = mc_syncs m" and "mc_monitor m' = mc_monitor m"
    and "mc_rules m' = None \<longleftrightarrow> mc_rules m = None"
  unfolding m'_def
  by (auto simp: prune_orphaned_rules_def assms(1) rules_at_def cache_at.delete_absent_view [OF R_at]
      split: option.splits)

text \<open>The rules in use are those that some cached schedule names.\<close>

lemma set_used_rule_keys:
  "k \<in> set (used_rule_keys U (co_schedules C) now h c) \<longleftrightarrow>
    (\<exists>key ps p. cm_get (co_schedules C) now c key = Some ps \<and> p \<in> set ps
      \<and> sc_rule_id (deref h p) \<noteq> uuid_nil \<and> k = rule_cache_key (uuid_string U (sc_rule_id (deref h p))))"
proof -
  have keys: "set (cm_keys (co_schedules C) now c) = {key. cm_get (co_schedules C) now c key \<noteq> None}"
    by (simp add: cm_keys_def cm_get_def S.set_items)
  have one: "k \<in> set (case cm_get (co_schedules C) now c key of None \<Rightarrow> []
        | Some item \<Rightarrow> map (\<lambda>p. rule_cache_key (uuid_string U (sc_rule_id (deref h p))))
            (filter (\<lambda>p. sc_rule_id (deref h p) \<noteq> uuid_nil) item))
      \<longleftrightarrow> (\<exists>ps p. cm_get (co_schedules C) now c key = Some ps \<and> p \<in> set ps
        \<and> sc_rule_id (deref h p) \<noteq> uuid_nil \<and> k = rule_cache_key (uuid_string U (sc_rule_id (deref h p))))" for key
    by (cases "cm_get (co_schedules C) now c key") auto
  show ?thesis
    unfolding used_rule_keys_def set_concat set_map UN_iff bex_simps keys
    unfolding one by fastforce
qed

end

section \<open>The mirror over the model store\<close>

datatype cached =
    Cached_Schedules "sched_ptr list"
  | Cached_Rule decision_rule
  | Cached_Version string
  | Cached_Time gotime

fun as_schedules :: "cached \<Rightarrow> sched_ptr list option" where
  "as_schedules (Cached_Schedules ps) = Some ps" | "as_schedules _ = None"

fun as_rule :: "cached \<Rightarrow> decision_rule option" where
  "as_rule (Cached_Rule r) = Some r" | "as_rule _ = None"

fun as_version :: "cached \<Rightarrow> string option" where
  "as_version (Cached_Version v) = Some v" | "as_version _ = None"

fun as_time :: "cached \<Rightarrow> gotime option" where
  "as_time (Cached_Time t) = Some t" | "as_time _ = None"

definition std_ops :: "cached std_store cache_ops" where
  "std_ops =
     \<lparr>co_schedules = std_cache (24 * hour_ns) Cached_Schedules as_schedules,
      co_rules = std_cache (24 * hour_ns) Cached_Rule as_rule,
      co_versions = std_cache (24 * hour_ns) Cached_Version as_version,
      co_syncs = std_cache (24 * hour_ns) Cached_Time as_time\<rparr>"

interpretation std: mirror_laws std_ops
  unfolding mirror_laws_def std_ops_def by (simp add: std_cache_laws)

text \<open>The cache ProvideCacheMemory builds: four empty stores and one monitor.\<close>

definition new_memory_cache :: "memory_monitor \<Rightarrow> 'c \<Rightarrow> 'c memory_cache" where
  "new_memory_cache mm store =
     \<lparr>mc_monitor = mm, mc_schedules = Some store, mc_rules = Some store,
      mc_versions = Some store, mc_syncs = Some store\<rparr>"

lemma complete_new [simp]: "complete_cache (new_memory_cache mm c)"
  by (simp add: complete_cache_def new_memory_cache_def)

end
