(* ===== verification/Delivery_Service.thy ===== *)
theory Delivery_Service
  imports Memory_Mirror
begin

text \<open>
  CMSDeliveryService of src/cmd/server/service/cms_delivery_service.go: what it depends on,
  its state, and the operations on the mirror: evaluate, FlushCache and the status reads.

  The repositories are interfaces, and what they answer depends on the world outside (the
  database, Redis, CLEN, the clock): every call of one maps a state of the world to an answer
  and a new state, and the clock is read off the state. Steps in memory take no time. A
  repository that may be nil is an option. None as the result of an operation is a panic
  (a nil dependency or cache is used) or a computation that does not return.
\<close>

section \<open>Dependencies\<close>

record 'w occurrence_repo =
  or_list_active_at :: "'w \<Rightarrow> gotime \<Rightarrow> (string + occurrence list) \<times> 'w"
  or_list_active_by_placements_at :: "'w \<Rightarrow> string list \<Rightarrow> gotime \<Rightarrow> (string + occurrence list) \<times> 'w"

record 'w redis_repo =
  rd_get :: "'w \<Rightarrow> string \<Rightarrow> (string + string) \<times> 'w"
  rd_set :: "'w \<Rightarrow> string \<Rightarrow> string \<Rightarrow> duration \<Rightarrow> string option \<times> 'w"
  rd_publish :: "'w \<Rightarrow> string \<Rightarrow> string \<Rightarrow> string option \<times> 'w"

record lead_query =
  lq_cis_id :: string
  lq_channel :: string
  lq_placements :: "string list"

record profile_source =
  ps_datasource :: string
  ps_required_fields :: "string list"

record profile_query =
  pq_cis_id :: string
  pq_sources :: "profile_source list"

record raw_response =
  rw_status :: int
  rw_body :: string

type_synonym evaluator_fn =
  "string \<Rightarrow> schedule list \<Rightarrow> (string \<rightharpoonup> raw_json) \<Rightarrow> lead list \<Rightarrow> (string + content_result list) option"

record ('c, 'w) service_deps =
  sd_uuid :: uuid_ops
  sd_caches :: "'c cache_ops"
  sd_now :: "'w \<Rightarrow> gotime"
  sd_time_string :: "gotime \<Rightarrow> string"
  sd_marshal_schedules :: "schedule list \<Rightarrow> string option"
  sd_marshal_rule :: "decision_rule \<Rightarrow> string option"
  sd_redis :: "'w redis_repo option"
  sd_occurrences :: "'w occurrence_repo option"
  sd_rules :: "('w \<Rightarrow> uuid list \<Rightarrow> (string + (uuid, decision_rule) gomap) \<times> 'w) option"
  sd_evaluator :: "evaluator_fn option"
  sd_leads :: "('w \<Rightarrow> lead_query \<Rightarrow> (string + lead list) \<times> 'w) option"
  sd_profiles :: "('w \<Rightarrow> profile_query \<Rightarrow> (string + raw_response option) \<times> 'w) option"
  sd_schemas :: "('w \<Rightarrow> uuid \<Rightarrow> (string + schema_registry option) \<times> 'w) option"
  sd_attributes :: "('w \<Rightarrow> string \<Rightarrow> (string + attribute option list) \<times> 'w) option"
  sd_has_metric :: bool
  sd_result_ttl :: duration
  sd_tick_interval :: duration
  sd_profile_ttl :: duration

section \<open>State\<close>

record ('c, 'w) service =
  sv_world :: 'w
  sv_mem :: "'c memory_cache option"
  sv_heap :: heap
  sv_schema_fields :: "uuid \<rightharpoonup> string list"
  sv_attr_uuids :: "string \<rightharpoonup> (string, uuid) gomap"
  sv_metrics :: "metric_event list"

datatype service_error =
    Empty_Customer
  | Stale_Mirror string
  | Unsupported_Prefix string
  | Marshal_Failed string
  | Key_Not_Found string

definition new_service :: "'w \<Rightarrow> 'c memory_cache option \<Rightarrow> ('c, 'w) service" where
  "new_service w m =
     \<lparr>sv_world = w, sv_mem = m, sv_heap = [], sv_schema_fields = Map.empty,
      sv_attr_uuids = Map.empty, sv_metrics = []\<rparr>"

text \<open>A loop whose body may panic.\<close>

fun fold_steps :: "('a \<Rightarrow> 's \<Rightarrow> 's option) \<Rightarrow> 'a list \<Rightarrow> 's \<Rightarrow> 's option" where
  "fold_steps f [] s = Some s"
| "fold_steps f (x # xs) s = Option.bind (f x s) (fold_steps f xs)"

definition now_of :: "('c, 'w) service_deps \<Rightarrow> ('c, 'w) service \<Rightarrow> gotime" where
  "now_of E s = sd_now E (sv_world s)"

definition now_ns :: "('c, 'w) service_deps \<Rightarrow> ('c, 'w) service \<Rightarrow> int" where
  "now_ns E s = tm_ns (now_of E s)"

definition rule_key :: "('c, 'w) service_deps \<Rightarrow> uuid \<Rightarrow> string" where
  "rule_key E u = rule_cache_key (uuid_string (sd_uuid E) u)"

section \<open>The status reads\<close>

definition get_cache_keys :: "('c, 'w) service_deps \<Rightarrow> ('c, 'w) service \<Rightarrow> string list option" where
  "get_cache_keys E s =
     (case sv_mem s of
        None \<Rightarrow> Some []
      | Some m \<Rightarrow>
          do { schedules \<leftarrow> mc_schedules m;
               rules \<leftarrow> mc_rules m;
               Some (cm_keys (co_schedules (sd_caches E)) (now_ns E s) schedules
                 @ cm_keys (co_rules (sd_caches E)) (now_ns E s) rules) })"

definition get_cache_value ::
  "('c, 'w) service_deps \<Rightarrow> string \<Rightarrow> ('c, 'w) service \<Rightarrow> (service_error + string) option" where
  "get_cache_value E key s =
     (case sv_mem s of
        None \<Rightarrow> Some (Inl (Key_Not_Found key))
      | Some m \<Rightarrow>
          if \<not> list_ex (has_prefix key) [''schedules:'', ''rule:''] then Some (Inl (Unsupported_Prefix key))
          else if has_prefix key ''schedules:'' then
            do { c \<leftarrow> mc_schedules m;
                 case cm_get (co_schedules (sd_caches E)) (now_ns E s) c key of
                   None \<Rightarrow> Some (Inl (Key_Not_Found key))
                 | Some ps \<Rightarrow>
                     (case sd_marshal_schedules E (map (deref (sv_heap s)) ps) of
                        None \<Rightarrow> Some (Inl (Marshal_Failed key))
                      | Some text \<Rightarrow> Some (Inr text)) }
          else
            do { c \<leftarrow> mc_rules m;
                 case cm_get (co_rules (sd_caches E)) (now_ns E s) c key of
                   None \<Rightarrow> Some (Inl (Key_Not_Found key))
                 | Some r \<Rightarrow>
                     (case sd_marshal_rule E r of
                        None \<Rightarrow> Some (Inl (Marshal_Failed key))
                      | Some text \<Rightarrow> Some (Inr text)) })"

definition get_cache_status :: "('c, 'w) service \<Rightarrow> (bool \<times> f64) option" where
  "get_cache_status s =
     (case sv_mem s of None \<Rightarrow> Some (False, f64_zero) | Some m \<Rightarrow> get_status m)"

section \<open>The version gauge\<close>

definition update_version_metric ::
  "('c, 'w) service_deps \<Rightarrow> int \<Rightarrow> 'c option \<Rightarrow> string \<Rightarrow> string \<Rightarrow> metric_event list" where
  "update_version_metric E now versions placement_name new_version =
     (if \<not> sd_has_metric E then []
      else
        (case Option.bind versions (\<lambda>c. cm_get (co_versions (sd_caches E)) now c placement_name) of
           None \<Rightarrow> []
         | Some old_version \<Rightarrow> if old_version \<noteq> new_version then [Delete_Labels placement_name old_version] else [])
        @ [Set_Labels placement_name new_version])"

section \<open>evaluate\<close>

definition list_occurrences ::
  "('c, 'w) service_deps \<Rightarrow> string list \<Rightarrow> ('c, 'w) service
    \<Rightarrow> ((string + occurrence list) \<times> ('c, 'w) service) option" where
  "list_occurrences E placement_names s =
     do { repo \<leftarrow> sd_occurrences E;
          let (r, w) =
            (if placement_names \<noteq> []
             then or_list_active_by_placements_at repo (sv_world s) placement_names (now_of E s)
             else or_list_active_at repo (sv_world s) (now_of E s));
          Some (r, s\<lparr>sv_world := w\<rparr>) }"

text \<open>A placement without active schedules leaves the mirror; its synchronisation time stays.\<close>

definition clear_placement ::
  "('c, 'w) service_deps \<Rightarrow> string \<Rightarrow> ('c, 'w) service \<Rightarrow> ('c, 'w) service option" where
  "clear_placement E name s =
     (case sv_mem s of
        None \<Rightarrow> Some s
      | Some m \<Rightarrow>
          do { schedules \<leftarrow> mc_schedules m;
               versions \<leftarrow> mc_versions m;
               syncs \<leftarrow> mc_syncs m;
               if \<not> sd_has_metric E then None
               else Some (s
                 \<lparr>sv_mem := Some (m
                    \<lparr>mc_schedules := Some (cm_delete (co_schedules (sd_caches E)) (schedules_key name) schedules),
                     mc_versions := Some (cm_delete (co_versions (sd_caches E)) name versions),
                     mc_syncs := Some (cm_set (co_syncs (sd_caches E)) (mc_monitor m) (now_ns E s)
                       (sd_result_ttl E) name (now_of E s) syncs)\<rparr>),
                  sv_metrics := sv_metrics s @ [Delete_Placement name]\<rparr>) })"

text \<open>One schedule per ScheduleID, in the order of the occurrences.\<close>

definition unique_schedules :: "occurrence list \<Rightarrow> schedule list" where
  "unique_schedules occs =
     map snd (dedup_by fst
       (concat (map (\<lambda>occ. case oc_schedule occ of None \<Rightarrow> [] | Some sc \<Rightarrow> [(oc_schedule_id occ, sc)]) occs)))"

definition placement_name_of :: "schedule \<Rightarrow> string" where
  "placement_name_of sc = (case sc_placement sc of None \<Rightarrow> [] | Some p \<Rightarrow> pl_name p)"

definition placement_groups :: "heap \<Rightarrow> sched_ptr list \<Rightarrow> (string, sched_ptr list) gomap" where
  "placement_groups h ps =
     group_by (\<lambda>p. placement_name_of (deref h p)) (filter (\<lambda>p. placement_name_of (deref h p) \<noteq> []) ps)"

definition fetch_rules ::
  "('c, 'w) service_deps \<Rightarrow> uuid list \<Rightarrow> ('c, 'w) service
    \<Rightarrow> ((string + (uuid, decision_rule) gomap) \<times> ('c, 'w) service) option" where
  "fetch_rules E schedule_ids s =
     do { repo \<leftarrow> sd_rules E;
          let (r, w) = repo (sv_world s) schedule_ids;
          Some (r, s\<lparr>sv_world := w\<rparr>) }"

text \<open>Rules that cannot be fetched are left to the requests: the map is nil then.\<close>

definition rules_or_none :: "(string + (uuid, decision_rule) gomap) \<Rightarrow> (uuid, decision_rule) gomap" where
  "rules_or_none r = (case r of Inl _ \<Rightarrow> [] | Inr rules \<Rightarrow> rules)"

definition set_rule ::
  "('c, 'w) service_deps \<Rightarrow> decision_rule \<Rightarrow> ('c, 'w) service \<Rightarrow> ('c, 'w) service option" where
  "set_rule E r s =
     do { m \<leftarrow> sv_mem s;
          c \<leftarrow> mc_rules m;
          Some (s\<lparr>sv_mem := Some (m\<lparr>mc_rules := Some
            (cm_set (co_rules (sd_caches E)) (mc_monitor m) (now_ns E s) (sd_result_ttl E)
              (rule_key E (bm_id r)) r c)\<rparr>)\<rparr>) }"

definition refresh_placement ::
  "('c, 'w) service_deps \<Rightarrow> string \<times> sched_ptr list \<Rightarrow> ('c, 'w) service \<Rightarrow> ('c, 'w) service option" where
  "refresh_placement E g s =
     do { let (name, ps) = g;
          m \<leftarrow> sv_mem s;
          schedules \<leftarrow> mc_schedules m;
          syncs \<leftarrow> mc_syncs m;
          versions \<leftarrow> mc_versions m;
          let C = sd_caches E;
          let hash = compute_placement_hash (sd_uuid E) (sd_time_string E) (map (deref (sv_heap s)) ps);
          let versions' = cm_set (co_versions C) (mc_monitor m) (now_ns E s) (sd_result_ttl E) name hash versions;
          Some (s
            \<lparr>sv_mem := Some (m
               \<lparr>mc_schedules := Some (cm_set (co_schedules C) (mc_monitor m) (now_ns E s) (sd_result_ttl E)
                  (schedules_key name) ps schedules),
                mc_syncs := Some (cm_set (co_syncs C) (mc_monitor m) (now_ns E s) (sd_result_ttl E)
                  name (now_of E s) syncs),
                mc_versions := Some versions'\<rparr>),
             sv_metrics := sv_metrics s @ update_version_metric E (now_ns E s) (Some versions') name hash\<rparr>) }"

definition prune_rules :: "('c, 'w) service_deps \<Rightarrow> ('c, 'w) service \<Rightarrow> ('c, 'w) service" where
  "prune_rules E s =
     s\<lparr>sv_mem := map_option (prune_orphaned_rules (sd_uuid E) (sd_caches E) (now_ns E s) (sv_heap s)) (sv_mem s)\<rparr>"

text \<open>The sets UpdateSchedules receives.\<close>

definition new_schedules :: "(string, sched_ptr list) gomap \<Rightarrow> (string, sched_ptr list) gomap" where
  "new_schedules groups = map (\<lambda>(name, ps). (schedules_key name, ps)) groups"

definition new_versions ::
  "('c, 'w) service_deps \<Rightarrow> heap \<Rightarrow> (string, sched_ptr list) gomap \<Rightarrow> (string, string) gomap" where
  "new_versions E h groups =
     map (\<lambda>(name, ps). (name, compute_placement_hash (sd_uuid E) (sd_time_string E) (map (deref h) ps))) groups"

definition new_rules ::
  "('c, 'w) service_deps \<Rightarrow> (uuid, decision_rule) gomap \<Rightarrow> (string, decision_rule) gomap" where
  "new_rules E rules = foldl (\<lambda>m r. gm_put (rule_key E (bm_id r)) r m) [] (map snd rules)"

definition replace_mirror ::
  "('c, 'w) service_deps \<Rightarrow> (string, sched_ptr list) gomap \<Rightarrow> (string, decision_rule) gomap
    \<Rightarrow> (string, string) gomap \<Rightarrow> ('c, 'w) service \<Rightarrow> ('c, 'w) service option" where
  "replace_mirror E ns nr nv s =
     (case sv_mem s of
        None \<Rightarrow> Some s
      | Some m \<Rightarrow>
          do { (m', evs) \<leftarrow> update_schedules (sd_caches E) (now_of E s) ns nr nv (sd_result_ttl E)
                 (Some (\<lambda>c. update_version_metric E (now_ns E s) (Some c))) m;
               Some (s\<lparr>sv_mem := Some m', sv_metrics := sv_metrics s @ evs\<rparr>) })"

definition repopulate ::
  "('c, 'w) service_deps \<Rightarrow> bool \<Rightarrow> (string, sched_ptr list) gomap \<Rightarrow> (uuid, decision_rule) gomap
    \<Rightarrow> ('c, 'w) service \<Rightarrow> ('c, 'w) service option" where
  "repopulate E targeted groups rules s =
     (if sv_mem s = None then Some s
      else if targeted then
        do { s \<leftarrow> fold_steps (refresh_placement E) groups s;
             s \<leftarrow> fold_steps (set_rule E) (map snd rules) s;
             Some (prune_rules E s) }
      else replace_mirror E (new_schedules groups) (new_rules E rules) (new_versions E (sv_heap s) groups) s)"

definition evaluate ::
  "('c, 'w) service_deps \<Rightarrow> string list \<Rightarrow> ('c, 'w) service \<Rightarrow> ('c, 'w) service option" where
  "evaluate E placement_names s =
     do { (r, s) \<leftarrow> list_occurrences E placement_names s;
          case r of
            Inl _ \<Rightarrow> Some s
          | Inr occs \<Rightarrow>
              if placement_names \<noteq> [] \<and> occs = [] then
                fold_steps (clear_placement E) placement_names s
              else
                (let schedules = unique_schedules occs;
                     (ps, h) = alloc schedules (sv_heap s);
                     s = s\<lparr>sv_heap := h\<rparr>;
                     groups = placement_groups h ps in
                 if groups = [] then replace_mirror E [] [] [] s
                 else
                   do { (rs, s) \<leftarrow> fetch_rules E (map bm_id schedules) s;
                        repopulate E (placement_names \<noteq> []) groups (rules_or_none rs) s }) }"

text \<open>On start, when there is a database.\<close>

definition warmup_cache ::
  "('c, 'w) service_deps \<Rightarrow> ('c, 'w) service \<Rightarrow> ('c, 'w) service option" where
  "warmup_cache E s = (if sd_occurrences E = None then Some s else evaluate E [] s)"

section \<open>FlushCache\<close>

definition delete_rule ::
  "('c, 'w) service_deps \<Rightarrow> string \<Rightarrow> 'c memory_cache \<Rightarrow> 'c memory_cache option" where
  "delete_rule E key m =
     do { c \<leftarrow> mc_rules m;
          Some (m\<lparr>mc_rules := Some (cm_delete (co_rules (sd_caches E)) key c)\<rparr>) }"

definition flush_schedule_rule ::
  "('c, 'w) service_deps \<Rightarrow> heap \<Rightarrow> sched_ptr \<Rightarrow> 'c memory_cache \<Rightarrow> 'c memory_cache option" where
  "flush_schedule_rule E h p m =
     (case sc_rule (deref h p) of
        Some r \<Rightarrow> delete_rule E (rule_key E (bm_id r)) m
      | None \<Rightarrow>
          if sc_rule_id (deref h p) \<noteq> uuid_nil then delete_rule E (rule_key E (sc_rule_id (deref h p))) m
          else Some m)"

definition flush_placement ::
  "('c, 'w) service_deps \<Rightarrow> int \<Rightarrow> heap \<Rightarrow> string \<Rightarrow> 'c memory_cache \<Rightarrow> 'c memory_cache option" where
  "flush_placement E now h name m =
     do { let C = sd_caches E;
          c \<leftarrow> mc_schedules m;
          m \<leftarrow> (case cm_get (co_schedules C) now c (schedules_key name) of
                 None \<Rightarrow> Some m
               | Some ps \<Rightarrow> fold_steps (flush_schedule_rule E h) ps m);
          Some (m
            \<lparr>mc_schedules := Some (cm_delete (co_schedules C) (schedules_key name) c),
             mc_versions := map_option (cm_delete (co_versions C) name) (mc_versions m),
             mc_syncs := map_option (cm_delete (co_syncs C) name) (mc_syncs m)\<rparr>) }"

definition clear_all :: "('c, 'w) service_deps \<Rightarrow> 'c memory_cache \<Rightarrow> 'c memory_cache option" where
  "clear_all E m =
     do { let C = sd_caches E;
          schedules \<leftarrow> mc_schedules m;
          rules \<leftarrow> mc_rules m;
          Some (m
            \<lparr>mc_schedules := Some (cm_clear (co_schedules C) schedules),
             mc_rules := Some (cm_clear (co_rules C) rules),
             mc_versions := map_option (cm_clear (co_versions C)) (mc_versions m),
             mc_syncs := map_option (cm_clear (co_syncs C)) (mc_syncs m)\<rparr>) }"

definition flush_cache ::
  "('c, 'w) service_deps \<Rightarrow> string list \<Rightarrow> bool \<Rightarrow> ('c, 'w) service \<Rightarrow> ('c, 'w) service option" where
  "flush_cache E placement_names is_evaluate s =
     do { s \<leftarrow> (case sv_mem s of
                 None \<Rightarrow> Some s
               | Some m \<Rightarrow>
                   map_option (\<lambda>m'. s\<lparr>sv_mem := Some m'\<rparr>)
                     (if placement_names = [] then clear_all E m
                      else fold_steps (flush_placement E (now_ns E s) (sv_heap s)) placement_names m));
          if is_evaluate then evaluate E [] s else Some s }"

end
