(* ===== verification/Mirror_Refresh.thy ===== *)
theory Mirror_Refresh
  imports Delivery_Service
begin

text \<open>
  What evaluate and FlushCache do to the mirror, stated on its abstract view: maps from
  placement names to schedules, versions and synchronisation times, and from rule keys to
  rules. The refresh of the whole mirror and the refresh of named placements are functions on
  the view; the operations implement them.
\<close>

section \<open>The abstract mirror\<close>

record mirror_view =
  mv_schedules :: "string \<rightharpoonup> schedule list"
  mv_rules :: "string \<rightharpoonup> decision_rule"
  mv_versions :: "string \<rightharpoonup> string"
  mv_syncs :: "string \<rightharpoonup> gotime"

definition empty_view :: mirror_view where
  "empty_view =
     \<lparr>mv_schedules = Map.empty, mv_rules = Map.empty, mv_versions = Map.empty, mv_syncs = Map.empty\<rparr>"

definition cache_view :: "('c, 'w) service_deps \<Rightarrow> int \<Rightarrow> heap \<Rightarrow> 'c memory_cache \<Rightarrow> mirror_view" where
  "cache_view E now h m =
     \<lparr>mv_schedules = (\<lambda>name. map_option (map (deref h)) (schedules_at (sd_caches E) now m (schedules_key name))),
      mv_rules = rules_at (sd_caches E) now m,
      mv_versions = versions_at (sd_caches E) now m,
      mv_syncs = syncs_at (sd_caches E) now m\<rparr>"

definition view_of :: "('c, 'w) service_deps \<Rightarrow> ('c, 'w) service \<Rightarrow> mirror_view" where
  "view_of E s =
     (case sv_mem s of None \<Rightarrow> empty_view | Some m \<Rightarrow> cache_view E (now_ns E s) (sv_heap s) m)"

text \<open>
  The state is complete: a mirror with all its caches, whose schedules are stored under
  placement keys and as pointers into the heap.
\<close>

definition cached_ok :: "heap \<Rightarrow> string \<Rightarrow> sched_ptr list \<Rightarrow> bool" where
  "cached_ok h key ps = ((\<exists>name. key = schedules_key name) \<and> list_all (\<lambda>p. p < length h) ps)"

definition cache_ready :: "('c, 'w) service_deps \<Rightarrow> heap \<Rightarrow> 'c memory_cache \<Rightarrow> bool" where
  "cache_ready E h m =
     (complete_cache m
      \<and> (\<forall>c. mc_schedules m = Some c \<longrightarrow> cache_all (co_schedules (sd_caches E)) (cached_ok h) c))"

definition mirror_ready :: "('c, 'w) service_deps \<Rightarrow> ('c, 'w) service \<Rightarrow> bool" where
  "mirror_ready E s = (\<exists>m. sv_mem s = Some m \<and> cache_ready E (sv_heap s) m)"

lemma cached_ok_mono: "cached_ok h k ps \<Longrightarrow> length h \<le> length h' \<Longrightarrow> cached_ok h' k ps"
  by (auto simp: cached_ok_def list_all_iff)

lemma cache_ready_mono: "cache_ready E h m \<Longrightarrow> length h \<le> length h' \<Longrightarrow> cache_ready E h' m"
  by (auto simp: cache_ready_def intro: cache_all_mono cached_ok_mono)

text \<open>What the database lists for a placement.\<close>

definition listed :: "occurrence list \<Rightarrow> string \<rightharpoonup> schedule list" where
  "listed occs name =
     (let ss = filter (\<lambda>sc. placement_name_of sc = name) (unique_schedules occs) in
      if name = [] \<or> ss = [] then None else Some ss)"

definition hash_of :: "('c, 'w) service_deps \<Rightarrow> schedule list \<Rightarrow> string" where
  "hash_of E ss = compute_placement_hash (sd_uuid E) (sd_time_string E) ss"

text \<open>The refresh of the whole mirror: what the database lists, and nothing else.\<close>

definition full_refresh ::
  "('c, 'w) service_deps \<Rightarrow> gotime \<Rightarrow> occurrence list \<Rightarrow> (uuid, decision_rule) gomap \<Rightarrow> mirror_view" where
  "full_refresh E now occs rules =
     \<lparr>mv_schedules = listed occs,
      mv_rules = (if \<forall>name. listed occs name = None then Map.empty else gm_get (new_rules E rules)),
      mv_versions = (\<lambda>name. map_option (hash_of E) (listed occs name)),
      mv_syncs = (\<lambda>name. map_option (\<lambda>_. now) (listed occs name))\<rparr>"

section \<open>Groups\<close>

lemma gm_get_placement_groups:
  "gm_get (placement_groups h ps) name =
    (if name = [] \<or> filter (\<lambda>p. placement_name_of (deref h p) = name) ps = [] then None
     else Some (filter (\<lambda>p. placement_name_of (deref h p) = name) ps))"
proof (cases "name = []")
  case True
  then show ?thesis by (simp add: placement_groups_def gm_get_group_by)
next
  case False
  then have "filter (\<lambda>p. placement_name_of (deref h p) = name) (filter (\<lambda>p. placement_name_of (deref h p) \<noteq> []) ps)
      = filter (\<lambda>p. placement_name_of (deref h p) = name) ps"
    by (auto simp: filter_filter intro: filter_cong)
  with False show ?thesis
    by (auto simp: placement_groups_def gm_get_group_by filter_empty_conv)
qed

lemma gm_ok_placement_groups [simp]: "gm_ok (placement_groups h ps)"
  by (simp add: placement_groups_def)

lemma groups_listed:
  assumes "map (deref h) ps = unique_schedules occs"
  shows "map_option (map (deref h)) (gm_get (placement_groups h ps) name) = listed occs name"
proof -
  have "map (deref h) (filter (\<lambda>p. placement_name_of (deref h p) = name) ps) =
      filter (\<lambda>sc. placement_name_of sc = name) (unique_schedules occs)"
    unfolding assms [symmetric] by (simp add: filter_map comp_def)
  then show ?thesis
    by (auto simp: gm_get_placement_groups listed_def Let_def simp flip: map_is_Nil_conv)
qed

lemma gm_get_eq_Nil: "gm_ok g \<Longrightarrow> g = [] \<longleftrightarrow> (\<forall>k. gm_get g k = None)"
  by (cases g) (auto simp: gm_get_def)

lemma groups_Nil:
  assumes "map (deref h) ps = unique_schedules occs"
  shows "placement_groups h ps = [] \<longleftrightarrow> (\<forall>name. listed occs name = None)"
  unfolding gm_get_eq_Nil [OF gm_ok_placement_groups] groups_listed [OF assms, symmetric] by simp

lemma gm_get_map_key:
  assumes "inj f"
  shows "gm_get (map (\<lambda>(k, v). (f k, g k v)) m) (f k) = map_option (g k) (gm_get m k)"
  using assms by (induction m) (auto simp: gm_get_def inj_eq)

lemma gm_get_new_schedules: "gm_get (new_schedules groups) (schedules_key name) = gm_get groups name"
  using gm_get_map_key [of schedules_key "\<lambda>k v. v" groups name]
  by (simp add: new_schedules_def inj_def option.map_ident)

lemma gm_get_new_versions:
  "gm_get (new_versions E h groups) name = map_option (\<lambda>ps. hash_of E (map (deref h) ps)) (gm_get groups name)"
  using gm_get_map_key [of "\<lambda>k. k" "\<lambda>k ps. hash_of E (map (deref h) ps)" groups name]
  by (simp add: new_versions_def hash_of_def inj_def)

lemma gm_ok_map_key: "inj f \<Longrightarrow> gm_ok m \<Longrightarrow> gm_ok (map (\<lambda>(k, v). (f k, g k v)) m)"
  unfolding gm_ok_def by (induction m) (auto simp: inj_eq image_iff split_beta)

lemma gm_ok_new_sets [simp]:
  "gm_ok groups \<Longrightarrow> gm_ok (new_schedules groups)"
  "gm_ok groups \<Longrightarrow> gm_ok (new_versions E h groups)"
  unfolding new_schedules_def new_versions_def by (rule gm_ok_map_key; simp add: inj_def)+

lemma gm_ok_new_rules [simp]: "gm_ok (new_rules E rules)"
proof -
  have "gm_ok m \<Longrightarrow> gm_ok (foldl (\<lambda>m r. gm_put (rule_key E (bm_id r)) r m) m rs)" for m rs
    by (induction rs arbitrary: m) simp_all
  from this [OF gm_ok_Nil] show ?thesis unfolding new_rules_def .
qed

lemma sync_times_groups:
  "gm_get (sync_times now (new_schedules groups)) name = map_option (\<lambda>_. now) (gm_get groups name)"
proof -
  have keys: "gm_keys (new_schedules groups) = map schedules_key (gm_keys groups)"
    by (simp add: gm_keys_def new_schedules_def split_beta)
  have "gm_get (sync_times now (new_schedules groups)) name =
      (if name \<in> set (gm_keys groups) then Some now else None)"
    by (simp add: gm_get_sync_times keys image_image)
  also have "\<dots> = map_option (\<lambda>_. now) (gm_get groups name)"
    by (cases "gm_get groups name") (simp_all add: set_gm_keys)
  finally show ?thesis .
qed

section \<open>Replacing the mirror\<close>

lemma mirrored_free [simp]: "mirrored False new old = gm_get new"
  by (auto simp: mirrored_def fun_eq_iff split: option.split)

lemma replace_mirror_view:
  assumes laws: "mirror_laws (sd_caches E)" and mem: "sv_mem s = Some m" and ready: "cache_ready E (sv_heap s) m"
    and free: "\<not> is_under_pressure (mc_monitor m)" and ok: "gm_ok groups" "gm_ok nr"
    and entries: "\<And>name ps. (name, ps) \<in> set groups \<Longrightarrow> list_all (\<lambda>p. p < length (sv_heap s)) ps"
  obtains s' m' where "replace_mirror E (new_schedules groups) nr (new_versions E (sv_heap s) groups) s = Some s'"
    and "sv_mem s' = Some m'" and "cache_ready E (sv_heap s) m'" and "mc_monitor m' = mc_monitor m"
    and "sv_world s' = sv_world s" and "sv_heap s' = sv_heap s"
    and "cache_view E (now_ns E s) (sv_heap s) m' =
      \<lparr>mv_schedules = (\<lambda>name. map_option (map (deref (sv_heap s))) (gm_get groups name)),
       mv_rules = gm_get nr,
       mv_versions = (\<lambda>name. map_option (\<lambda>ps. hash_of E (map (deref (sv_heap s)) ps)) (gm_get groups name)),
       mv_syncs = (\<lambda>name. map_option (\<lambda>_. now_of E s) (gm_get groups name))\<rparr>"
proof -
  let ?C = "sd_caches E" and ?f = "Some (\<lambda>c. update_version_metric E (now_ns E s) (Some c))"
  have now: "tm_ns (now_of E s) = now_ns E s" by (simp add: now_ns_def)
  from ready obtain c where complete: "complete_cache m" and c: "mc_schedules m = Some c"
    "cache_all (co_schedules ?C) (cached_ok (sv_heap s)) c"
    by (auto simp: cache_ready_def complete_cache_def)
  obtain m' evs where upd: "update_schedules ?C (now_of E s) (new_schedules groups) nr
        (new_versions E (sv_heap s) groups) (sd_result_ttl E) ?f m = Some (m', evs)"
    and m': "complete_cache m'" "mc_monitor m' = mc_monitor m"
    and all: "\<forall>P c. mc_schedules m = Some c \<and> cache_all (co_schedules ?C) P c
        \<and> (\<forall>kv \<in> set (new_schedules groups). P (fst kv) (snd kv)) \<longrightarrow> cache_all (co_schedules ?C) P (the (mc_schedules m'))"
    and views: "schedules_at ?C (now_ns E s) m' = gm_get (new_schedules groups)"
      "rules_at ?C (now_ns E s) m' = gm_get nr"
      "versions_at ?C (now_ns E s) m' = gm_get (new_versions E (sv_heap s) groups)"
      "syncs_at ?C (now_ns E s) m' = gm_get (sync_times (now_of E s) (new_schedules groups))"
    by (rule mirror_laws.update_schedules_views [OF laws complete gm_ok_new_sets(1) [OF ok(1)] ok(2)
          gm_ok_new_sets(2) [OF ok(1), of E "sv_heap s"], where now = "now_of E s" and ttl = "sd_result_ttl E" and f = ?f])
      (simp_all add: free now)
  have "cache_all (co_schedules ?C) (cached_ok (sv_heap s)) (the (mc_schedules m'))"
    by (rule all [rule_format, of c]) (use c in \<open>auto simp: new_schedules_def cached_ok_def intro: entries\<close>)
  with m' have ready': "cache_ready E (sv_heap s) m'" by (auto simp: cache_ready_def)
  show thesis
    by (rule that [of "s\<lparr>sv_mem := Some m', sv_metrics := sv_metrics s @ evs\<rparr>" m'])
      (simp_all add: replace_mirror_def mem upd m' ready' views cache_view_def gm_get_new_schedules
        gm_get_new_versions sync_times_groups fun_eq_iff)
qed

section \<open>The refresh of the whole mirror\<close>

text \<open>The parts of the state that stay when only the world and the mirror change.\<close>

lemma alloc_schedules:
  assumes "alloc schedules h = (ps, h')"
  shows "map (deref h') ps = schedules" and "length h \<le> length h'" and "list_all (\<lambda>p. p < length h') ps"
    and "\<And>p. p < length h \<Longrightarrow> deref h' p = deref h p"
proof -
  show "map (deref h') ps = schedules" by (rule deref_alloc [OF assms])
  show "\<And>p. p < length h \<Longrightarrow> deref h' p = deref h p" by (rule deref_alloc_old [OF assms])
  show "length h \<le> length h'" "list_all (\<lambda>p. p < length h') ps"
    using assms by (auto simp: alloc_def list_all_iff)
qed

lemma groups_entries:
  assumes "list_all (\<lambda>p. p < n) ps" and "(name, qs) \<in> set (placement_groups h ps)"
  shows "list_all (\<lambda>p. p < n) qs"
  using assms by (auto simp: placement_groups_def set_group_by list_all_iff)

lemma evaluate_full:
  assumes laws: "mirror_laws (sd_caches E)" and mem: "sv_mem s = Some m"
    and ready: "cache_ready E (sv_heap s) m" and free: "\<not> is_under_pressure (mc_monitor m)"
    and repo: "sd_occurrences E = Some repo"
    and listing: "or_list_active_at repo (sv_world s) (now_of E s) = (Inr occs, w)"
    and fetch: "sd_rules E = Some fetch" "fst (fetch w (map bm_id (unique_schedules occs))) = rs"
  obtains s' where "evaluate E [] s = Some s'" and "mirror_ready E s'"
    and "view_of E s' = full_refresh E (now_of E s') occs (rules_or_none rs)"
    and "sv_world s' = (if \<forall>name. listed occs name = None then w else snd (fetch w (map bm_id (unique_schedules occs))))"
proof -
  obtain ps h where alloc: "alloc (unique_schedules occs) (sv_heap s) = (ps, h)" by fastforce
  note heap = alloc_schedules [OF alloc]
  define groups where "groups = placement_groups h ps"
  define s1 where "s1 = s\<lparr>sv_world := w, sv_heap := h\<rparr>"
  obtain w2 where w2: "fetch w (map bm_id (unique_schedules occs)) = (rs, w2)"
    using fetch(2) by (metis prod.collapse)
  define s2 where "s2 = (if groups = [] then s1 else s1\<lparr>sv_world := w2\<rparr>)"
  define nr where "nr = (if groups = [] then [] else new_rules E (rules_or_none rs))"
  have s2: "sv_mem s2 = Some m" "sv_heap s2 = h" by (simp_all add: s2_def s1_def mem)
  have step: "evaluate E [] s = replace_mirror E (new_schedules groups) nr (new_versions E (sv_heap s2) groups) s2"
    by (simp add: evaluate_def list_occurrences_def repo listing alloc Let_def groups_def [symmetric]
        s2_def s1_def nr_def fetch_rules_def fetch(1) w2 repopulate_def mem new_schedules_def new_versions_def)
  have entries: "\<And>name qs. (name, qs) \<in> set groups \<Longrightarrow> list_all (\<lambda>p. p < length (sv_heap s2)) qs"
    unfolding s2 groups_def by (rule groups_entries [OF heap(3)])
  obtain s' m' where s': "replace_mirror E (new_schedules groups) nr (new_versions E (sv_heap s2) groups) s2 = Some s'"
      "sv_mem s' = Some m'" "cache_ready E (sv_heap s2) m'" "sv_world s' = sv_world s2" "sv_heap s' = sv_heap s2"
      and view: "cache_view E (now_ns E s2) (sv_heap s2) m' =
      \<lparr>mv_schedules = (\<lambda>name. map_option (map (deref (sv_heap s2))) (gm_get groups name)),
       mv_rules = gm_get nr,
       mv_versions = (\<lambda>name. map_option (\<lambda>ps. hash_of E (map (deref (sv_heap s2)) ps)) (gm_get groups name)),
       mv_syncs = (\<lambda>name. map_option (\<lambda>_. now_of E s2) (gm_get groups name))\<rparr>"
    by (rule replace_mirror_view [OF laws s2(1), of groups nr])
      (use ready heap(2) entries in \<open>auto simp: s2 free groups_def nr_def intro: cache_ready_mono\<close>)
  have now: "now_of E s' = now_of E s2" "now_ns E s' = now_ns E s2"
    using s'(4) by (simp_all add: now_of_def now_ns_def)
  have listed: "map_option (map (deref h)) (gm_get groups name) = listed occs name" for name
    unfolding groups_def by (rule groups_listed [OF heap(1)])
  have map2: "map_option (\<lambda>ps. hash_of E (map (deref h) ps)) (gm_get groups name)
        = map_option (hash_of E) (listed occs name)"
      "map_option (\<lambda>_. t) (gm_get groups name) = map_option (\<lambda>_. t) (listed occs name)" for name t
    unfolding listed [symmetric] by (simp_all add: option.map_comp comp_def)
  have "view_of E s' = full_refresh E (now_of E s') occs (rules_or_none rs)"
    using groups_Nil [OF heap(1)] view [unfolded s2 listed map2]
    by (auto simp: view_of_def s' now s2 full_refresh_def nr_def groups_def [symmetric] fun_eq_iff)
  moreover have "mirror_ready E s'" using s' s2 by (simp add: mirror_ready_def)
  moreover have "sv_world s' = (if \<forall>name. listed occs name = None then w else snd (fetch w (map bm_id (unique_schedules occs))))"
    using s'(4) groups_Nil [OF heap(1)] by (auto simp: s2_def s1_def groups_def [symmetric] w2)
  ultimately show thesis using that step s'(1) by simp
qed

section \<open>The refresh of named placements\<close>

definition pressured :: "('c, 'w) service \<Rightarrow> bool" where
  "pressured s = (case sv_mem s of None \<Rightarrow> False | Some m \<Rightarrow> is_under_pressure (mc_monitor m))"

definition refresh_view ::
  "('c, 'w) service_deps \<Rightarrow> gotime \<Rightarrow> string \<times> schedule list \<Rightarrow> mirror_view \<Rightarrow> mirror_view" where
  "refresh_view E now g v =
     v\<lparr>mv_schedules := (mv_schedules v)(fst g \<mapsto> snd g),
       mv_versions := (mv_versions v)(fst g \<mapsto> hash_of E (snd g)),
       mv_syncs := (mv_syncs v)(fst g \<mapsto> now)\<rparr>"

definition rule_view :: "('c, 'w) service_deps \<Rightarrow> decision_rule \<Rightarrow> mirror_view \<Rightarrow> mirror_view" where
  "rule_view E r v = v\<lparr>mv_rules := (mv_rules v)(rule_key E (bm_id r) \<mapsto> r)\<rparr>"

text \<open>The rule keys some schedule of the mirror refers to.\<close>

definition referenced :: "('c, 'w) service_deps \<Rightarrow> (string \<rightharpoonup> schedule list) \<Rightarrow> string set" where
  "referenced E ss =
     {rule_key E (sc_rule_id sc) |sc name xs. ss name = Some xs \<and> sc \<in> set xs \<and> sc_rule_id sc \<noteq> uuid_nil}"

definition prune_view :: "('c, 'w) service_deps \<Rightarrow> mirror_view \<Rightarrow> mirror_view" where
  "prune_view E v = v\<lparr>mv_rules := mv_rules v |` referenced E (mv_schedules v)\<rparr>"

text \<open>What the database lists replaces what the mirror had; rules nobody refers to go.\<close>

definition targeted_refresh ::
  "('c, 'w) service_deps \<Rightarrow> gotime \<Rightarrow> occurrence list \<Rightarrow> (uuid, decision_rule) gomap
    \<Rightarrow> mirror_view \<Rightarrow> mirror_view" where
  "targeted_refresh E now occs rules v =
     prune_view E
       \<lparr>mv_schedules = mv_schedules v ++ listed occs,
        mv_rules = mv_rules v ++ gm_get (new_rules E rules),
        mv_versions = mv_versions v ++ (\<lambda>name. map_option (hash_of E) (listed occs name)),
        mv_syncs = mv_syncs v ++ (\<lambda>name. map_option (\<lambda>_. now) (listed occs name))\<rparr>"

text \<open>Nothing listed: the placements leave the mirror, as synchronised now.\<close>

definition clear_view :: "gotime \<Rightarrow> string list \<Rightarrow> mirror_view \<Rightarrow> mirror_view" where
  "clear_view now names v =
     v\<lparr>mv_schedules := mv_schedules v |` (- set names),
       mv_versions := mv_versions v |` (- set names),
       mv_syncs := (\<lambda>name. if name \<in> set names then Some now else mv_syncs v name)\<rparr>"

text \<open>The state between two steps of the refresh.\<close>

definition refreshing :: "('c, 'w) service_deps \<Rightarrow> 'w \<Rightarrow> heap \<Rightarrow> ('c, 'w) service \<Rightarrow> bool" where
  "refreshing E w h s = (mirror_ready E s \<and> \<not> pressured s \<and> sv_world s = w \<and> sv_heap s = h)"

lemma refreshingE:
  assumes "refreshing E w h s"
  obtains m c r v t where "sv_mem s = Some m" "mc_schedules m = Some c" "mc_rules m = Some r"
    "mc_versions m = Some v" "mc_syncs m = Some t" "\<not> is_under_pressure (mc_monitor m)"
    "cache_all (co_schedules (sd_caches E)) (cached_ok h) c" "sv_world s = w" "sv_heap s = h"
  using assms
  by (auto simp: refreshing_def mirror_ready_def cache_ready_def complete_cache_def pressured_def)

lemma fold_steps_sim:
  assumes "\<And>x s. x \<in> set xs \<Longrightarrow> I s \<Longrightarrow> \<exists>s'. f x s = Some s' \<and> I s' \<and> V s' = g x (V s)" and "I s"
  shows "\<exists>s'. fold_steps f xs s = Some s' \<and> I s' \<and> V s' = fold g xs (V s)"
  using assms
proof (induction xs arbitrary: s)
  case (Cons x xs)
  from Cons.prems obtain s1 where s1: "f x s = Some s1" "I s1" "V s1 = g x (V s)" by force
  have "\<exists>s'. fold_steps f xs s1 = Some s' \<and> I s' \<and> V s' = fold g xs (V s1)"
    by (rule Cons.IH) (use Cons.prems(1) s1(2) in auto)
  with s1 show ?case by simp
qed simp

lemma refresh_step:
  assumes "mirror_laws (sd_caches E)" and "refreshing E w h s" and "list_all (\<lambda>p. p < length h) ps"
  shows "\<exists>s'. refresh_placement E (name, ps) s = Some s' \<and> refreshing E w h s'
    \<and> view_of E s' = refresh_view E (sd_now E w) (name, map (deref h) ps) (view_of E s)"
proof -
  note ops = mirror_laws.cm_views [OF assms(1)] mirror_laws.cm_alls [OF assms(1)]
  from assms(2) obtain m c r v t where s: "sv_mem s = Some m" "mc_schedules m = Some c" "mc_rules m = Some r"
    "mc_versions m = Some v" "mc_syncs m = Some t" "\<not> is_under_pressure (mc_monitor m)"
    "cache_all (co_schedules (sd_caches E)) (cached_ok h) c" "sv_world s = w" "sv_heap s = h"
    by (rule refreshingE)
  have entry: "cached_ok h (schedules_key name) ps" using assms(3) by (auto simp: cached_ok_def)
  show ?thesis
    using s
    by (auto simp: refresh_placement_def refreshing_def mirror_ready_def cache_ready_def complete_cache_def
        pressured_def Let_def view_of_def cache_view_def views_Some now_ns_def now_of_def refresh_view_def
        hash_of_def fun_eq_iff ops entry)
qed

lemma set_rule_step:
  assumes "mirror_laws (sd_caches E)" and "refreshing E w h s"
  shows "\<exists>s'. set_rule E r s = Some s' \<and> refreshing E w h s' \<and> view_of E s' = rule_view E r (view_of E s)"
proof -
  note ops = mirror_laws.cm_views [OF assms(1)]
  from assms(2) obtain m c rc v t where s: "sv_mem s = Some m" "mc_schedules m = Some c" "mc_rules m = Some rc"
    "mc_versions m = Some v" "mc_syncs m = Some t" "\<not> is_under_pressure (mc_monitor m)"
    "cache_all (co_schedules (sd_caches E)) (cached_ok h) c" "sv_world s = w" "sv_heap s = h"
    by (rule refreshingE)
  then show ?thesis
    by (auto simp: set_rule_def refreshing_def mirror_ready_def cache_ready_def complete_cache_def
        pressured_def view_of_def cache_view_def views_Some now_ns_def now_of_def rule_view_def fun_eq_iff ops)
qed

lemma used_keys_referenced:
  assumes laws: "mirror_laws (sd_caches E)"
    and all: "cache_all (co_schedules (sd_caches E)) (cached_ok h) c" and c: "mc_schedules m = Some c"
  shows "set (used_rule_keys (sd_uuid E) (co_schedules (sd_caches E)) now h c) =
    referenced E (mv_schedules (cache_view E now h m))"
proof -
  have key: "\<exists>name. key = schedules_key name" if "cm_get (co_schedules (sd_caches E)) now c key = Some ps" for key ps
    using cache_allD [OF all that] by (simp add: cached_ok_def)
  have view: "mv_schedules (cache_view E now h m) name =
      map_option (map (deref h)) (cm_get (co_schedules (sd_caches E)) now c (schedules_key name))" for name
    by (simp add: cache_view_def views_Some(1) [OF c])
  have "k \<in> set (used_rule_keys (sd_uuid E) (co_schedules (sd_caches E)) now h c) \<longleftrightarrow>
      k \<in> referenced E (mv_schedules (cache_view E now h m))" for k
    unfolding mirror_laws.set_used_rule_keys [OF laws] referenced_def mem_Collect_eq view rule_key_def
    using key by (fastforce simp: map_option_case split: option.splits)
  then show ?thesis by blast
qed

lemma prune_step:
  assumes "mirror_laws (sd_caches E)" and "refreshing E w h s"
  shows "refreshing E w h (prune_rules E s)" and "view_of E (prune_rules E s) = prune_view E (view_of E s)"
proof -
  from assms(2) obtain m c rc v t where s: "sv_mem s = Some m" "mc_schedules m = Some c" "mc_rules m = Some rc"
    "mc_versions m = Some v" "mc_syncs m = Some t" "\<not> is_under_pressure (mc_monitor m)"
    "cache_all (co_schedules (sd_caches E)) (cached_ok h) c" "sv_world s = w" "sv_heap s = h"
    by (rule refreshingE)
  define now where "now = now_ns E s"
  define m' where "m' = prune_orphaned_rules (sd_uuid E) (sd_caches E) now h m"
  note pv = mirror_laws.prune_views [OF assms(1) s(2) m'_def]
  have mem: "sv_mem (prune_rules E s) = Some m'" and nw: "now_ns E (prune_rules E s) = now"
    and hp: "sv_heap (prune_rules E s) = h" "sv_world (prune_rules E s) = w"
    by (simp_all add: prune_rules_def s m'_def now_def now_ns_def now_of_def)
  show "refreshing E w h (prune_rules E s)"
    using pv(2-6) s by (simp add: refreshing_def mirror_ready_def pressured_def mem hp cache_ready_def complete_cache_def)
  have same: "schedules_at (sd_caches E) now m' = schedules_at (sd_caches E) now m"
      "versions_at (sd_caches E) now m' = versions_at (sd_caches E) now m"
      "syncs_at (sd_caches E) now m' = syncs_at (sd_caches E) now m"
    using pv(2-4) by (simp_all add: view_defs fun_eq_iff)
  have "rules_at (sd_caches E) now m' =
      rules_at (sd_caches E) now m |` referenced E (mv_schedules (cache_view E now h m))"
    by (simp add: fun_eq_iff pv(1) used_keys_referenced [OF assms(1) s(7) s(2)] restrict_map_def)
  then show "view_of E (prune_rules E s) = prune_view E (view_of E s)"
    using s by (simp add: view_of_def mem nw hp now_def [symmetric] cache_view_def same prune_view_def)
qed

section \<open>The folds in closed form\<close>

lemma fold_refresh_view:
  assumes "gm_ok gs"
  shows "fold (refresh_view E now) gs v =
    v\<lparr>mv_schedules := mv_schedules v ++ gm_get gs,
      mv_versions := mv_versions v ++ (\<lambda>name. map_option (hash_of E) (gm_get gs name)),
      mv_syncs := mv_syncs v ++ (\<lambda>name. map_option (\<lambda>_. now) (gm_get gs name))\<rparr>"
  using assms
proof (induction gs arbitrary: v)
  case (Cons g gs)
  obtain name ss where g: "g = (name, ss)" by fastforce
  from Cons.prems have ok: "gm_ok gs" and fresh: "gm_get gs name = None"
    by (auto simp: g gm_ok_def gm_get_def map_of_eq_None_iff)
  have get: "gm_get (g # gs) = (gm_get gs)(name \<mapsto> ss)" by (auto simp: g gm_get_def fun_eq_iff)
  show ?case
    unfolding fold_Cons comp_def Cons.IH [OF ok] get
    by (auto simp: refresh_view_def g map_add_def fun_eq_iff fresh split: option.split)
next
  case Nil
  show ?case by (simp add: map_add_def)
qed

lemma fold_rule_view:
  "fold (rule_view E) (map snd rules) v = v\<lparr>mv_rules := mv_rules v ++ gm_get (new_rules E rules)\<rparr>"
proof -
  have put: "gm_get (gm_put k r m) = (gm_get m)(k \<mapsto> r)" for k r and m :: "(string, decision_rule) gomap"
    by (simp add: fun_eq_iff)
  have "fold (rule_view E) rs (v\<lparr>mv_rules := mv_rules v ++ gm_get m\<rparr>) =
      v\<lparr>mv_rules := mv_rules v ++ gm_get (foldl (\<lambda>m r. gm_put (rule_key E (bm_id r)) r m) m rs)\<rparr>" for rs m
  proof (induction rs arbitrary: m)
    case (Cons r rs)
    have "rule_view E r (v\<lparr>mv_rules := mv_rules v ++ gm_get m\<rparr>) =
        v\<lparr>mv_rules := mv_rules v ++ gm_get (gm_put (rule_key E (bm_id r)) r m)\<rparr>"
      by (simp add: rule_view_def put)
    with Cons show ?case by simp
  qed simp
  from this [of "map snd rules" "[]"] show ?thesis
    by (simp add: new_rules_def map_add_def)
qed

section \<open>evaluate for named placements\<close>

lemma ready_refreshing: "mirror_ready E s \<Longrightarrow> \<not> pressured s \<Longrightarrow> refreshing E (sv_world s) (sv_heap s) s"
  by (simp add: refreshing_def)

lemma heap_world: "s\<lparr>sv_world := w, sv_heap := h\<rparr> = s\<lparr>sv_heap := h, sv_world := w\<rparr>"
  by (cases s) simp

lemma refreshing_keep:
  assumes "mirror_ready E s" and "\<not> pressured s" and "length (sv_heap s) \<le> length h"
  shows "refreshing E w h (s\<lparr>sv_heap := h, sv_world := w\<rparr>)"
  using assms by (auto simp: refreshing_def mirror_ready_def pressured_def intro: cache_ready_mono)

text \<open>New objects do not change what the mirror shows.\<close>

lemma view_extend_heap:
  assumes "mirror_ready E s" and "\<And>p. p < length (sv_heap s) \<Longrightarrow> deref h p = deref (sv_heap s) p"
  shows "view_of E (s\<lparr>sv_heap := h, sv_world := w\<rparr>) = view_of E (s\<lparr>sv_world := w\<rparr>)"
proof -
  from assms(1) obtain m c where m: "sv_mem s = Some m" "mc_schedules m = Some c"
    "cache_all (co_schedules (sd_caches E)) (cached_ok (sv_heap s)) c"
    by (auto simp: mirror_ready_def cache_ready_def complete_cache_def)
  have "map (deref h) ps = map (deref (sv_heap s)) ps"
    if "cm_get (co_schedules (sd_caches E)) now c key = Some ps" for now key ps
    using cache_allD [OF m(3) that] assms(2) by (auto simp: cached_ok_def list_all_iff)
  then show ?thesis
    by (auto simp: view_of_def cache_view_def m views_Some(1) [OF m(2)] now_ns_def now_of_def fun_eq_iff
        map_option_case split: option.split)
qed

lemma fold_refresh_groups:
  assumes laws: "mirror_laws (sd_caches E)" and "refreshing E w h s" and ok: "gm_ok groups"
    and entries: "\<And>name ps. (name, ps) \<in> set groups \<Longrightarrow> list_all (\<lambda>p. p < length h) ps"
  obtains s' where "fold_steps (refresh_placement E) groups s = Some s'" and "refreshing E w h s'"
    and "view_of E s' = fold (refresh_view E (sd_now E w)) (map (\<lambda>(name, ps). (name, map (deref h) ps)) groups) (view_of E s)"
proof -
  have "\<exists>s'. fold_steps (refresh_placement E) groups s = Some s' \<and> refreshing E w h s'
      \<and> view_of E s' = fold (\<lambda>g. refresh_view E (sd_now E w) (case g of (name, ps) \<Rightarrow> (name, map (deref h) ps)))
          groups (view_of E s)"
  proof (rule fold_steps_sim [where I = "refreshing E w h"])
    show "refreshing E w h s" by (rule assms(2))
    fix g s assume "g \<in> set groups" and "refreshing E w h s"
    then show "\<exists>s'. refresh_placement E g s = Some s' \<and> refreshing E w h s' \<and>
        view_of E s' = refresh_view E (sd_now E w) (case g of (name, ps) \<Rightarrow> (name, map (deref h) ps)) (view_of E s)"
      using refresh_step [OF laws, of w h s "snd g" "fst g"] entries [of "fst g" "snd g"]
      by (simp add: split_beta)
  qed
  then show thesis using that by (auto simp: fold_map comp_def)
qed

lemma fold_set_rules:
  assumes laws: "mirror_laws (sd_caches E)" and "refreshing E w h s"
  obtains s' where "fold_steps (set_rule E) rs s = Some s'" and "refreshing E w h s'"
    and "view_of E s' = fold (rule_view E) rs (view_of E s)"
  using fold_steps_sim [where xs = rs and I = "refreshing E w h" and f = "set_rule E" and V = "view_of E"
      and g = "rule_view E", OF set_rule_step [OF laws] assms(2)] by auto

lemma evaluate_targeted:
  assumes laws: "mirror_laws (sd_caches E)" and ready: "mirror_ready E s" and free: "\<not> pressured s"
    and names: "names \<noteq> []" and repo: "sd_occurrences E = Some repo"
    and listing: "or_list_active_by_placements_at repo (sv_world s) names (now_of E s) = (Inr occs, w)"
    and some: "\<exists>name. listed occs name \<noteq> None"
    and fetch: "sd_rules E = Some fetch" "fst (fetch w (map bm_id (unique_schedules occs))) = rs"
  obtains s' where "evaluate E names s = Some s'" and "mirror_ready E s'" and "\<not> pressured s'"
    and "view_of E s' = targeted_refresh E (now_of E s') occs (rules_or_none rs)
      (view_of E (s\<lparr>sv_world := sv_world s'\<rparr>))"
proof -
  obtain ps h where alloc: "alloc (unique_schedules occs) (sv_heap s) = (ps, h)" by fastforce
  note heap = alloc_schedules [OF alloc]
  define groups where "groups = placement_groups h ps"
  obtain w2 where w2: "fetch w (map bm_id (unique_schedules occs)) = (rs, w2)"
    using fetch(2) by (metis prod.collapse)
  define s1 where "s1 = s\<lparr>sv_heap := h, sv_world := w2\<rparr>"
  have groups: "groups \<noteq> []" using groups_Nil [OF heap(1)] some unfolding groups_def by auto
  have occs: "occs \<noteq> []" using some by (auto simp: listed_def unique_schedules_def dedup_by_def)
  from ready obtain m where mem: "sv_mem s = Some m" by (auto simp: mirror_ready_def)
  have step: "evaluate E names s =
      do { s \<leftarrow> fold_steps (refresh_placement E) groups s1;
           s \<leftarrow> fold_steps (set_rule E) (map snd (rules_or_none rs)) s;
           Some (prune_rules E s) }"
    by (simp add: evaluate_def list_occurrences_def repo listing alloc Let_def groups_def [symmetric] names
        groups occs fetch_rules_def fetch(1) w2 repopulate_def s1_def mem)
  have start: "refreshing E w2 h s1" unfolding s1_def by (rule refreshing_keep [OF ready free heap(2)])
  obtain s2 where s2: "fold_steps (refresh_placement E) groups s1 = Some s2" "refreshing E w2 h s2"
      "view_of E s2 = fold (refresh_view E (sd_now E w2)) (map (\<lambda>(name, ps). (name, map (deref h) ps)) groups) (view_of E s1)"
    by (rule fold_refresh_groups [OF laws start, of groups])
      (use groups_entries [OF heap(3)] in \<open>auto simp: groups_def\<close>)
  obtain s3 where s3: "fold_steps (set_rule E) (map snd (rules_or_none rs)) s2 = Some s3" "refreshing E w2 h s3"
      "view_of E s3 = fold (rule_view E) (map snd (rules_or_none rs)) (view_of E s2)"
    by (rule fold_set_rules [OF laws s2(2)])
  note s4 = prune_step [OF laws s3(2)]
  let ?gs = "map (\<lambda>(name, ps). (name, map (deref h) ps)) groups"
  have get: "gm_get ?gs = listed occs"
    using gm_get_map_key [of "\<lambda>k. k" "\<lambda>k. map (deref h)" groups] groups_listed [OF heap(1)]
    by (simp add: groups_def fun_eq_iff inj_def)
  have ok: "gm_ok ?gs"
    using gm_ok_map_key [of "\<lambda>k. k" groups "\<lambda>k. map (deref h)"] by (simp add: groups_def inj_def)
  have world: "sv_world (prune_rules E s3) = w2" and now: "now_of E (prune_rules E s3) = sd_now E w2"
    using s4(1) by (simp_all add: refreshing_def now_of_def)
  have "view_of E s1 = view_of E (s\<lparr>sv_world := w2\<rparr>)"
    unfolding s1_def by (rule view_extend_heap [OF ready heap(4)])
  then have "view_of E (prune_rules E s3) = targeted_refresh E (sd_now E w2) occs (rules_or_none rs)
      (view_of E (s\<lparr>sv_world := w2\<rparr>))"
    unfolding s4(2) s3(3) s2(3) fold_rule_view fold_refresh_view [OF ok] get
    by (cases "view_of E (s\<lparr>sv_world := w2\<rparr>)") (simp add: targeted_refresh_def)
  with that [of "prune_rules E s3"] show thesis
    using s4(1) world now by (simp add: step s2(1) s3(1) refreshing_def)
qed

section \<open>evaluate when there is nothing to mirror\<close>

text \<open>The database cannot be read: only the world has moved on.\<close>

lemma evaluate_list_error:
  assumes "sd_occurrences E = Some repo"
    and "(if names \<noteq> [] then or_list_active_by_placements_at repo (sv_world s) names (now_of E s)
      else or_list_active_at repo (sv_world s) (now_of E s)) = (Inl e, w)"
  shows "evaluate E names s = Some (s\<lparr>sv_world := w\<rparr>)"
  using assms by (cases "names = []") (simp_all add: evaluate_def list_occurrences_def)

lemma clear_step:
  assumes "mirror_laws (sd_caches E)" and "refreshing E w h s" and "sd_has_metric E"
  shows "\<exists>s'. clear_placement E name s = Some s' \<and> refreshing E w h s'
    \<and> view_of E s' = clear_view (sd_now E w) [name] (view_of E s)"
proof -
  note ops = mirror_laws.cm_views [OF assms(1)] mirror_laws.cm_alls [OF assms(1)]
  from assms(2) obtain m c r v t where s: "sv_mem s = Some m" "mc_schedules m = Some c" "mc_rules m = Some r"
    "mc_versions m = Some v" "mc_syncs m = Some t" "\<not> is_under_pressure (mc_monitor m)"
    "cache_all (co_schedules (sd_caches E)) (cached_ok h) c" "sv_world s = w" "sv_heap s = h"
    by (rule refreshingE)
  then show ?thesis
    by (auto simp: clear_placement_def refreshing_def mirror_ready_def cache_ready_def complete_cache_def
        pressured_def view_of_def cache_view_def views_Some now_ns_def now_of_def clear_view_def
        restrict_map_def fun_eq_iff ops assms(3))
qed

lemma clear_view_append: "clear_view now (name # names) v = clear_view now names (clear_view now [name] v)"
  by (cases v) (auto simp: clear_view_def restrict_map_def fun_eq_iff)

lemma fold_clear_view: "fold (\<lambda>name. clear_view now [name]) names v = clear_view now names v"
proof (induction names arbitrary: v)
  case Nil
  show ?case by (cases v) (simp add: clear_view_def restrict_map_def)
next
  case (Cons name names)
  then show ?case by (simp add: clear_view_append [of now name names])
qed

lemma evaluate_cleared:
  assumes laws: "mirror_laws (sd_caches E)" and ready: "mirror_ready E s" and free: "\<not> pressured s"
    and metric: "sd_has_metric E" and names: "names \<noteq> []" and repo: "sd_occurrences E = Some repo"
    and listing: "or_list_active_by_placements_at repo (sv_world s) names (now_of E s) = (Inr [], w)"
  obtains s' where "evaluate E names s = Some s'" and "mirror_ready E s'" and "sv_world s' = w"
    and "view_of E s' = clear_view (now_of E s') names (view_of E (s\<lparr>sv_world := w\<rparr>))"
proof -
  let ?s = "s\<lparr>sv_world := w\<rparr>"
  have step: "evaluate E names s = fold_steps (clear_placement E) names ?s"
    by (simp add: evaluate_def list_occurrences_def repo listing names)
  have start: "refreshing E w (sv_heap s) ?s"
    using ready free by (auto simp: refreshing_def mirror_ready_def pressured_def)
  have "\<exists>s'. fold_steps (clear_placement E) names ?s = Some s' \<and> refreshing E w (sv_heap s) s'
      \<and> view_of E s' = fold (\<lambda>name. clear_view (sd_now E w) [name]) names (view_of E ?s)"
    by (rule fold_steps_sim [where I = "refreshing E w (sv_heap s)", OF _ start])
      (rule clear_step [OF laws _ metric])
  then obtain s' where "fold_steps (clear_placement E) names ?s = Some s'" "refreshing E w (sv_heap s) s'"
    "view_of E s' = clear_view (sd_now E w) names (view_of E ?s)"
    unfolding fold_clear_view by blast
  then show thesis
    using that by (auto simp: step refreshing_def now_of_def)
qed

text \<open>
  Rows without a usable placement: the whole mirror is emptied, whichever placements the
  refresh was for.
\<close>

lemma evaluate_wiped:
  assumes laws: "mirror_laws (sd_caches E)" and ready: "mirror_ready E s" and free: "\<not> pressured s"
    and names: "names \<noteq> []" and repo: "sd_occurrences E = Some repo"
    and listing: "or_list_active_by_placements_at repo (sv_world s) names (now_of E s) = (Inr occs, w)"
    and rows: "occs \<noteq> []" and none: "\<And>name. listed occs name = None"
  obtains s' where "evaluate E names s = Some s'" and "mirror_ready E s'" and "view_of E s' = empty_view"
proof -
  obtain ps h where alloc: "alloc (unique_schedules occs) (sv_heap s) = (ps, h)" by fastforce
  note heap = alloc_schedules [OF alloc]
  have groups: "placement_groups h ps = []" using groups_Nil [OF heap(1)] none by simp
  define s1 where "s1 = s\<lparr>sv_heap := h, sv_world := w\<rparr>"
  have step: "evaluate E names s = replace_mirror E (new_schedules []) [] (new_versions E (sv_heap s1) []) s1"
    by (simp add: evaluate_def list_occurrences_def repo listing alloc Let_def groups names rows s1_def
        heap_world new_schedules_def new_versions_def)
  have "refreshing E w h s1" unfolding s1_def by (rule refreshing_keep [OF ready free heap(2)])
  then obtain m where m: "sv_mem s1 = Some m" "cache_ready E (sv_heap s1) m" "\<not> is_under_pressure (mc_monitor m)"
    by (auto simp: refreshing_def mirror_ready_def pressured_def)
  obtain s' m' where s': "replace_mirror E (new_schedules []) [] (new_versions E (sv_heap s1) []) s1 = Some s'"
      "sv_mem s' = Some m'" "cache_ready E (sv_heap s1) m'" "sv_world s' = sv_world s1" "sv_heap s' = sv_heap s1"
      "cache_view E (now_ns E s1) (sv_heap s1) m' = empty_view"
    by (rule replace_mirror_view [OF laws m, of "[]" "[]"]) (simp_all add: empty_view_def fun_eq_iff)
  have "view_of E s' = empty_view"
    using s' by (simp add: view_of_def now_ns_def now_of_def)
  then show thesis using that step s' by (auto simp: mirror_ready_def)
qed

section \<open>The version gauge\<close>

text \<open>
  The old version of a placement is read from the mirror after the new one is in it, so it
  is never found different: no call to remove the label of an old version is ever made.
\<close>

definition labels_kept :: "metric_event list \<Rightarrow> bool" where
  "labels_kept evs = list_all (\<lambda>e. case e of Delete_Labels _ _ \<Rightarrow> False | _ \<Rightarrow> True) evs"

lemma labels_kept_simps [simp]:
  "labels_kept []" "labels_kept (a @ b) \<longleftrightarrow> labels_kept a \<and> labels_kept b"
  "\<not> labels_kept (Delete_Labels p v # es)" "labels_kept (Set_Labels p v # es) \<longleftrightarrow> labels_kept es"
  "labels_kept (Delete_Placement p # es) \<longleftrightarrow> labels_kept es"
  by (simp_all add: labels_kept_def)

lemma fold_steps_inv:
  "fold_steps f xs s = Some s' \<Longrightarrow> P s \<Longrightarrow> (\<And>x s s'. f x s = Some s' \<Longrightarrow> P s \<Longrightarrow> P s') \<Longrightarrow> P s'"
  by (induction xs arbitrary: s) (auto simp: bind_eq_Some_conv)

lemma metric_after_set:
  assumes "mirror_laws (sd_caches E)"
  shows "labels_kept (update_version_metric E now (Some (cm_set (co_versions (sd_caches E)) mm now ttl k v c)) k v)"
proof -
  have "go_cache_laws (co_versions (sd_caches E))" using assms by (simp add: mirror_laws_def)
  then have "cm_get (co_versions (sd_caches E)) now (cm_set (co_versions (sd_caches E)) mm now ttl k v c) k \<in> {None, Some v}"
    by (auto simp: cm_get_def cm_set_def go_cache_laws.get_set)
  then show ?thesis by (auto simp: update_version_metric_def)
qed

lemma labels_set_versions:
  assumes "mirror_laws (sd_caches E)"
  shows "labels_kept (snd (set_versions (co_versions (sd_caches E)) mm now ttl
    (Some (\<lambda>c. update_version_metric E now (Some c))) nv c))"
proof -
  let ?V = "co_versions (sd_caches E)"
  have "labels_kept evs \<Longrightarrow> labels_kept (snd (foldl (\<lambda>(c, evs) (k, v).
      let c' = cm_set ?V mm now ttl k v c in
      (c', evs @ (case Some (\<lambda>c. update_version_metric E now (Some c)) of None \<Rightarrow> [] | Some f \<Rightarrow> f c' k v)))
      (c, evs) nv))" for c evs
    by (induction nv arbitrary: c evs) (auto simp: Let_def split_beta metric_after_set [OF assms])
  then show ?thesis by (simp add: set_versions_def)
qed

lemma labels_replace:
  assumes "mirror_laws (sd_caches E)" and "replace_mirror E ns nr nv s = Some s'" and "labels_kept (sv_metrics s)"
  shows "labels_kept (sv_metrics s')"
  using assms(2,3) labels_set_versions [OF assms(1)]
  by (auto simp: replace_mirror_def update_schedules_def bind_eq_Some_conv Let_def split_beta now_ns_def
      split: option.splits)

lemma labels_evaluate:
  assumes laws: "mirror_laws (sd_caches E)" and eval: "evaluate E names s = Some s'"
    and kept: "labels_kept (sv_metrics s)"
  shows "labels_kept (sv_metrics s')"
proof -
  have clear: "labels_kept (sv_metrics s2)" if "clear_placement E name s1 = Some s2" "labels_kept (sv_metrics s1)" for name s1 s2
    using that by (auto simp: clear_placement_def bind_eq_Some_conv split: option.splits if_splits)
  have refresh: "labels_kept (sv_metrics s2)" if "refresh_placement E g s1 = Some s2" "labels_kept (sv_metrics s1)" for g s1 s2
    using that by (auto simp: refresh_placement_def bind_eq_Some_conv Let_def metric_after_set [OF laws] split: prod.splits)
  have rule: "labels_kept (sv_metrics s2)" if "set_rule E r s1 = Some s2" "labels_kept (sv_metrics s1)" for r s1 s2
    using that by (auto simp: set_rule_def bind_eq_Some_conv)
  have repop: "labels_kept (sv_metrics s2)"
    if "repopulate E t groups rules s1 = Some s2" "labels_kept (sv_metrics s1)" for t groups rules s1 s2
    using that
    by (auto simp: repopulate_def bind_eq_Some_conv prune_rules_def intro: labels_replace [OF laws] refresh rule
        dest!: fold_steps_inv [where P = "\<lambda>s. labels_kept (sv_metrics s)"] split: if_splits)
  from eval obtain r s1 where list: "list_occurrences E names s = Some (r, s1)" by (auto simp: evaluate_def bind_eq_Some_conv)
  have kept1: "labels_kept (sv_metrics s1)"
    using list kept by (auto simp: list_occurrences_def bind_eq_Some_conv Let_def split: if_splits prod.splits)
  show ?thesis
    using eval kept1
    by (auto simp: evaluate_def list fetch_rules_def bind_eq_Some_conv Let_def split_beta
        intro: labels_replace [OF laws] repop
        dest: fold_steps_inv [where P = "\<lambda>s. labels_kept (sv_metrics s)", OF _ _ clear]
        split: sum.splits if_splits)
qed

end
