(* ===== verification/Mirror_Flush.thy ===== *)
theory Mirror_Flush
  imports Mirror_Refresh
begin

text \<open>
  FlushCache on the abstract mirror: a full flush leaves the empty mirror, a flush of named
  placements removes their entries and the rules their schedules use, and nothing else.
\<close>

text \<open>The key of the rule a schedule uses: the attached rule's, else the one it refers to.\<close>

definition used_rule :: "schedule \<Rightarrow> uuid option" where
  "used_rule sc =
     (case sc_rule sc of
        Some r \<Rightarrow> Some (bm_id r)
      | None \<Rightarrow> if sc_rule_id sc \<noteq> uuid_nil then Some (sc_rule_id sc) else None)"

definition used_keys :: "('c, 'w) service_deps \<Rightarrow> schedule list \<Rightarrow> string set" where
  "used_keys E ss = {rule_key E u |u sc. sc \<in> set ss \<and> used_rule sc = Some u}"

definition flush_view :: "('c, 'w) service_deps \<Rightarrow> string \<Rightarrow> mirror_view \<Rightarrow> mirror_view" where
  "flush_view E name v =
     \<lparr>mv_schedules = (mv_schedules v)(name := None),
      mv_rules = mv_rules v |` (- used_keys E (case mv_schedules v name of None \<Rightarrow> [] | Some ss \<Rightarrow> ss)),
      mv_versions = (mv_versions v)(name := None),
      mv_syncs = (mv_syncs v)(name := None)\<rparr>"

lemma used_keys_Nil: "used_keys E [] = {}"
  by (simp add: used_keys_def)

text \<open>The rules go one by one.\<close>

lemma flush_rules:
  assumes "mirror_laws (sd_caches E)" and "mc_rules m = Some r"
  obtains r' where "fold_steps (flush_schedule_rule E h) ps m = Some (m\<lparr>mc_rules := Some r'\<rparr>)"
    and "\<And>now. cm_get (co_rules (sd_caches E)) now r' =
      cm_get (co_rules (sd_caches E)) now r |` (- used_keys E (map (deref h) ps))"
  using assms(2)
proof (induction ps arbitrary: m r thesis)
  case Nil
  show ?case by (rule Nil.prems(1) [of r]) (cases m; use Nil.prems(2) in \<open>simp add: used_keys_def restrict_map_def\<close>)+
next
  case (Cons p ps)
  let ?R = "co_rules (sd_caches E)"
  have keys: "used_keys E (map (deref h) (p # ps)) =
      (case used_rule (deref h p) of None \<Rightarrow> {} | Some u \<Rightarrow> {rule_key E u}) \<union> used_keys E (map (deref h) ps)"
    by (auto simp: used_keys_def split: option.splits)
  show ?case
  proof (cases "used_rule (deref h p)")
    case None
    then have "flush_schedule_rule E h p m = Some m"
      by (auto simp: flush_schedule_rule_def used_rule_def split: option.splits if_splits)
    with Cons None keys show ?thesis by auto
  next
    case (Some u)
    define r1 where "r1 = cm_delete ?R (rule_key E u) r"
    have step: "flush_schedule_rule E h p m = Some (m\<lparr>mc_rules := Some r1\<rparr>)"
      using Some by (auto simp: flush_schedule_rule_def used_rule_def delete_rule_def Cons.prems(2) r1_def
          split: option.splits if_splits)
    obtain r' where r': "fold_steps (flush_schedule_rule E h) ps (m\<lparr>mc_rules := Some r1\<rparr>) =
        Some (m\<lparr>mc_rules := Some r1, mc_rules := Some r'\<rparr>)"
      "\<And>now. cm_get ?R now r' = cm_get ?R now r1 |` (- used_keys E (map (deref h) ps))"
      by (rule Cons.IH [of "m\<lparr>mc_rules := Some r1\<rparr>" r1]) simp_all
    have "cm_get ?R now r' = cm_get ?R now r |` (- used_keys E (map (deref h) (p # ps)))" for now
      unfolding r'(2) keys by (auto simp: Some r1_def mirror_laws.cm_views [OF assms(1)] restrict_map_def fun_eq_iff)
    with Cons.prems(1) r'(1) step show ?thesis by simp
  qed
qed

lemma flush_placement_view:
  assumes laws: "mirror_laws (sd_caches E)" and ready: "cache_ready E h m"
  obtains m' where "flush_placement E now h name m = Some m'" and "cache_ready E h m'"
    and "mc_monitor m' = mc_monitor m" and "cache_view E now h m' = flush_view E name (cache_view E now h m)"
proof -
  note ops = mirror_laws.cm_views [OF laws] mirror_laws.cm_alls [OF laws]
  let ?C = "sd_caches E"
  from ready obtain c r v t where m: "mc_schedules m = Some c" "mc_rules m = Some r"
    "mc_versions m = Some v" "mc_syncs m = Some t" and all: "cache_all (co_schedules ?C) (cached_ok h) c"
    by (auto simp: cache_ready_def complete_cache_def)
  define ps where "ps = (case cm_get (co_schedules ?C) now c (schedules_key name) of None \<Rightarrow> [] | Some ps \<Rightarrow> ps)"
  obtain r' where r': "fold_steps (flush_schedule_rule E h) ps m = Some (m\<lparr>mc_rules := Some r'\<rparr>)"
    and get: "\<And>now. cm_get (co_rules ?C) now r' = cm_get (co_rules ?C) now r |` (- used_keys E (map (deref h) ps))"
    by (rule flush_rules [OF laws m(2)]) blast
  have loop: "(case cm_get (co_schedules ?C) now c (schedules_key name) of None \<Rightarrow> Some m
      | Some ps \<Rightarrow> fold_steps (flush_schedule_rule E h) ps m) = Some (m\<lparr>mc_rules := Some r'\<rparr>)"
    using r' by (simp add: ps_def split: option.splits)
  let ?m' = "m\<lparr>mc_rules := Some r', mc_schedules := Some (cm_delete (co_schedules ?C) (schedules_key name) c),
      mc_versions := Some (cm_delete (co_versions ?C) name v), mc_syncs := Some (cm_delete (co_syncs ?C) name t)\<rparr>"
  have step: "flush_placement E now h name m = Some ?m'"
    by (simp add: flush_placement_def m loop Let_def)
  have listed: "(case mv_schedules (cache_view E now h m) name of None \<Rightarrow> [] | Some ss \<Rightarrow> ss) = map (deref h) ps"
    by (simp add: cache_view_def views_Some(1) [OF m(1)] ps_def split: option.split)
  have "cache_view E now h ?m' = flush_view E name (cache_view E now h m)"
    unfolding flush_view_def listed
    by (simp add: cache_view_def views_Some m ops get fun_eq_iff)
  then show thesis
    by (intro that [OF step]) (use m all in \<open>simp_all add: cache_ready_def complete_cache_def ops\<close>)
qed

lemma flush_all_view:
  assumes laws: "mirror_laws (sd_caches E)" and ready: "cache_ready E h m"
  obtains m' where "clear_all E m = Some m'" and "cache_ready E h m'"
    and "mc_monitor m' = mc_monitor m" and "cache_view E now h m' = empty_view"
proof -
  note ops = mirror_laws.cm_views [OF laws] mirror_laws.cm_alls [OF laws]
  from ready obtain c r v t where m: "mc_schedules m = Some c" "mc_rules m = Some r"
    "mc_versions m = Some v" "mc_syncs m = Some t"
    by (auto simp: cache_ready_def complete_cache_def)
  let ?m' = "m\<lparr>mc_schedules := Some (cm_clear (co_schedules (sd_caches E)) c),
      mc_rules := Some (cm_clear (co_rules (sd_caches E)) r),
      mc_versions := Some (cm_clear (co_versions (sd_caches E)) v),
      mc_syncs := Some (cm_clear (co_syncs (sd_caches E)) t)\<rparr>"
  have "clear_all E m = Some ?m'" by (simp add: clear_all_def m Let_def)
  then show thesis
    by (rule that)
      (simp_all add: cache_ready_def complete_cache_def ops cache_view_def empty_view_def views_Some fun_eq_iff)
qed

text \<open>A flush without evaluation, on the view.\<close>

lemma flush_cache_view:
  assumes laws: "mirror_laws (sd_caches E)" and ready: "mirror_ready E s"
  obtains s' where "flush_cache E names False s = Some s'" and "mirror_ready E s'"
    and "sv_world s' = sv_world s" and "sv_heap s' = sv_heap s" and "sv_metrics s' = sv_metrics s"
    and "view_of E s' = (if names = [] then empty_view else fold (flush_view E) names (view_of E s))"
proof -
  let ?now = "now_ns E s" and ?h = "sv_heap s"
  from ready obtain m where mem: "sv_mem s = Some m" and m: "cache_ready E ?h m" by (auto simp: mirror_ready_def)
  define m'_opt where "m'_opt =
    (if names = [] then clear_all E m else fold_steps (flush_placement E ?now ?h) names m)"
  have "\<exists>m'. m'_opt = Some m' \<and> cache_ready E ?h m' \<and>
      cache_view E ?now ?h m' = (if names = [] then empty_view else fold (flush_view E) names (cache_view E ?now ?h m))"
  proof (cases "names = []")
    case True
    then show ?thesis using flush_all_view [OF laws m] by (metis m'_opt_def)
  next
    case False
    have "\<exists>m'. fold_steps (flush_placement E ?now ?h) names m = Some m' \<and> cache_ready E ?h m' \<and>
        cache_view E ?now ?h m' = fold (flush_view E) names (cache_view E ?now ?h m)"
      by (rule fold_steps_sim [where I = "cache_ready E ?h", OF _ m]) (metis flush_placement_view [OF laws])
    with False show ?thesis by (simp add: m'_opt_def)
  qed
  then obtain m' where m': "m'_opt = Some m'" "cache_ready E ?h m'"
    "cache_view E ?now ?h m' = (if names = [] then empty_view else fold (flush_view E) names (cache_view E ?now ?h m))"
    by blast
  have "flush_cache E names False s = Some (s\<lparr>sv_mem := Some m'\<rparr>)"
    using m'(1) by (simp add: flush_cache_def mem m'_opt_def)
  then show thesis
    by (rule that) (use m' mem in \<open>simp_all add: mirror_ready_def view_of_def now_ns_def now_of_def\<close>)
qed

lemma fold_flush_view:
  "mv_schedules (fold (flush_view E) names v) = mv_schedules v |` (- set names)"
  "mv_versions (fold (flush_view E) names v) = mv_versions v |` (- set names)"
  "mv_syncs (fold (flush_view E) names v) = mv_syncs v |` (- set names)"
  by (induction names arbitrary: v) (auto simp: flush_view_def restrict_map_def fun_eq_iff)

text \<open>Going in any order, the rules used by the schedules of any named placement are gone.\<close>

lemma fold_flush_rules:
  "mv_rules (fold (flush_view E) names v) =
    mv_rules v |` (- {k. \<exists>name \<in> set names. \<exists>ss. mv_schedules v name = Some ss \<and> k \<in> used_keys E ss})"
proof (induction names arbitrary: v)
  case Nil
  show ?case by (simp add: restrict_map_def)
next
  case (Cons n names)
  let ?v = "flush_view E n v"
  have "(\<exists>name \<in> set names. \<exists>ss. mv_schedules ?v name = Some ss \<and> k \<in> used_keys E ss)
      \<longleftrightarrow> (\<exists>name \<in> set names - {n}. \<exists>ss. mv_schedules v name = Some ss \<and> k \<in> used_keys E ss)" for k
    by (auto simp: flush_view_def)
  moreover have "mv_rules ?v = mv_rules v |` (- {k. \<exists>ss. mv_schedules v n = Some ss \<and> k \<in> used_keys E ss})"
    by (cases "mv_schedules v n") (simp_all add: flush_view_def restrict_map_def fun_eq_iff used_keys_Nil)
  ultimately show ?case
    unfolding fold_Cons comp_def Cons.IH by (auto simp: restrict_map_def fun_eq_iff)
qed

text \<open>A flush does not touch the monitor.\<close>

lemma flush_rules_monitor:
  "fold_steps (flush_schedule_rule E h) ps m = Some m' \<Longrightarrow> mc_monitor m' = mc_monitor m"
proof (induction ps arbitrary: m)
  case (Cons p ps)
  then obtain m1 where m1: "flush_schedule_rule E h p m = Some m1" "fold_steps (flush_schedule_rule E h) ps m1 = Some m'"
    by (auto simp: bind_eq_Some_conv)
  then have "mc_monitor m1 = mc_monitor m"
    by (auto simp: flush_schedule_rule_def delete_rule_def bind_eq_Some_conv split: option.splits if_splits)
  with Cons.IH [OF m1(2)] show ?case by simp
qed simp

lemma flush_placements_monitor:
  "fold_steps (flush_placement E now h) names m = Some m' \<Longrightarrow> mc_monitor m' = mc_monitor m"
proof (induction names arbitrary: m)
  case (Cons name names)
  then obtain m1 where m1: "flush_placement E now h name m = Some m1" "fold_steps (flush_placement E now h) names m1 = Some m'"
    by (auto simp: bind_eq_Some_conv)
  then have "mc_monitor m1 = mc_monitor m"
    using flush_rules_monitor [of E h _ m]
    by (auto simp: flush_placement_def bind_eq_Some_conv Let_def split: option.splits)
  with Cons.IH [OF m1(2)] show ?case by simp
qed simp

lemma flush_pressured: "flush_cache E names False s = Some s' \<Longrightarrow> pressured s' = pressured s"
  by (auto simp: flush_cache_def clear_all_def pressured_def bind_eq_Some_conv Let_def
      dest: flush_placements_monitor split: if_splits option.splits)

end
