(* ===== verification/Sync_Subscriber.thy ===== *)
theory Sync_Subscriber
  imports Mirror_Refresh Go_Json
begin

text \<open>
  The sync channel between the backoffice and the delivery pods:
  src/internal/infrastructure/pubsub/cms_sync.go (SyncPingMessage and its publisher) and
  subscribeToUpdates of src/cmd/server/service/cms_delivery_service.go. The subscriber takes
  a message in two moments, before and after a random wait in which the rest of the service
  goes on; each is a function on the state of its moment.
\<close>

section \<open>SyncPingMessage\<close>

definition channel_cms_sync_ping :: string where
  "channel_cms_sync_ping = ''cms:sync:ping''"

record sync_ping =
  sp_placement_name :: string
  sp_version_hash :: string
  sp_decision_rule_id :: string

definition zero_ping :: sync_ping where
  "zero_ping = \<lparr>sp_placement_name = [], sp_version_hash = [], sp_decision_rule_id = []\<rparr>"

definition ping_fields :: "sync_ping field list" where
  "ping_fields =
     [mk_field ''placement_name'' dec_string sp_placement_name (\<lambda>v r. r\<lparr>sp_placement_name := v\<rparr>),
      mk_field ''version_hash'' dec_string sp_version_hash (\<lambda>v r. r\<lparr>sp_version_hash := v\<rparr>),
      mk_field ''decision_rule_id'' dec_string sp_decision_rule_id (\<lambda>v r. r\<lparr>sp_decision_rule_id := v\<rparr>)]"

definition unmarshal_ping :: "string \<Rightarrow> sync_ping \<times> bool" where
  "unmarshal_ping msg = unmarshal (dec_struct ping_fields) zero_ping msg"

definition marshal_ping :: "sync_ping \<Rightarrow> string" where
  "marshal_ping p =
     CHR 0x7B # join '',''
       ([key_colon ''placement_name'' (quote (sp_placement_name p)),
         key_colon ''version_hash'' (quote (sp_version_hash p))]
        @ (if sp_decision_rule_id p = [] then []
           else [key_colon ''decision_rule_id'' (quote (sp_decision_rule_id p))])) @ [CHR 0x7D]"

section \<open>Publisher\<close>

text \<open>PingSync; the publisher without a Redis repository does nothing.\<close>

definition ping_sync ::
  "'w redis_repo option \<Rightarrow> string \<Rightarrow> string \<Rightarrow> string \<Rightarrow> 'w \<Rightarrow> string option \<times> 'w" where
  "ping_sync redis placement_name decision_rule_id version_hash w =
     (case redis of
        None \<Rightarrow> (None, w)
      | Some r \<Rightarrow>
          rd_publish r w channel_cms_sync_ping
            (marshal_ping \<lparr>sp_placement_name = placement_name, sp_version_hash = version_hash,
               sp_decision_rule_id = decision_rule_id\<rparr>))"

section \<open>Subscriber\<close>

text \<open>Whether the mirror already has the version a ping announces.\<close>

definition already_mirrored ::
  "('c, 'w) service_deps \<Rightarrow> sync_ping \<Rightarrow> ('c, 'w) service \<Rightarrow> bool option" where
  "already_mirrored E ping s =
     (case sv_mem s of
        None \<Rightarrow> Some False
      | Some m \<Rightarrow>
          if sp_version_hash ping = [] then Some False
          else
            do { c \<leftarrow> mc_versions m;
                 Some (cm_get (co_versions (sd_caches E)) (now_ns E s) c (sp_placement_name ping)
                   = Some (sp_version_hash ping)) })"

text \<open>
  On receipt: a message that is not JSON of the right shape is not checked, but the fields
  that were decoded before the error stay in the ping. None in the inner option: skipped.
\<close>

definition receive_message ::
  "('c, 'w) service_deps \<Rightarrow> string \<Rightarrow> ('c, 'w) service \<Rightarrow> sync_ping option option" where
  "receive_message E msg s =
     (case unmarshal_ping msg of (ping, ok) \<Rightarrow>
        if \<not> ok then Some (Some ping)
        else map_option (\<lambda>known. if known then None else Some ping) (already_mirrored E ping s))"

definition jitter :: "nat \<Rightarrow> duration" where
  "jitter r = (int (r mod 450) + 50) * (second_ns div 1000)"

text \<open>Named rules and placements leave the mirror before the evaluation.\<close>

definition invalidate ::
  "('c, 'w) service_deps \<Rightarrow> sync_ping \<Rightarrow> ('c, 'w) service \<Rightarrow> ('c, 'w) service option" where
  "invalidate E ping s =
     (case sv_mem s of
        None \<Rightarrow> Some s
      | Some m \<Rightarrow>
          if sp_decision_rule_id ping = [] then Some s
          else
            do { m \<leftarrow> delete_rule E (rule_cache_key (sp_decision_rule_id ping)) m;
                 if sp_placement_name ping = [] then Some (s\<lparr>sv_mem := Some m\<rparr>)
                 else
                   do { c \<leftarrow> mc_schedules m;
                        Some (s\<lparr>sv_mem := Some (m\<lparr>mc_schedules := Some
                          (cm_delete (co_schedules (sd_caches E)) (schedules_key (sp_placement_name ping)) c)\<rparr>)\<rparr>) } })"

text \<open>After the wait.\<close>

definition apply_ping ::
  "('c, 'w) service_deps \<Rightarrow> sync_ping \<Rightarrow> ('c, 'w) service \<Rightarrow> ('c, 'w) service option" where
  "apply_ping E ping s =
     do { known \<leftarrow> already_mirrored E ping s;
          if known then Some s
          else
            do { s \<leftarrow> invalidate E ping s;
                 evaluate E (if sp_placement_name ping \<noteq> [] then [sp_placement_name ping] else []) s } }"

text \<open>One message, with what happens during the wait as an argument.\<close>

definition handle_message ::
  "('c, 'w) service_deps \<Rightarrow> string \<Rightarrow> (('c, 'w) service \<Rightarrow> ('c, 'w) service) \<Rightarrow> ('c, 'w) service
    \<Rightarrow> ('c, 'w) service option" where
  "handle_message E msg wait s =
     do { received \<leftarrow> receive_message E msg s;
          case received of
            None \<Rightarrow> Some s
          | Some ping \<Rightarrow> apply_ping E ping (wait s) }"

section \<open>Facts\<close>

lemma jitter_bounds: "50 * (second_ns div 1000) \<le> jitter r" "jitter r < 500 * (second_ns div 1000)"
proof -
  have "r mod 450 < 450" by simp
  then show "50 * (second_ns div 1000) \<le> jitter r" "jitter r < 500 * (second_ns div 1000)"
    by (simp_all add: jitter_def second_ns_def)
qed

lemma already_mirrored_view:
  assumes "mirror_ready E s"
  shows "already_mirrored E ping s = Some (sp_version_hash ping \<noteq> []
    \<and> mv_versions (view_of E s) (sp_placement_name ping) = Some (sp_version_hash ping))"
  using assms
  by (auto simp: already_mirrored_def mirror_ready_def cache_ready_def complete_cache_def view_of_def
      cache_view_def versions_at_def)

text \<open>The invalidation on the view.\<close>

definition invalidate_view :: "sync_ping \<Rightarrow> mirror_view \<Rightarrow> mirror_view" where
  "invalidate_view ping v =
     (if sp_decision_rule_id ping = [] then v
      else
        v\<lparr>mv_rules := (mv_rules v)(rule_cache_key (sp_decision_rule_id ping) := None),
          mv_schedules := (if sp_placement_name ping = [] then mv_schedules v
            else (mv_schedules v)(sp_placement_name ping := None))\<rparr>)"

lemma invalidate_ready:
  assumes laws: "mirror_laws (sd_caches E)" and ready: "mirror_ready E s"
  obtains s' where "invalidate E ping s = Some s'" and "mirror_ready E s'"
    and "pressured s' = pressured s" and "sv_world s' = sv_world s" and "sv_heap s' = sv_heap s"
    and "view_of E s' = invalidate_view ping (view_of E s)"
proof (cases "sp_decision_rule_id ping = []")
  case True
  with ready have "invalidate E ping s = Some s" by (auto simp: invalidate_def mirror_ready_def)
  with that ready True show thesis by (simp add: invalidate_view_def)
next
  case False
  note ops = mirror_laws.cm_views [OF laws] mirror_laws.cm_alls [OF laws]
  from ready obtain m c r v t where s: "sv_mem s = Some m" "mc_schedules m = Some c" "mc_rules m = Some r"
    "mc_versions m = Some v" "mc_syncs m = Some t"
    and all: "cache_all (co_schedules (sd_caches E)) (cached_ok (sv_heap s)) c"
    by (auto simp: mirror_ready_def cache_ready_def complete_cache_def)
  define r' where "r' = cm_delete (co_rules (sd_caches E)) (rule_cache_key (sp_decision_rule_id ping)) r"
  define c' where "c' = (if sp_placement_name ping = [] then c
    else cm_delete (co_schedules (sd_caches E)) (schedules_key (sp_placement_name ping)) c)"
  define m' where "m' = m\<lparr>mc_rules := Some r', mc_schedules := Some c'\<rparr>"
  have "invalidate E ping s = Some (s\<lparr>sv_mem := Some m'\<rparr>)"
    using False s by (cases m) (simp add: invalidate_def delete_rule_def m'_def r'_def c'_def)
  then show thesis
  proof (rule that)
    show "mirror_ready E (s\<lparr>sv_mem := Some m'\<rparr>)"
      using s all by (simp add: mirror_ready_def cache_ready_def complete_cache_def m'_def c'_def ops)
    show "view_of E (s\<lparr>sv_mem := Some m'\<rparr>) = invalidate_view ping (view_of E s)"
      using False s
      by (simp add: view_of_def cache_view_def views_Some m'_def r'_def c'_def ops now_ns_def now_of_def
          invalidate_view_def fun_eq_iff)
  qed (simp_all add: pressured_def s m'_def)
qed

end
