(* ===== verification/User_Attrs.thy ===== *)
theory User_Attrs
  imports Delivery_Service Go_Json
begin

text \<open>
  src/cmd/server/service/cms_delivery_user_attrs.go: the attributes of a customer for one
  request. The cached CLEN envelope is read from Redis, the fields the schemas declare beyond
  those the rules name and the cache has are fetched from CLEN, and the result is keyed by
  attribute ids. A Go map that is ranged over is an association list; its order stands for
  one order of the range.
\<close>

definition user_attrs_key :: "string \<Rightarrow> string \<Rightarrow> string" where
  "user_attrs_key customer_type customer_id = ''customer_profile:'' @ customer_type @ '':'' @ customer_id"

section \<open>The fields to fetch\<close>

record rule_scope =
  rs_schema_id :: uuid
  rs_fields :: "string list"

definition collect_clen_attr :: "attribute option \<Rightarrow> (string, rule_scope) gomap \<Rightarrow> (string, rule_scope) gomap" where
  "collect_clen_attr a into =
     (case a of
        None \<Rightarrow> into
      | Some a \<Rightarrow>
          if at_table_source a = [] \<or> at_field_name a = [] then into
          else
            (let scope = (case gm_get into (at_table_source a) of
                            Some scope \<Rightarrow> scope
                          | None \<Rightarrow> \<lparr>rs_schema_id = at_schema_id a, rs_fields = []\<rparr>) in
             gm_put (at_table_source a) (scope\<lparr>rs_fields := List.insert (at_field_name a) (rs_fields scope)\<rparr>) into))"

definition rule_scopes :: "decision_rule list \<Rightarrow> (string, rule_scope) gomap" where
  "rule_scopes rules =
     foldl (\<lambda>needed c. collect_clen_attr (rc_attribute c) needed) [] (concat (map dr_conditions rules))"

text \<open>A lookup of the fields a schema declares: an answer and a new state.\<close>

type_synonym 's schema_lookup = "uuid \<Rightarrow> 's \<Rightarrow> (string + string list) \<times> 's"

definition decode_raw_map :: "raw_json \<Rightarrow> (string, raw_json) gomap \<times> bool" where
  "decode_raw_map blob = unmarshal dec_raw_map [] blob"

definition cached_fields :: "(string, raw_json) gomap \<Rightarrow> string \<Rightarrow> (string, raw_json) gomap" where
  "cached_fields cached ds =
     (case gm_get cached ds of
        None \<Rightarrow> []
      | Some blob \<Rightarrow> if blob = [] then [] else fst (decode_raw_map blob))"

definition missing_fields ::
  "string list \<Rightarrow> rule_scope \<Rightarrow> (string, raw_json) gomap \<Rightarrow> string list" where
  "missing_fields schema_fields scope ds_cached =
     filter (\<lambda>f. f \<notin> set (rs_fields scope) \<and> gm_get ds_cached f = None) schema_fields"

fun scope_sources ::
  "'s schema_lookup \<Rightarrow> (string, raw_json) gomap \<Rightarrow> (string, rule_scope) gomap \<Rightarrow> 's \<Rightarrow> profile_source list \<times> 's" where
  "scope_sources lookup cached [] s = ([], s)"
| "scope_sources lookup cached ((ds, scope) # rest) s =
     (let (r, s) = lookup (rs_schema_id scope) s;
          fs = (case r of Inl _ \<Rightarrow> [] | Inr fs \<Rightarrow> fs);
          missing = missing_fields fs scope (cached_fields cached ds);
          (out, s) = scope_sources lookup cached rest s in
      (if missing \<noteq> [] then \<lparr>ps_datasource = ds, ps_required_fields = missing\<rparr> # out else out, s))"

definition extract_clen_data_sources ::
  "'s schema_lookup option \<Rightarrow> decision_rule list \<Rightarrow> (string, raw_json) gomap \<Rightarrow> 's \<Rightarrow> profile_source list \<times> 's" where
  "extract_clen_data_sources lookup rules cached s =
     (case lookup of
        None \<Rightarrow> ([], s)
      | Some f \<Rightarrow> if rules = [] then ([], s) else scope_sources f cached (rule_scopes rules) s)"

section \<open>Lookups of the service\<close>

record schema_definition =
  sd_properties :: "(string, raw_json) gomap"

definition schema_fields_decoder :: "schema_definition field list" where
  "schema_fields_decoder =
     [mk_field ''properties'' dec_raw_map sd_properties (\<lambda>v r. r\<lparr>sd_properties := v\<rparr>)]"

definition parse_schema_definition_fields :: "raw_json \<Rightarrow> string list" where
  "parse_schema_definition_fields raw =
     (case unmarshal (dec_struct schema_fields_decoder) \<lparr>sd_properties = []\<rparr> raw of
        (d, ok) \<Rightarrow> if \<not> ok \<or> sd_properties d = [] then [] else gm_keys (sd_properties d))"

definition lookup_schema_fields ::
  "('c, 'w) service_deps \<Rightarrow> uuid \<Rightarrow> ('c, 'w) service \<Rightarrow> (string + string list) \<times> ('c, 'w) service" where
  "lookup_schema_fields E u s =
     (case sd_schemas E of
        None \<Rightarrow> (Inr [], s)
      | Some repo \<Rightarrow>
          if u = uuid_nil then (Inr [], s)
          else
            (case sv_schema_fields s u of
               Some fs \<Rightarrow> (Inr fs, s)
             | None \<Rightarrow>
                 (let (r, w) = repo (sv_world s) u; s = s\<lparr>sv_world := w\<rparr> in
                  case r of
                    Inl e \<Rightarrow> (Inl e, s)
                  | Inr row \<Rightarrow>
                      (let fs = (case row of
                                       None \<Rightarrow> []
                                     | Some sr \<Rightarrow>
                                         if sr_definition sr = [] then []
                                         else parse_schema_definition_fields (sr_definition sr)) in
                       (Inr fs, s\<lparr>sv_schema_fields := (sv_schema_fields s)(u \<mapsto> fs)\<rparr>)))))"

definition attribute_mapping :: "attribute option list \<Rightarrow> (string, uuid) gomap" where
  "attribute_mapping rows =
     foldl (\<lambda>m row. case row of
         None \<Rightarrow> m
       | Some a \<Rightarrow> if at_field_name a = [] then m else gm_put (at_field_name a) (bm_id a) m) [] rows"

definition lookup_attribute_uuids ::
  "('c, 'w) service_deps \<Rightarrow> string \<Rightarrow> ('c, 'w) service \<Rightarrow> (string + (string, uuid) gomap) \<times> ('c, 'w) service" where
  "lookup_attribute_uuids E ds s =
     (case sd_attributes E of
        None \<Rightarrow> (Inr [], s)
      | Some repo \<Rightarrow>
          if ds = [] then (Inr [], s)
          else
            (case sv_attr_uuids s ds of
               Some mapping \<Rightarrow> (Inr mapping, s)
             | None \<Rightarrow>
                 (let (r, w) = repo (sv_world s) ds; s = s\<lparr>sv_world := w\<rparr> in
                  case r of
                    Inl e \<Rightarrow> (Inl e, s)
                  | Inr rows \<Rightarrow>
                      (let mapping = attribute_mapping rows in
                       (Inr mapping, s\<lparr>sv_attr_uuids := (sv_attr_uuids s)(ds \<mapsto> mapping)\<rparr>)))))"

section \<open>The shape the evaluator expects\<close>

definition put_by_uuid ::
  "uuid_ops \<Rightarrow> (string, uuid) gomap \<Rightarrow> (string, raw_json) gomap \<Rightarrow> (string, raw_json) gomap
    \<Rightarrow> (string, raw_json) gomap" where
  "put_by_uuid U mapping fs out =
     foldl (\<lambda>out (name, v). case gm_get mapping name of
         None \<Rightarrow> out | Some u \<Rightarrow> gm_put (uuid_string U u) v out) out fs"

definition transform_step ::
  "('c, 'w) service_deps \<Rightarrow> string \<times> raw_json \<Rightarrow> (string, raw_json) gomap \<times> ('c, 'w) service
    \<Rightarrow> (string, raw_json) gomap \<times> ('c, 'w) service" where
  "transform_step E entry st =
     (let (ds, blob) = entry; (out, s) = st in
      if blob = [] then st
      else
        (case decode_raw_map blob of (fs, ok) \<Rightarrow>
           if \<not> ok then st
           else
             (case lookup_attribute_uuids E ds s of (r, s) \<Rightarrow>
                (case r of
                   Inl _ \<Rightarrow> (out, s)
                 | Inr mapping \<Rightarrow>
                     if mapping = [] then (out, s)
                     else (put_by_uuid (sd_uuid E) mapping fs out, s)))))"

definition transform_to_uuid_keyed ::
  "('c, 'w) service_deps \<Rightarrow> (string, raw_json) gomap \<Rightarrow> ('c, 'w) service
    \<Rightarrow> (string, raw_json) gomap \<times> ('c, 'w) service" where
  "transform_to_uuid_keyed E cached s =
     (if cached = [] \<or> sd_attributes E = None then ([], s)
      else fold (transform_step E) cached ([], s))"

section \<open>The CLEN envelope\<close>

record envelope_result =
  er_datasource :: string
  er_status :: string
  er_data :: raw_json

record envelope =
  en_results :: "envelope_result list"

definition zero_envelope_result :: envelope_result where
  "zero_envelope_result = \<lparr>er_datasource = [], er_status = [], er_data = []\<rparr>"

definition envelope_result_fields :: "envelope_result field list" where
  "envelope_result_fields =
     [mk_field ''datasource'' dec_string er_datasource (\<lambda>v r. r\<lparr>er_datasource := v\<rparr>),
      mk_field ''status'' dec_string er_status (\<lambda>v r. r\<lparr>er_status := v\<rparr>),
      mk_field ''data'' dec_raw er_data (\<lambda>v r. r\<lparr>er_data := v\<rparr>)]"

definition envelope_fields :: "envelope field list" where
  "envelope_fields =
     [mk_field ''results'' (dec_slice (dec_struct envelope_result_fields) zero_envelope_result)
        en_results (\<lambda>v r. r\<lparr>en_results := v\<rparr>)]"

definition successful :: "envelope_result \<Rightarrow> bool" where
  "successful r = (er_status r = ''success'' \<and> er_data r \<noteq> [] \<and> er_datasource r \<noteq> [])"

definition success_map :: "envelope_result list \<Rightarrow> (string, raw_json) gomap" where
  "success_map rs =
     foldl (\<lambda>out r. if successful r then gm_put (er_datasource r) (er_data r) out else out) [] rs"

definition parse_raw_envelope :: "string \<Rightarrow> (string, raw_json) gomap" where
  "parse_raw_envelope body =
     (if body = [] then []
      else
        (case unmarshal (dec_struct envelope_fields) \<lparr>en_results = []\<rparr> body of
           (env, ok) \<Rightarrow> if ok then success_map (en_results env) else []))"

section \<open>Enrichment\<close>

definition default_profile_ttl :: duration where
  "default_profile_ttl = hour_ns"

text \<open>The fields just fetched go over those already cached, per datasource.\<close>

definition merge_blob :: "(string, raw_json) gomap \<Rightarrow> string \<times> raw_json \<Rightarrow> (string, raw_json) gomap" where
  "merge_blob attrs entry =
     (let (ds, blob) = entry in
      case decode_raw_map blob of (incoming, ok) \<Rightarrow>
        if \<not> ok then attrs
        else
          (let merged = foldl (\<lambda>m (k, v). gm_put k v m) (cached_fields attrs ds) incoming in
           case marshal_raw_map merged of None \<Rightarrow> attrs | Some text \<Rightarrow> gm_put ds text attrs))"

definition usable_response :: "raw_response option \<Rightarrow> string option" where
  "usable_response raw =
     (case raw of
        None \<Rightarrow> None
      | Some r \<Rightarrow>
          if rw_status r < 200 \<or> 300 \<le> rw_status r \<or> rw_body r = [] then None else Some (rw_body r))"

definition store_profile ::
  "('c, 'w) service_deps \<Rightarrow> string \<Rightarrow> string \<Rightarrow> ('c, 'w) service \<Rightarrow> ('c, 'w) service" where
  "store_profile E key body s =
     (case sd_redis E of
        None \<Rightarrow> s
      | Some redis \<Rightarrow>
          (let ttl = (if sd_profile_ttl E \<le> 0 then default_profile_ttl else sd_profile_ttl E) in
           s\<lparr>sv_world := snd (rd_set redis (sv_world s) key body ttl)\<rparr>))"

definition enrich_customer_profile ::
  "('c, 'w) service_deps \<Rightarrow> string \<Rightarrow> string \<Rightarrow> (string, raw_json) gomap \<Rightarrow> profile_source list
    \<Rightarrow> ('c, 'w) service \<Rightarrow> (string, raw_json) gomap \<times> ('c, 'w) service" where
  "enrich_customer_profile E customer_type cis_id attrs sources s =
     (case sd_profiles E of
        None \<Rightarrow> (attrs, s)
      | Some repo \<Rightarrow>
          if sources = [] then (attrs, s)
          else
            (let (r, w) = repo (sv_world s) \<lparr>pq_cis_id = cis_id, pq_sources = sources\<rparr>;
                 s = s\<lparr>sv_world := w\<rparr> in
             case r of
               Inl _ \<Rightarrow> (attrs, s)
             | Inr raw \<Rightarrow>
                 (case usable_response raw of
                    None \<Rightarrow> (attrs, s)
                  | Some body \<Rightarrow>
                      (foldl merge_blob attrs (parse_raw_envelope body),
                       store_profile E (user_attrs_key customer_type cis_id) body s))))"

section \<open>resolveUserAttrs\<close>

definition read_cached_profile ::
  "'w redis_repo \<Rightarrow> string \<Rightarrow> ('c, 'w) service \<Rightarrow> (string, raw_json) gomap \<times> ('c, 'w) service" where
  "read_cached_profile redis key s =
     (let (r, w) = rd_get redis (sv_world s) key in
      (case r of Inl _ \<Rightarrow> [] | Inr raw \<Rightarrow> parse_raw_envelope raw, s\<lparr>sv_world := w\<rparr>))"

definition warm_fetch ::
  "('c, 'w) service_deps \<Rightarrow> string \<Rightarrow> string \<Rightarrow> decision_rule list \<Rightarrow> (string, raw_json) gomap
    \<Rightarrow> ('c, 'w) service \<Rightarrow> (string, raw_json) gomap \<times> ('c, 'w) service" where
  "warm_fetch E customer_type customer_id rules cached s =
     (if sd_profiles E = None then (cached, s)
      else
        (let (missing, s) = extract_clen_data_sources (Some (lookup_schema_fields E)) rules cached s in
         if missing = [] then (cached, s)
         else enrich_customer_profile E customer_type customer_id cached missing s))"

definition resolve_user_attrs ::
  "('c, 'w) service_deps \<Rightarrow> string \<Rightarrow> string \<Rightarrow> decision_rule list \<Rightarrow> ('c, 'w) service
    \<Rightarrow> (string, raw_json) gomap \<times> ('c, 'w) service" where
  "resolve_user_attrs E customer_type customer_id rules s =
     (case sd_redis E of
        None \<Rightarrow> ([], s)
      | Some redis \<Rightarrow>
          if customer_id = [] then ([], s)
          else
            (let (cached, s) = read_cached_profile redis (user_attrs_key customer_type customer_id) s;
                 (cached, s) = warm_fetch E customer_type customer_id rules cached s in
             transform_to_uuid_keyed E cached s))"

section \<open>What is requested\<close>

text \<open>The attributes of the rules that name a CLEN field, in order.\<close>

definition clen_attribute :: "attribute \<Rightarrow> bool" where
  "clen_attribute a = (at_table_source a \<noteq> [] \<and> at_field_name a \<noteq> [])"

definition clen_attributes :: "decision_rule list \<Rightarrow> attribute list" where
  "clen_attributes rules =
     filter clen_attribute
       (concat (map (\<lambda>c. case rc_attribute c of None \<Rightarrow> [] | Some a \<Rightarrow> [a]) (concat (map dr_conditions rules))))"

text \<open>The fields the rules name for a datasource; the schema is that of the first attribute.\<close>

definition named_fields :: "decision_rule list \<Rightarrow> string \<Rightarrow> string set" where
  "named_fields rules ds = {at_field_name a |a. a \<in> set (clen_attributes rules) \<and> at_table_source a = ds}"

definition source_schema :: "decision_rule list \<Rightarrow> string \<Rightarrow> uuid option" where
  "source_schema rules ds =
     map_option at_schema_id (find (\<lambda>a. at_table_source a = ds) (clen_attributes rules))"

definition wanted_fields ::
  "(uuid \<Rightarrow> string + string list) \<Rightarrow> decision_rule list \<Rightarrow> (string, raw_json) gomap \<Rightarrow> string \<Rightarrow> string list" where
  "wanted_fields schema rules cached ds =
     (case source_schema rules ds of
        None \<Rightarrow> []
      | Some u \<Rightarrow>
          filter (\<lambda>f. f \<notin> named_fields rules ds \<and> gm_get (cached_fields cached ds) f = None)
            (case schema u of Inl _ \<Rightarrow> [] | Inr fs \<Rightarrow> fs))"

lemma rule_scopes_get:
  "gm_get (rule_scopes rules) ds =
    (case source_schema rules ds of
       None \<Rightarrow> None
     | Some u \<Rightarrow> Some \<lparr>rs_schema_id = u, rs_fields =
         foldl (\<lambda>fs a. List.insert (at_field_name a) fs) [] (filter (\<lambda>a. at_table_source a = ds) (clen_attributes rules))\<rparr>)"
proof -
  define ats where "ats cs = filter clen_attribute
    (concat (map (\<lambda>c. case rc_attribute c of None \<Rightarrow> [] | Some a \<Rightarrow> [a]) cs))" for cs :: "rule_condition list"
  define ins :: "string list \<Rightarrow> attribute list \<Rightarrow> string list"
    where "ins fs as = foldl (\<lambda>fs a. List.insert (at_field_name a) fs) fs (filter (\<lambda>a. at_table_source a = ds) as)" for fs as
  have "gm_get (foldl (\<lambda>needed c. collect_clen_attr (rc_attribute c) needed) m cs) ds =
      (case gm_get m ds of
         Some sc \<Rightarrow> Some (sc\<lparr>rs_fields := ins (rs_fields sc) (ats cs)\<rparr>)
       | None \<Rightarrow> map_option (\<lambda>a. \<lparr>rs_schema_id = at_schema_id a, rs_fields = ins [] (ats cs)\<rparr>)
           (find (\<lambda>a. at_table_source a = ds) (ats cs)))" for m cs
  proof (induction cs arbitrary: m)
    case Nil
    show ?case by (simp add: ats_def ins_def split: option.split)
  next
    case (Cons c cs)
    show ?case
    proof (cases "\<exists>a. rc_attribute c = Some a \<and> clen_attribute a")
      case False
      then have same: "ats (c # cs) = ats cs" "collect_clen_attr (rc_attribute c) m = m"
        by (auto simp: ats_def collect_clen_attr_def clen_attribute_def split: option.split)
      show ?thesis unfolding foldl_Cons same Cons.IH ..
    next
      case True
      then obtain a where a: "rc_attribute c = Some a" "clen_attribute a" by blast
      then have ats: "ats (c # cs) = a # ats cs" by (simp add: ats_def)
      from a have ne: "at_table_source a \<noteq> []" "at_field_name a \<noteq> []" by (simp_all add: clen_attribute_def)
      show ?thesis
        unfolding foldl_Cons Cons.IH ats
        by (auto simp: collect_clen_attr_def a(1) ne Let_def ins_def split: option.split)
    qed
  qed
  from this [of "[]" "concat (map dr_conditions rules)"] show ?thesis
    unfolding rule_scopes_def source_schema_def clen_attributes_def ats_def ins_def
    by (simp add: map_option_case split: option.split)
qed

lemma set_inserted_fields:
  "set (foldl (\<lambda>fs a. List.insert (at_field_name a) fs) fs as) = set fs \<union> at_field_name ` set as"
  by (induction as arbitrary: fs) auto

lemma gm_ok_rule_scopes [simp]: "gm_ok (rule_scopes rules)"
proof -
  have "gm_ok m \<Longrightarrow> gm_ok (foldl (\<lambda>needed c. collect_clen_attr (rc_attribute c) needed) m cs)" for m cs
    by (induction cs arbitrary: m) (auto simp: collect_clen_attr_def Let_def split: option.split)
  then show ?thesis unfolding rule_scopes_def using gm_ok_Nil by blast
qed

lemma scope_missing:
  assumes "gm_get (rule_scopes rules) ds = Some scope"
  shows "missing_fields (case schema (rs_schema_id scope) of Inl _ \<Rightarrow> [] | Inr fs \<Rightarrow> fs) scope (cached_fields cached ds)
    = wanted_fields schema rules cached ds"
proof -
  have "f \<in> set (rs_fields scope) \<longleftrightarrow> f \<in> named_fields rules ds" for f
    using assms by (auto simp: rule_scopes_get set_inserted_fields named_fields_def split: option.splits)
  moreover have "source_schema rules ds = Some (rs_schema_id scope)"
    using assms by (auto simp: rule_scopes_get split: option.splits)
  ultimately show ?thesis by (simp add: missing_fields_def wanted_fields_def)
qed

lemma scope_sources_pure:
  assumes "\<And>u s. I s \<Longrightarrow> fst (lookup u s) = schema u \<and> I (snd (lookup u s))" and "I s"
  shows "fst (scope_sources lookup cached scopes s) =
    concat (map (\<lambda>p.
      let missing = missing_fields (case schema (rs_schema_id (snd p)) of Inl _ \<Rightarrow> [] | Inr fs \<Rightarrow> fs) (snd p)
        (cached_fields cached (fst p))
      in if missing \<noteq> [] then [\<lparr>ps_datasource = fst p, ps_required_fields = missing\<rparr>] else []) scopes)"
  using assms(2)
proof (induction scopes arbitrary: s)
  case (Cons p scopes)
  obtain ds scope where p: "p = (ds, scope)" by fastforce
  obtain s1 where look: "lookup (rs_schema_id scope) s = (schema (rs_schema_id scope), s1)" "I s1"
    using assms(1) [OF Cons.prems, of "rs_schema_id scope"] by (metis prod.collapse)
  show ?case
    unfolding p scope_sources.simps look(1) Let_def prod.case split_beta fst_conv
    by (simp add: Cons.IH [OF look(2)] Let_def)
qed simp

lemma requested_sources:
  assumes "\<And>u s. I s \<Longrightarrow> fst (lookup u s) = schema u \<and> I (snd (lookup u s))" and "I s"
  shows "set (fst (extract_clen_data_sources (Some lookup) rules cached s)) =
    {\<lparr>ps_datasource = ds, ps_required_fields = wanted_fields schema rules cached ds\<rparr>
      |ds. wanted_fields schema rules cached ds \<noteq> []}"
proof (cases "rules = []")
  case True
  then show ?thesis
    by (simp add: extract_clen_data_sources_def wanted_fields_def source_schema_def clen_attributes_def)
next
  case False
  define pick where "pick ds = \<lparr>ps_datasource = ds, ps_required_fields = wanted_fields schema rules cached ds\<rparr>" for ds
  define sources where "sources = (\<lambda>p.
      let missing = missing_fields (case schema (rs_schema_id (snd p)) of Inl _ \<Rightarrow> [] | Inr fs \<Rightarrow> fs) (snd p)
        (cached_fields cached (fst p))
      in if missing \<noteq> [] then [\<lparr>ps_datasource = fst p, ps_required_fields = missing\<rparr>] else [])"
  have wanted: "source_schema rules ds \<noteq> None" if "wanted_fields schema rules cached ds \<noteq> []" for ds
    using that by (cases "source_schema rules ds") (simp_all add: wanted_fields_def)
  have one: "set (sources (ds, scope)) = (if wanted_fields schema rules cached ds \<noteq> [] then {pick ds} else {})"
    if "(ds, scope) \<in> set (rule_scopes rules)" for ds scope
    using that by (simp add: gm_get_in_set scope_missing sources_def pick_def Let_def)
  have "set (fst (extract_clen_data_sources (Some lookup) rules cached s)) = (\<Union>x \<in> set (rule_scopes rules). set (sources x))"
    using False
    by (simp add: extract_clen_data_sources_def scope_sources_pure [where schema = schema and I = I, OF assms] sources_def)
  also have "\<dots> = {pick ds |ds. wanted_fields schema rules cached ds \<noteq> []}" (is "?L = ?R")
  proof
    show "?L \<subseteq> ?R" using one by (auto split: if_splits)
    show "?R \<subseteq> ?L"
    proof
      fix p assume "p \<in> ?R"
      then obtain ds where ds: "p = pick ds" "wanted_fields schema rules cached ds \<noteq> []" by blast
      from wanted [OF ds(2)] obtain scope where "(ds, scope) \<in> set (rule_scopes rules)"
        by (auto simp: gm_get_in_set rule_scopes_get)
      with one [OF this] ds show "p \<in> ?L" by force
    qed
  qed
  finally show ?thesis by (simp add: pick_def)
qed

section \<open>The lookups and what they remember\<close>

text \<open>The fields of a schema, by what the registry answers for it.\<close>

definition registry_fields :: "(uuid \<Rightarrow> string + schema_registry option) \<Rightarrow> uuid \<Rightarrow> string + string list" where
  "registry_fields registry u =
     (if u = uuid_nil then Inr []
      else
        (case registry u of
           Inl e \<Rightarrow> Inl e
         | Inr None \<Rightarrow> Inr []
         | Inr (Some sr) \<Rightarrow> Inr (if sr_definition sr = [] then [] else parse_schema_definition_fields (sr_definition sr))))"

text \<open>What the service remembers is what the registry answers.\<close>

definition fields_remembered :: "(uuid \<Rightarrow> string + schema_registry option) \<Rightarrow> ('c, 'w) service \<Rightarrow> bool" where
  "fields_remembered registry s =
     (\<forall>u fs. sv_schema_fields s u = Some fs \<longrightarrow> registry_fields registry u = Inr fs)"

lemma lookup_schema_registry:
  assumes "sd_schemas E = Some repo" and "\<And>w u. fst (repo w u) = registry u" and "fields_remembered registry s"
  shows "fst (lookup_schema_fields E u s) = registry_fields registry u
    \<and> fields_remembered registry (snd (lookup_schema_fields E u s))"
proof (cases "u = uuid_nil")
  case True
  with assms(1,3) show ?thesis by (simp add: lookup_schema_fields_def registry_fields_def)
next
  case False
  show ?thesis
  proof (cases "sv_schema_fields s u")
    case (Some fs)
    with assms(3) have "registry_fields registry u = Inr fs" by (simp add: fields_remembered_def)
    with False Some assms(1,3) show ?thesis by (simp add: lookup_schema_fields_def)
  next
    case None
    obtain r w where r: "repo (sv_world s) u = (r, w)" by fastforce
    with assms(2) [of "sv_world s" u] have "registry u = r" by simp
    with False None assms(1,3) r show ?thesis
      by (auto simp: lookup_schema_fields_def registry_fields_def [of _ u] fields_remembered_def Let_def
          split: sum.split option.split)
  qed
qed

end
