(* ===== verification/Personalized_Content.thy ===== *)
theory Personalized_Content
  imports User_Attrs Local_Evaluator
begin

text \<open>
  GetPersonalizedContent of src/cmd/server/service/cms_delivery_service.go and the customer
  of a request (src/internal/delivery/http/dto/content.go). The placements are evaluated
  concurrently, each into its own slot of the result, so the order in which they finish does
  not matter: the model evaluates them in the order of the request.
\<close>

section \<open>The customer\<close>

record customer_request =
  cu_type :: string
  cu_cis_id :: string
  cu_ip_id :: string
  cu_kplus_mobile :: string
  cu_line_uuid :: string

definition customer_cis_id :: string where "customer_cis_id = ''CIS_ID''"
definition customer_ip_id :: string where "customer_ip_id = ''IP_ID''"
definition customer_kplus_mobile :: string where "customer_kplus_mobile = ''KPLUS_MOBILE_NUMBER''"
definition customer_line_uuid :: string where "customer_line_uuid = ''LINE_UUID''"

lemmas customer_type_defs =
  customer_cis_id_def customer_ip_id_def customer_kplus_mobile_def customer_line_uuid_def

definition customer_is_empty :: "customer_request \<Rightarrow> bool" where
  "customer_is_empty c =
     (cu_cis_id c = [] \<and> cu_ip_id c = [] \<and> cu_kplus_mobile c = [] \<and> cu_line_uuid c = [])"

definition customer_value :: "customer_request \<Rightarrow> string" where
  "customer_value c =
     (if cu_type c = customer_cis_id then cu_cis_id c
      else if cu_type c = customer_ip_id then cu_ip_id c
      else if cu_type c = customer_kplus_mobile then cu_kplus_mobile c
      else if cu_type c = customer_line_uuid then cu_line_uuid c
      else [])"

section \<open>The schedules of the request\<close>

definition staleness_threshold :: "('c, 'w) service_deps \<Rightarrow> duration" where
  "staleness_threshold E =
     (if sd_tick_interval E > 0 then 2 * sd_tick_interval E else 10 * minute_ns)"

definition last_sync :: "('c, 'w) service_deps \<Rightarrow> string \<Rightarrow> ('c, 'w) service \<Rightarrow> gotime option" where
  "last_sync E name s =
     Option.bind (sv_mem s) (\<lambda>m. Option.bind (mc_syncs m) (\<lambda>c.
       cm_get (co_syncs (sd_caches E)) (now_ns E s) c name))"

definition stale :: "('c, 'w) service_deps \<Rightarrow> gotime \<Rightarrow> ('c, 'w) service \<Rightarrow> bool" where
  "stale E sync s = (now_ns E s - tm_ns sync > staleness_threshold E)"

text \<open>A mirror that is too old is evaluated once; it must then be young enough.\<close>

definition check_mirror ::
  "('c, 'w) service_deps \<Rightarrow> string \<Rightarrow> ('c, 'w) service \<Rightarrow> (service_error option \<times> ('c, 'w) service) option" where
  "check_mirror E name s =
     (case last_sync E name s of
        None \<Rightarrow> Some (None, s)
      | Some sync \<Rightarrow>
          if \<not> stale E sync s then Some (None, s)
          else
            do { s \<leftarrow> evaluate E [] s;
                 case last_sync E name s of
                   None \<Rightarrow> Some (Some (Stale_Mirror name), s)
                 | Some refreshed \<Rightarrow>
                     if \<not> stale E refreshed s then Some (None, s)
                     else Some (Some (Stale_Mirror name), s) })"

definition cached_schedules ::
  "('c, 'w) service_deps \<Rightarrow> string \<Rightarrow> ('c, 'w) service \<Rightarrow> sched_ptr list option option" where
  "cached_schedules E name s =
     do { m \<leftarrow> sv_mem s;
          c \<leftarrow> mc_schedules m;
          Some (cm_get (co_schedules (sd_caches E)) (now_ns E s) c (schedules_key name)) }"

fun gather_schedules ::
  "('c, 'w) service_deps \<Rightarrow> string list \<Rightarrow> sched_ptr list \<Rightarrow> string list \<Rightarrow> ('c, 'w) service
    \<Rightarrow> ((service_error + sched_ptr list \<times> string list) \<times> ('c, 'w) service) option" where
  "gather_schedules E [] acc missed s = Some (Inr (acc, missed), s)"
| "gather_schedules E (name # names) acc missed s =
     do { (err, s) \<leftarrow> check_mirror E name s;
          case err of
            Some e \<Rightarrow> Some (Inl e, s)
          | None \<Rightarrow>
              do { found \<leftarrow> cached_schedules E name s;
                   case found of
                     None \<Rightarrow> gather_schedules E names acc (if name \<in> set missed then missed else missed @ [name]) s
                   | Some ps \<Rightarrow> gather_schedules E names (acc @ ps) missed s } }"

text \<open>Placements that were not in the mirror, after one evaluation.\<close>

fun collect_missed ::
  "('c, 'w) service_deps \<Rightarrow> string list \<Rightarrow> ('c, 'w) service \<Rightarrow> sched_ptr list option" where
  "collect_missed E [] s = Some []"
| "collect_missed E (name # names) s =
     do { found \<leftarrow> cached_schedules E name s;
          rest \<leftarrow> collect_missed E names s;
          Some ((case found of None \<Rightarrow> [] | Some ps \<Rightarrow> ps) @ rest) }"

definition retry_missed ::
  "('c, 'w) service_deps \<Rightarrow> string list \<Rightarrow> ('c, 'w) service \<Rightarrow> (sched_ptr list \<times> ('c, 'w) service) option" where
  "retry_missed E missed s =
     (if missed = [] \<or> sd_occurrences E = None then Some ([], s)
      else
        do { s \<leftarrow> evaluate E [] s;
             ps \<leftarrow> collect_missed E missed s;
             Some (ps, s) })"

section \<open>Their rules\<close>

definition set_heap :: "heap \<Rightarrow> ('c, 'w) service \<Rightarrow> ('c, 'w) service" where
  "set_heap h s = s\<lparr>sv_heap := h\<rparr>"

text \<open>Schedules without a rule get the cached one; the others are counted as missed.\<close>

fun attach_cached_rules ::
  "('c, 'w) service_deps \<Rightarrow> sched_ptr list \<Rightarrow> uuid list \<Rightarrow> ('c, 'w) service
    \<Rightarrow> (uuid list \<times> ('c, 'w) service) option" where
  "attach_cached_rules E [] missed s = Some (missed, s)"
| "attach_cached_rules E (p # ps) missed s =
     (let sc = deref (sv_heap s) p in
      if sc_rule sc = None \<and> sc_rule_id sc \<noteq> uuid_nil then
        do { m \<leftarrow> sv_mem s;
             c \<leftarrow> mc_rules m;
             case cm_get (co_rules (sd_caches E)) (now_ns E s) c (rule_key E (sc_rule_id sc)) of
               Some r \<Rightarrow> attach_cached_rules E ps missed (set_heap (attach_rule p r (sv_heap s)) s)
             | None \<Rightarrow> attach_cached_rules E ps (missed @ [bm_id sc]) s }
      else attach_cached_rules E ps missed s)"

definition backfill_rule ::
  "('c, 'w) service_deps \<Rightarrow> (uuid, decision_rule) gomap \<Rightarrow> sched_ptr \<Rightarrow> ('c, 'w) service
    \<Rightarrow> ('c, 'w) service option" where
  "backfill_rule E rules p s =
     (case gm_get rules (bm_id (deref (sv_heap s) p)) of
        None \<Rightarrow> Some s
      | Some r \<Rightarrow> set_rule E r (set_heap (attach_rule p r (sv_heap s)) s))"

definition backfill_rules ::
  "('c, 'w) service_deps \<Rightarrow> sched_ptr list \<Rightarrow> uuid list \<Rightarrow> ('c, 'w) service \<Rightarrow> ('c, 'w) service option" where
  "backfill_rules E ps missed s =
     (if missed = [] then Some s
      else
        do { (r, s) \<leftarrow> fetch_rules E missed s;
             fold_steps (backfill_rule E (rules_or_none r)) (if rules_or_none r = [] then [] else ps) s })"

text \<open>Those of the requested placements that can be served.\<close>

definition servable :: "string list \<Rightarrow> schedule \<Rightarrow> bool" where
  "servable names sc =
     (case sc_placement sc of
        None \<Rightarrow> False
      | Some p \<Rightarrow> sc_rule sc \<noteq> None \<and> pl_name p \<in> set names)"

definition filter_servable :: "heap \<Rightarrow> string list \<Rightarrow> sched_ptr list \<Rightarrow> (string, sched_ptr list) gomap" where
  "filter_servable h names ps =
     group_by (\<lambda>p. placement_name_of (deref h p)) (filter (\<lambda>p. servable names (deref h p)) ps)"

definition unique_rules_from_filtered :: "heap \<Rightarrow> (string, sched_ptr list) gomap \<Rightarrow> decision_rule list" where
  "unique_rules_from_filtered h filtered =
     dedup_by bm_id
       (concat (map (\<lambda>p. case sc_rule (deref h p) of None \<Rightarrow> [] | Some r \<Rightarrow> [r]) (concat (map snd filtered))))"

section \<open>Leads\<close>

definition has_sales_target :: "decision_rule list \<Rightarrow> bool" where
  "has_sales_target rules = list_ex (\<lambda>r. dr_type r = type_sales_target) rules"

definition fetch_leads_for_request ::
  "('c, 'w) service_deps \<Rightarrow> customer_request \<Rightarrow> string \<Rightarrow> string list \<Rightarrow> decision_rule list
    \<Rightarrow> ('c, 'w) service \<Rightarrow> lead list \<times> ('c, 'w) service" where
  "fetch_leads_for_request E customer channel names rules s =
     (case sd_leads E of
        None \<Rightarrow> ([], s)
      | Some repo \<Rightarrow>
          if cu_type customer \<noteq> customer_cis_id \<or> customer_value customer = [] then ([], s)
          else if \<not> has_sales_target rules then ([], s)
          else
            (let (r, w) = repo (sv_world s)
                   \<lparr>lq_cis_id = customer_value customer, lq_channel = channel, lq_placements = names\<rparr> in
             (case r of Inl _ \<Rightarrow> [] | Inr leads \<Rightarrow> leads, s\<lparr>sv_world := w\<rparr>)))"

section \<open>Evaluation\<close>

definition evaluate_placement ::
  "('c, 'w) service_deps \<Rightarrow> string \<Rightarrow> schedule list \<Rightarrow> (string \<rightharpoonup> raw_json) \<Rightarrow> lead list
    \<Rightarrow> content_result list option" where
  "evaluate_placement E name schedules attrs leads =
     (case (sd_evaluator E, sd_occurrences E) of
        (Some ev, Some _) \<Rightarrow>
          map_option (\<lambda>r. case r of Inl _ \<Rightarrow> [] | Inr passing \<Rightarrow> passing) (ev name schedules attrs leads)
      | _ \<Rightarrow> Some [])"

definition evaluate_placements ::
  "('c, 'w) service_deps \<Rightarrow> heap \<Rightarrow> (string, sched_ptr list) gomap \<Rightarrow> (string \<rightharpoonup> raw_json) \<Rightarrow> lead list
    \<Rightarrow> string list \<Rightarrow> content_result list option" where
  "evaluate_placements E h filtered attrs leads names =
     map_option concat
       (all_some (map (\<lambda>name. evaluate_placement E name (map (deref h) (gm_slice filtered name)) attrs leads) names))"

text \<open>From the gathered schedules on: rules, attributes, leads, evaluation.\<close>

definition serve_schedules ::
  "('c, 'w) service_deps \<Rightarrow> customer_request \<Rightarrow> string \<Rightarrow> string list \<Rightarrow> sched_ptr list \<Rightarrow> ('c, 'w) service
    \<Rightarrow> (content_result list \<times> ('c, 'w) service) option" where
  "serve_schedules E customer channel names ps s =
     do { (missed_rules, s) \<leftarrow> attach_cached_rules E ps [] s;
          s \<leftarrow> backfill_rules E ps missed_rules s;
          let filtered = filter_servable (sv_heap s) names ps;
          let rules = unique_rules_from_filtered (sv_heap s) filtered;
          let (attrs, s) = resolve_user_attrs E (cu_type customer) (customer_value customer) rules s;
          let (leads, s) = fetch_leads_for_request E customer channel names rules s;
          results \<leftarrow> evaluate_placements E (sv_heap s) filtered (gm_get attrs) leads names;
          Some (results, s) }"

definition get_personalized_content ::
  "('c, 'w) service_deps \<Rightarrow> customer_request option \<Rightarrow> string \<Rightarrow> string list \<Rightarrow> ('c, 'w) service
    \<Rightarrow> ((service_error + content_result list) \<times> ('c, 'w) service) option" where
  "get_personalized_content E customer channel names s =
     (case customer of
        None \<Rightarrow> Some (Inl Empty_Customer, s)
      | Some c \<Rightarrow>
          if customer_is_empty c then Some (Inl Empty_Customer, s)
          else
            do { (r, s) \<leftarrow> gather_schedules E names [] [] s;
                 case r of
                   Inl e \<Rightarrow> Some (Inl e, s)
                 | Inr (ps, missed) \<Rightarrow>
                     do { (retried, s) \<leftarrow> retry_missed E missed s;
                          (results, s) \<leftarrow> serve_schedules E c channel names (ps @ retried) s;
                          Some (Inr results, s) } })"

text \<open>LocalEvaluator as the runtime evaluator; it reports no errors.\<close>

definition local_evaluator :: "uuid_ops \<Rightarrow> evaluator_fn" where
  "local_evaluator U name schedules attrs leads =
     map_option Inr (local_evaluate U name schedules (Some attrs) leads)"

end
