(* ===== verification/Mirror_Invariant.thy ===== *)
theory Mirror_Invariant
  imports Mirror_Flush Sync_Subscriber Personalized_Content
begin

text \<open>
  The invariant of the service's state, kept by every operation whether or not the caches
  refuse new keys: the mirror has all its caches, its schedules are stored under placement
  keys, and every pointer it holds is to an object of the heap. With the dependencies that
  the program is built with, no operation panics in such a state.
\<close>

definition wired :: "('c, 'w) service_deps \<Rightarrow> bool" where
  "wired E = (sd_occurrences E \<noteq> None \<and> sd_rules E \<noteq> None \<and> sd_has_metric E)"

text \<open>An operation that never panics in a good state and ends in one.\<close>

definition keeps_ready ::
  "('c, 'w) service_deps \<Rightarrow> (('c, 'w) service \<Rightarrow> ('c, 'w) service option) \<Rightarrow> bool" where
  "keeps_ready E f =
     (\<forall>s. mirror_ready E s \<longrightarrow>
        (\<exists>s'. f s = Some s' \<and> mirror_ready E s' \<and> length (sv_heap s) \<le> length (sv_heap s')))"

lemma keeps_readyI:
  "(\<And>s. mirror_ready E s \<Longrightarrow> \<exists>s'. f s = Some s' \<and> mirror_ready E s' \<and> length (sv_heap s) \<le> length (sv_heap s'))
    \<Longrightarrow> keeps_ready E f"
  by (simp add: keeps_ready_def)

lemma keeps_readyE:
  assumes "keeps_ready E f" and "mirror_ready E s"
  obtains s' where "f s = Some s'" and "mirror_ready E s'" and "length (sv_heap s) \<le> length (sv_heap s')"
  using assms by (auto simp: keeps_ready_def)

lemma keeps_ready_Some [inv_intros]: "keeps_ready E Some"
  by (simp add: keeps_ready_def)

lemma keeps_ready_bind [inv_intros]:
  "keeps_ready E f \<Longrightarrow> keeps_ready E g \<Longrightarrow> keeps_ready E (\<lambda>s. Option.bind (f s) g)"
proof (rule keeps_readyI)
  fix s assume f: "keeps_ready E f" and g: "keeps_ready E g" and "mirror_ready E s"
  from f this(3) obtain s1 where s1: "f s = Some s1" "mirror_ready E s1" "length (sv_heap s) \<le> length (sv_heap s1)"
    by (rule keeps_readyE)
  from g s1(2) obtain s2 where "g s1 = Some s2" "mirror_ready E s2" "length (sv_heap s1) \<le> length (sv_heap s2)"
    by (rule keeps_readyE)
  with s1 show "\<exists>s'. Option.bind (f s) g = Some s' \<and> mirror_ready E s' \<and> length (sv_heap s) \<le> length (sv_heap s')"
    by simp
qed

lemma keeps_ready_fold [inv_intros]:
  "(\<And>x. x \<in> set xs \<Longrightarrow> keeps_ready E (f x)) \<Longrightarrow> keeps_ready E (fold_steps f xs)"
proof (induction xs)
  case Nil
  have "fold_steps f [] = Some" by (simp add: fun_eq_iff)
  then show ?case by (simp add: keeps_ready_Some)
next
  case (Cons x xs)
  have "fold_steps f (x # xs) = (\<lambda>s. Option.bind (f x s) (fold_steps f xs))" by (simp add: fun_eq_iff)
  with Cons show ?case by (simp add: keeps_ready_bind)
qed

lemma ready_parts:
  assumes "mirror_ready E s"
  obtains m c r v t where "sv_mem s = Some m" "mc_schedules m = Some c" "mc_rules m = Some r"
    "mc_versions m = Some v" "mc_syncs m = Some t"
    "cache_all (co_schedules (sd_caches E)) (cached_ok (sv_heap s)) c"
  using assms by (auto simp: mirror_ready_def cache_ready_def complete_cache_def)

text \<open>What the world does leaves the mirror as it is.\<close>

lemma ready_world [simp]: "mirror_ready E (s\<lparr>sv_world := w\<rparr>) = mirror_ready E s"
  by (simp add: mirror_ready_def)

lemma ready_extend:
  "mirror_ready E s \<Longrightarrow> length (sv_heap s) \<le> length h \<Longrightarrow> mirror_ready E (s\<lparr>sv_heap := h\<rparr>)"
  by (auto simp: mirror_ready_def intro: cache_ready_mono)

lemma ready_set_heap: "mirror_ready E s \<Longrightarrow> mirror_ready E (set_heap (attach_rule p r (sv_heap s)) s)"
  unfolding set_heap_def by (rule ready_extend) simp_all

section \<open>The steps of evaluate\<close>

lemma set_rule_ready: "keeps_ready E (set_rule E r)"
proof (rule keeps_readyI)
  fix s assume "mirror_ready E s"
  then show "\<exists>s'. set_rule E r s = Some s' \<and> mirror_ready E s' \<and> length (sv_heap s) \<le> length (sv_heap s')"
    by (rule ready_parts) (simp add: set_rule_def mirror_ready_def cache_ready_def complete_cache_def)
qed

lemma clear_placement_ready:
  assumes "mirror_laws (sd_caches E)" and "sd_has_metric E"
  shows "keeps_ready E (clear_placement E name)"
proof (rule keeps_readyI)
  note ops = mirror_laws.cm_alls [OF assms(1)]
  fix s assume "mirror_ready E s"
  then show "\<exists>s'. clear_placement E name s = Some s' \<and> mirror_ready E s' \<and> length (sv_heap s) \<le> length (sv_heap s')"
    by (rule ready_parts) (simp add: clear_placement_def mirror_ready_def cache_ready_def complete_cache_def assms(2) ops)
qed

text \<open>The steps that store pointers keep the heap, and store pointers into it.\<close>

lemma refresh_placement_ready:
  assumes laws: "mirror_laws (sd_caches E)" and ready: "mirror_ready E s"
    and ps: "list_all (\<lambda>p. p < length (sv_heap s)) (snd g)"
  shows "\<exists>s'. refresh_placement E g s = Some s' \<and> mirror_ready E s' \<and> sv_heap s' = sv_heap s"
proof -
  note ops = mirror_laws.cm_alls [OF laws]
  have "cached_ok (sv_heap s) (schedules_key (fst g)) (snd g)" using ps by (auto simp: cached_ok_def)
  with ready show ?thesis
    by (elim ready_parts)
      (simp add: refresh_placement_def mirror_ready_def cache_ready_def complete_cache_def split_beta Let_def ops)
qed

lemma fold_refresh_ready:
  assumes laws: "mirror_laws (sd_caches E)" and "mirror_ready E s"
    and "\<And>g. g \<in> set groups \<Longrightarrow> list_all (\<lambda>p. p < length (sv_heap s)) (snd g)"
  shows "\<exists>s'. fold_steps (refresh_placement E) groups s = Some s' \<and> mirror_ready E s' \<and> sv_heap s' = sv_heap s"
  using assms(2,3)
proof (induction groups arbitrary: s)
  case (Cons g groups)
  obtain s1 where "refresh_placement E g s = Some s1" "mirror_ready E s1" "sv_heap s1 = sv_heap s"
    using refresh_placement_ready [OF laws Cons.prems(1), of g] Cons.prems(2) by auto
  with Cons.IH [of s1] Cons.prems(2) show ?case by simp
qed simp

lemma replace_mirror_ready:
  assumes laws: "mirror_laws (sd_caches E)" and ready: "mirror_ready E s"
    and ok: "gm_ok ns" "gm_ok nr" "gm_ok nv" and slots: "\<And>k ps. (k, ps) \<in> set ns \<Longrightarrow> cached_ok (sv_heap s) k ps"
  shows "\<exists>s'. replace_mirror E ns nr nv s = Some s' \<and> mirror_ready E s' \<and> sv_heap s' = sv_heap s"
proof -
  from ready obtain m c r v t where s: "sv_mem s = Some m" "mc_schedules m = Some c" "mc_rules m = Some r"
    "mc_versions m = Some v" "mc_syncs m = Some t" "cache_all (co_schedules (sd_caches E)) (cached_ok (sv_heap s)) c"
    by (rule ready_parts)
  have complete: "complete_cache m" using s by (simp add: complete_cache_def)
  let ?f = "Some (\<lambda>c. update_version_metric E (now_ns E s) (Some c))"
  obtain m' evs where upd: "update_schedules (sd_caches E) (now_of E s) ns nr nv (sd_result_ttl E) ?f m = Some (m', evs)"
    and m': "complete_cache m'"
    and all: "\<forall>P c. mc_schedules m = Some c \<and> cache_all (co_schedules (sd_caches E)) P c
      \<and> (\<forall>kv \<in> set ns. P (fst kv) (snd kv)) \<longrightarrow> cache_all (co_schedules (sd_caches E)) P (the (mc_schedules m'))"
    by (rule mirror_laws.update_schedules_views [OF laws complete ok, where now = "now_of E s"
          and ttl = "sd_result_ttl E" and f = ?f])
  have "cache_all (co_schedules (sd_caches E)) (cached_ok (sv_heap s)) (the (mc_schedules m'))"
    by (rule all [rule_format, of c]) (use s slots in auto)
  with m' show ?thesis by (auto simp: replace_mirror_def s upd mirror_ready_def cache_ready_def)
qed

lemma prune_rules_ready:
  assumes "mirror_laws (sd_caches E)" and "mirror_ready E s"
  shows "mirror_ready E (prune_rules E s)" and "sv_heap (prune_rules E s) = sv_heap s"
proof -
  from assms(2) obtain m c r v t where s: "sv_mem s = Some m" "mc_schedules m = Some c" "mc_rules m = Some r"
    "mc_versions m = Some v" "mc_syncs m = Some t" "cache_all (co_schedules (sd_caches E)) (cached_ok (sv_heap s)) c"
    by (rule ready_parts)
  note pv = mirror_laws.prune_views [OF assms(1) s(2) refl]
  show "mirror_ready E (prune_rules E s)"
    using pv(2-6) s by (simp add: prune_rules_def mirror_ready_def cache_ready_def complete_cache_def)
  show "sv_heap (prune_rules E s) = sv_heap s" by (simp add: prune_rules_def)
qed

section \<open>evaluate\<close>

lemma repopulate_ready:
  assumes laws: "mirror_laws (sd_caches E)" and ready: "mirror_ready E s" and ok: "gm_ok groups"
    and slots: "\<And>g. g \<in> set groups \<Longrightarrow> list_all (\<lambda>p. p < length (sv_heap s)) (snd g)"
  shows "\<exists>s'. repopulate E targeted groups rules s = Some s' \<and> mirror_ready E s'
    \<and> length (sv_heap s) \<le> length (sv_heap s')"
proof (cases targeted)
  case True
  obtain s1 where s1: "fold_steps (refresh_placement E) groups s = Some s1" "mirror_ready E s1" "sv_heap s1 = sv_heap s"
    using fold_refresh_ready [OF laws ready slots] by blast
  have "keeps_ready E (fold_steps (set_rule E) (map snd rules))"
    by (rule keeps_ready_fold) (rule set_rule_ready)
  then obtain s2 where s2: "fold_steps (set_rule E) (map snd rules) s1 = Some s2" "mirror_ready E s2"
    "length (sv_heap s1) \<le> length (sv_heap s2)"
    using s1(2) by (rule keeps_readyE)
  with s1 ready prune_rules_ready [OF laws s2(2)] True show ?thesis
    by (auto simp: repopulate_def mirror_ready_def)
next
  case False
  have "cached_ok (sv_heap s) k ps" if "(k, ps) \<in> set (new_schedules groups)" for k ps
    using that slots by (auto simp: new_schedules_def cached_ok_def)
  then have "\<exists>s'. replace_mirror E (new_schedules groups) (new_rules E rules) (new_versions E (sv_heap s) groups) s = Some s'
      \<and> mirror_ready E s' \<and> sv_heap s' = sv_heap s"
    using ok by (intro replace_mirror_ready [OF laws ready]) auto
  with False ready show ?thesis by (auto simp: repopulate_def mirror_ready_def)
qed

lemma evaluate_ready:
  assumes laws: "mirror_laws (sd_caches E)" and wired: "wired E"
  shows "keeps_ready E (evaluate E names)"
proof (rule keeps_readyI)
  fix s assume ready: "mirror_ready E s"
  let ?goal = "\<lambda>r. \<exists>s'. r = Some s' \<and> mirror_ready E s' \<and> length (sv_heap s) \<le> length (sv_heap s')"
  from wired obtain repo fetch where deps: "sd_occurrences E = Some repo" "sd_rules E = Some fetch" "sd_has_metric E"
    by (auto simp: wired_def)
  obtain r w where list: "list_occurrences E names s = Some (r, s\<lparr>sv_world := w\<rparr>)"
    using deps(1) by (fastforce simp: list_occurrences_def split_beta)
  show "?goal (evaluate E names s)"
  proof (cases r)
    case (Inl e)
    then show ?thesis using ready by (simp add: evaluate_def list)
  next
    case (Inr occs)
    show ?thesis
    proof (cases "names \<noteq> [] \<and> occs = []")
      case True
      have "keeps_ready E (fold_steps (clear_placement E) names)"
        by (rule keeps_ready_fold) (rule clear_placement_ready [OF laws deps(3)])
      moreover have "mirror_ready E (s\<lparr>sv_world := w\<rparr>)" using ready by simp
      ultimately obtain s' where "fold_steps (clear_placement E) names (s\<lparr>sv_world := w\<rparr>) = Some s'"
        "mirror_ready E s'" "length (sv_heap (s\<lparr>sv_world := w\<rparr>)) \<le> length (sv_heap s')"
        by (rule keeps_readyE)
      with True Inr show ?thesis by (simp add: evaluate_def list)
    next
      case False
      obtain ps h where alloc: "alloc (unique_schedules occs) (sv_heap s) = (ps, h)" by fastforce
      note heap = alloc_schedules [OF alloc]
      define groups where "groups = placement_groups h ps"
      define s1 where "s1 = s\<lparr>sv_world := w, sv_heap := h\<rparr>"
      have ready1: "mirror_ready E s1" unfolding s1_def heap_world
        using ready_extend [OF ready heap(2)] by simp
      have slots: "list_all (\<lambda>p. p < length h) (snd g)" if "g \<in> set groups" for g
        using groups_entries [OF heap(3), of "fst g" "snd g"] that by (simp add: groups_def)
      obtain rs w2 where fetched: "fetch_rules E (map bm_id (unique_schedules occs)) s1 = Some (rs, s1\<lparr>sv_world := w2\<rparr>)"
        using deps(2) by (fastforce simp: fetch_rules_def split_beta)
      have step: "evaluate E names s =
          (if groups = [] then replace_mirror E [] [] [] s1
           else repopulate E (names \<noteq> []) groups (rules_or_none rs) (s1\<lparr>sv_world := w2\<rparr>))"
        using False Inr fetched by (auto simp: evaluate_def list alloc Let_def groups_def s1_def)
      have "\<exists>s'. replace_mirror E [] [] [] s1 = Some s' \<and> mirror_ready E s' \<and> sv_heap s' = sv_heap s1"
        by (rule replace_mirror_ready [OF laws ready1]) simp_all
      moreover have "\<exists>s'. repopulate E (names \<noteq> []) groups (rules_or_none rs) (s1\<lparr>sv_world := w2\<rparr>) = Some s'
          \<and> mirror_ready E s' \<and> length (sv_heap (s1\<lparr>sv_world := w2\<rparr>)) \<le> length (sv_heap s')"
        using ready1 slots by (intro repopulate_ready [OF laws]) (auto simp: groups_def s1_def heap_world)
      ultimately show ?thesis using heap(2) by (auto simp: step s1_def)
    qed
  qed
qed

section \<open>FlushCache and the pings\<close>

lemma flush_only_ready:
  assumes "mirror_laws (sd_caches E)"
  shows "keeps_ready E (flush_cache E names False)"
proof (rule keeps_readyI)
  fix s assume "mirror_ready E s"
  then obtain s' where "flush_cache E names False s = Some s'" "mirror_ready E s'" "sv_heap s' = sv_heap s"
    by (rule flush_cache_view [OF assms, of s names])
  then show "\<exists>s'. flush_cache E names False s = Some s' \<and> mirror_ready E s' \<and> length (sv_heap s) \<le> length (sv_heap s')"
    by simp
qed

lemma flush_cache_evaluate:
  "flush_cache E names True = (\<lambda>s. Option.bind (flush_cache E names False s) (evaluate E []))"
  by (simp add: flush_cache_def fun_eq_iff)

lemma flush_cache_ready:
  assumes "mirror_laws (sd_caches E)" and "wired E"
  shows "keeps_ready E (flush_cache E names is_evaluate)"
  by (cases is_evaluate)
    (simp_all add: flush_cache_evaluate flush_only_ready keeps_ready_bind evaluate_ready assms)

lemma apply_ping_ready:
  assumes laws: "mirror_laws (sd_caches E)" and "wired E"
  shows "keeps_ready E (apply_ping E ping)"
proof (rule keeps_readyI)
  fix s assume ready: "mirror_ready E s"
  obtain s1 where s1: "invalidate E ping s = Some s1" "mirror_ready E s1" "sv_heap s1 = sv_heap s"
    by (rule invalidate_ready [OF laws ready])
  obtain s2 where "evaluate E (if sp_placement_name ping \<noteq> [] then [sp_placement_name ping] else []) s1 = Some s2"
    "mirror_ready E s2" "length (sv_heap s1) \<le> length (sv_heap s2)"
    using evaluate_ready [OF assms] s1(2) by (rule keeps_readyE)
  with s1 ready show "\<exists>s'. apply_ping E ping s = Some s' \<and> mirror_ready E s' \<and> length (sv_heap s) \<le> length (sv_heap s')"
    by (auto simp: apply_ping_def already_mirrored_view [OF ready])
qed

lemma receive_message_returns:
  assumes "mirror_ready E s"
  shows "\<exists>r. receive_message E msg s = Some r"
  by (cases "unmarshal_ping msg") (simp add: receive_message_def already_mirrored_view [OF assms])

section \<open>GetPersonalizedContent\<close>

text \<open>Steps that only move the world leave the mirror and the heap.\<close>

definition frame :: "('c, 'w) service \<Rightarrow> ('c, 'w) service \<Rightarrow> bool" where
  "frame s s' = (sv_mem s' = sv_mem s \<and> sv_heap s' = sv_heap s \<and> sv_metrics s' = sv_metrics s)"

lemma frame_refl [simp]: "frame s s"
  by (simp add: frame_def)

lemma frame_trans: "frame s s1 \<Longrightarrow> frame s1 s2 \<Longrightarrow> frame s s2"
  by (simp add: frame_def)

lemma frame_updates [simp]:
  "frame s (s'\<lparr>sv_world := w\<rparr>) = frame s s'"
  "frame s (s'\<lparr>sv_schema_fields := f\<rparr>) = frame s s'"
  "frame s (s'\<lparr>sv_attr_uuids := a\<rparr>) = frame s s'"
  by (simp_all add: frame_def)

lemma lookup_schema_frame: "frame s (snd (lookup_schema_fields E u s))"
  by (simp add: lookup_schema_fields_def split_beta Let_def split: option.split sum.split)

lemma lookup_uuids_frame: "frame s (snd (lookup_attribute_uuids E ds s))"
  by (simp add: lookup_attribute_uuids_def split_beta Let_def split: option.split sum.split)

lemma scope_sources_frame:
  assumes "\<And>u s. frame s (snd (lookup u s))"
  shows "frame s (snd (scope_sources lookup cached scopes s))"
proof (induction scopes arbitrary: s)
  case (Cons p scopes)
  obtain u sc where p: "p = (u, sc)" by fastforce
  show ?case using assms Cons.IH by (auto simp: p split_beta Let_def intro: frame_trans)
qed simp

lemma transform_frame: "frame s (snd (transform_to_uuid_keyed E cached s))"
proof -
  have step: "frame (snd st) (snd (transform_step E entry st))" for entry st
    using lookup_uuids_frame [of "snd st" E "fst entry"]
    by (auto simp: transform_step_def split_beta Let_def split: sum.splits)
  have "frame (snd st) (snd (fold (transform_step E) cached st))" for st
  proof (induction cached arbitrary: st)
    case (Cons entry cached)
    show ?case using frame_trans [OF step Cons.IH] by simp
  qed simp
  from this [of "([], s)"] show ?thesis by (simp add: transform_to_uuid_keyed_def)
qed

lemma enrich_frame: "frame s (snd (enrich_customer_profile E t i attrs sources s))"
  by (simp add: enrich_customer_profile_def store_profile_def split_beta Let_def split: option.split sum.split)

lemma warm_fetch_frame: "frame s (snd (warm_fetch E t i rules cached s))"
proof -
  let ?x = "extract_clen_data_sources (Some (lookup_schema_fields E)) rules cached s"
  have "frame s (snd ?x)"
    by (simp add: extract_clen_data_sources_def scope_sources_frame [OF lookup_schema_frame])
  then show ?thesis by (simp add: warm_fetch_def split_beta Let_def frame_trans [OF _ enrich_frame])
qed

lemma resolve_user_attrs_frame: "frame s (snd (resolve_user_attrs E t i rules s))"
proof -
  have read: "frame s (snd (read_cached_profile redis key s))" for redis key
    by (simp add: read_cached_profile_def split_beta Let_def)
  have "frame s (snd (transform_to_uuid_keyed E (fst (warm_fetch E t i rules c s1)) (snd (warm_fetch E t i rules c s1))))"
    if "frame s s1" for c s1
    by (rule frame_trans [OF frame_trans [OF that warm_fetch_frame] transform_frame])
  then show ?thesis by (simp add: resolve_user_attrs_def split_beta Let_def read split: option.split)
qed

lemma fetch_leads_frame: "frame s (snd (fetch_leads_for_request E c cnl names rules s))"
  by (simp add: fetch_leads_for_request_def split_beta Let_def split: option.split)

end
