(* ===== verification/Serve_Invariant.thy ===== *)
theory Serve_Invariant
  imports Mirror_Invariant
begin

text \<open>
  GetPersonalizedContent keeps the state good and does not panic: the contract of the runtime
  evaluator (src/cmd/server/service/cms_runtime.go), the rules that reach it, and the request
  path step by step.
\<close>

section \<open>The contract of the runtime evaluator\<close>

definition rules_within :: "(decision_rule \<Rightarrow> bool) \<Rightarrow> schedule \<Rightarrow> bool" where
  "rules_within R sc = (case sc_rule sc of None \<Rightarrow> True | Some r \<Rightarrow> R r)"

locale runtime_evaluator =
  fixes ev :: evaluator_fn and R :: "decision_rule \<Rightarrow> bool"
  assumes answers: "list_all (rules_within R) ss \<Longrightarrow> \<exists>r. ev name ss attrs leads = Some r"
    and placed: "ev name ss attrs leads = Some (Inr rs) \<Longrightarrow> x \<in> set rs \<Longrightarrow> cr_source x = name"
begin

lemma evaluate_placement_returns:
  assumes "sd_evaluator E = Some ev" and "list_all (rules_within R) ss"
  shows "\<exists>xs. evaluate_placement E name ss attrs leads = Some xs \<and> (\<forall>x \<in> set xs. cr_source x = name)"
proof -
  obtain r where r: "ev name ss attrs leads = Some r" using answers [OF assms(2)] by blast
  show ?thesis
    using assms(1) r placed [of name ss attrs leads]
    by (cases r; cases "sd_occurrences E") (auto simp: evaluate_placement_def)
qed

end

section \<open>The rules of the state\<close>

definition heap_within :: "(decision_rule \<Rightarrow> bool) \<Rightarrow> ('c, 'w) service_deps \<Rightarrow> ('c, 'w) service \<Rightarrow> bool" where
  "heap_within R E s =
     (list_all (rules_within R) (sv_heap s)
      \<and> (\<forall>m c. sv_mem s = Some m \<longrightarrow> mc_rules m = Some c \<longrightarrow> cache_all (co_rules (sd_caches E)) (\<lambda>_. R) c))"

text \<open>The database only delivers such rules.\<close>

definition supplies :: "(decision_rule \<Rightarrow> bool) \<Rightarrow> ('c, 'w) service_deps \<Rightarrow> bool" where
  "supplies R E =
     ((\<forall>names s occs s' occ sc. list_occurrences E names s = Some (Inr occs, s') \<longrightarrow> occ \<in> set occs
         \<longrightarrow> oc_schedule occ = Some sc \<longrightarrow> rules_within R sc)
      \<and> (\<forall>ids s rules s' r. fetch_rules E ids s = Some (Inr rules, s') \<longrightarrow> r \<in> snd ` set rules \<longrightarrow> R r))"

lemma within_world [simp]: "heap_within R E (s\<lparr>sv_world := w\<rparr>) = heap_within R E s"
  by (simp add: heap_within_def)

lemma within_frame: "frame s s' \<Longrightarrow> heap_within R E s' = heap_within R E s"
  by (simp add: heap_within_def frame_def)

lemma ready_frame: "frame s s' \<Longrightarrow> mirror_ready E s' = mirror_ready E s"
  by (simp add: mirror_ready_def frame_def)

lemma rules_within_deref: "list_all (rules_within R) h \<Longrightarrow> rules_within R (deref h p)"
  by (simp add: deref_def list_all_length rules_within_def zero_schedule_def)

lemma within_attach:
  "heap_within R E s \<Longrightarrow> R r \<Longrightarrow> heap_within R E (set_heap (attach_rule p r (sv_heap s)) s)"
  by (auto simp: heap_within_def set_heap_def attach_rule_def list_all_length nth_list_update rules_within_def)

text \<open>The steps that put rules into the mirror.\<close>

lemma rules_laws: "mirror_laws (sd_caches E) \<Longrightarrow> go_cache_laws (co_rules (sd_caches E))"
  by (simp add: mirror_laws_def)

lemma within_set_rule:
  assumes "mirror_laws (sd_caches E)" and "set_rule E r s = Some s'" and "heap_within R E s" and "R r"
  shows "heap_within R E s'"
  using assms(2-4) go_cache_laws.cache_all_set [OF rules_laws [OF assms(1)]]
  by (auto simp: set_rule_def heap_within_def bind_eq_Some_conv)

lemma fold_steps_within:
  "fold_steps f xs s = Some s' \<Longrightarrow> P s \<Longrightarrow> (\<And>x s s'. x \<in> set xs \<Longrightarrow> f x s = Some s' \<Longrightarrow> P s \<Longrightarrow> P s') \<Longrightarrow> P s'"
proof (induction xs arbitrary: s)
  case (Cons x xs)
  then obtain s1 where "f x s = Some s1" "fold_steps f xs s1 = Some s'" by (auto simp: bind_eq_Some_conv)
  with Cons show ?case by (meson list.set_intros)
qed simp

lemma within_replace:
  assumes "mirror_laws (sd_caches E)" and "replace_mirror E ns nr nv s = Some s'" and "heap_within R E s"
    and "\<forall>kv \<in> set nr. R (snd kv)"
  shows "heap_within R E s'"
  using assms(2-4) cache_all_sync [OF rules_laws [OF assms(1)]]
  by (auto simp: replace_mirror_def update_schedules_def heap_within_def bind_eq_Some_conv Let_def split_beta
      split: option.splits)

lemma within_prune:
  assumes "mirror_laws (sd_caches E)" and "heap_within R E s"
  shows "heap_within R E (prune_rules E s)"
proof (cases "sv_mem s")
  case (Some m)
  with assms(2) cache_all_delete_absent [OF rules_laws [OF assms(1)]] show ?thesis
    by (cases "mc_schedules m"; cases "mc_rules m")
      (auto simp: prune_rules_def prune_orphaned_rules_def heap_within_def)
qed (use assms(2) in \<open>simp add: prune_rules_def heap_within_def\<close>)

lemma set_gm_put: "snd ` set (gm_put k v m) \<subseteq> insert v (snd ` set m)"
  unfolding gm_put_def by (induction m) auto

lemma set_new_rules: "snd ` set (new_rules E rules) \<subseteq> snd ` set rules"
proof -
  have "snd ` set (foldl (\<lambda>m r. gm_put (rule_key E (bm_id r)) r m) m rs) \<subseteq> set rs \<union> snd ` set m"
    for rs :: "decision_rule list" and m
  proof (induction rs arbitrary: m)
    case (Cons r rs)
    show ?case using Cons [of "gm_put (rule_key E (bm_id r)) r m"] set_gm_put [of "rule_key E (bm_id r)" r m] by auto
  qed simp
  from this [of "[]" "map snd rules"] show ?thesis by (simp add: new_rules_def)
qed

lemma within_repopulate:
  assumes laws: "mirror_laws (sd_caches E)" and rep: "repopulate E targeted groups rules s = Some s'"
    and within: "heap_within R E s" and rules: "\<forall>kv \<in> set rules. R (snd kv)"
  shows "heap_within R E s'"
proof -
  have refresh: "heap_within R E s2" if "refresh_placement E g s1 = Some s2" "heap_within R E s1" for g s1 s2
    using that by (auto simp: refresh_placement_def heap_within_def bind_eq_Some_conv Let_def split: prod.splits)
  show ?thesis
  proof (cases "sv_mem s = None \<or> \<not> targeted")
    case True
    have "\<forall>kv \<in> set (new_rules E rules). R (snd kv)"
    proof
      fix kv assume "kv \<in> set (new_rules E rules)"
      then have "snd kv \<in> snd ` set rules" using set_new_rules [of E rules] by (blast intro: imageI)
      then show "R (snd kv)" using rules by auto
    qed
    moreover have "s' = s \<or> replace_mirror E (new_schedules groups) (new_rules E rules)
        (new_versions E (sv_heap s) groups) s = Some s'"
      using True rep by (auto simp: repopulate_def split: if_splits)
    ultimately show ?thesis using within within_replace [OF laws] by blast
  next
    case False
    with rep obtain s1 s2 where "fold_steps (refresh_placement E) groups s = Some s1"
      and s2: "fold_steps (set_rule E) (map snd rules) s1 = Some s2" and s': "s' = prune_rules E s2"
      by (auto simp: repopulate_def bind_eq_Some_conv)
    then have "heap_within R E s1"
      using within refresh by (blast intro: fold_steps_within [where P = "heap_within R E"])
    with s2 have "heap_within R E s2"
      by (rule fold_steps_within) (use rules in \<open>auto intro: within_set_rule [OF laws]\<close>)
    then show ?thesis unfolding s' by (rule within_prune [OF laws])
  qed
qed

lemma within_evaluate:
  assumes laws: "mirror_laws (sd_caches E)" and eval: "evaluate E names s = Some s'"
    and within: "heap_within R E s" and supplied: "supplies R E"
  shows "heap_within R E s'"
proof -
  have clear: "heap_within R E s2" if "clear_placement E name s1 = Some s2" "heap_within R E s1" for name s1 s2
    using that by (auto simp: clear_placement_def heap_within_def bind_eq_Some_conv split: option.splits if_splits)
  from eval obtain r s1 where list: "list_occurrences E names s = Some (r, s1)" by (auto simp: evaluate_def bind_eq_Some_conv)
  have within1: "heap_within R E s1"
    using list within by (auto simp: list_occurrences_def bind_eq_Some_conv Let_def split: if_splits prod.splits)
  show ?thesis
  proof (cases r)
    case (Inl e)
    then show ?thesis using eval within1 by (simp add: evaluate_def list)
  next
    case (Inr occs)
    have rules: "rules_within R sc" if "sc \<in> set (unique_schedules occs)" for sc
      using that supplied list unfolding Inr supplies_def
      by (fastforce simp: unique_schedules_def dest: dedup_by_subset [THEN subsetD] split: option.splits)
    obtain ps h where alloc: "alloc (unique_schedules occs) (sv_heap s1) = (ps, h)" by fastforce
    then have h: "h = sv_heap s1 @ unique_schedules occs" by (simp add: alloc_def)
    define s2 where "s2 = s1\<lparr>sv_heap := h\<rparr>"
    have within2: "heap_within R E s2"
      using within1 rules by (auto simp: heap_within_def s2_def h list_all_iff)
    have fetched: "heap_within R E s3 \<and> (\<forall>kv \<in> set (rules_or_none rs). R (snd kv))"
      if "fetch_rules E ids s2 = Some (rs, s3)" for ids rs s3
    proof -
      have "heap_within R E s3" using that within2 by (auto simp: fetch_rules_def bind_eq_Some_conv split_beta)
      moreover have "\<forall>kv \<in> set (rules_or_none rs). R (snd kv)"
        using that supplied by (cases rs) (fastforce simp: rules_or_none_def supplies_def)+
      ultimately show ?thesis by blast
    qed
    show ?thesis
    proof (cases "names \<noteq> [] \<and> occs = []")
      case True
      then have "fold_steps (clear_placement E) names s1 = Some s'" using eval Inr by (simp add: evaluate_def list)
      then show ?thesis using within1 clear by (rule fold_steps_within)
    next
      case False
      let ?groups = "placement_groups h ps"
      have "(if ?groups = [] then replace_mirror E [] [] [] s2
          else Option.bind (fetch_rules E (map bm_id (unique_schedules occs)) s2)
            (\<lambda>(rs, s). repopulate E (names \<noteq> []) ?groups (rules_or_none rs) s)) = Some s'"
        using eval False Inr by (auto simp: evaluate_def list alloc Let_def s2_def split_beta)
      then consider "replace_mirror E [] [] [] s2 = Some s'"
        | rs s3 where "fetch_rules E (map bm_id (unique_schedules occs)) s2 = Some (rs, s3)"
          "repopulate E (names \<noteq> []) ?groups (rules_or_none rs) s3 = Some s'"
        by (auto simp: bind_eq_Some_conv split: if_splits)
      then show ?thesis
      proof cases
        case 1
        then show ?thesis by (rule within_replace [OF laws _ within2]) simp
      next
        case (2 rs s3)
        with fetched [of _ rs s3] show ?thesis by (blast intro: within_repopulate [OF laws])
      qed
    qed
  qed
qed

section \<open>The request path\<close>

definition good :: "(decision_rule \<Rightarrow> bool) \<Rightarrow> ('c, 'w) service_deps \<Rightarrow> ('c, 'w) service \<Rightarrow> bool" where
  "good R E s = (mirror_ready E s \<and> heap_within R E s)"

lemma good_world [simp]: "good R E (s\<lparr>sv_world := w\<rparr>) = good R E s"
  by (simp add: good_def)

lemma good_frame: "frame s s' \<Longrightarrow> good R E s \<Longrightarrow> good R E s'"
  by (simp add: good_def ready_frame within_frame)

lemma good_evaluate:
  assumes "mirror_laws (sd_caches E)" and "wired E" and "supplies R E" and "good R E s"
  shows "\<exists>s'. evaluate E names s = Some s' \<and> good R E s'"
proof -
  obtain s' where "evaluate E names s = Some s'" "mirror_ready E s'"
    using keeps_readyE [OF evaluate_ready [OF assms(1,2)]] assms(4) unfolding good_def by metis
  then show ?thesis using within_evaluate [OF assms(1) _ _ assms(3)] assms(4) by (auto simp: good_def)
qed

lemma good_attach:
  "good R E s \<Longrightarrow> R r \<Longrightarrow> good R E (set_heap (attach_rule p r (sv_heap s)) s)"
  by (simp add: good_def ready_set_heap within_attach)

lemma good_set_rule:
  assumes "mirror_laws (sd_caches E)" and "good R E s" and "R r"
  shows "\<exists>s'. set_rule E r s = Some s' \<and> good R E s'"
proof -
  obtain s' where "set_rule E r s = Some s'" "mirror_ready E s'"
    using keeps_readyE [OF set_rule_ready] assms(2) unfolding good_def by metis
  then show ?thesis using within_set_rule [OF assms(1), where R = R] assms(2,3) by (auto simp: good_def)
qed

lemma cached_schedules_returns: "mirror_ready E s \<Longrightarrow> \<exists>r. cached_schedules E name s = Some r"
  by (auto simp: cached_schedules_def mirror_ready_def cache_ready_def complete_cache_def)

lemma collect_missed_returns: "mirror_ready E s \<Longrightarrow> \<exists>ps. collect_missed E names s = Some ps"
proof (induction names)
  case (Cons name names)
  then obtain r ps where "cached_schedules E name s = Some r" "collect_missed E names s = Some ps"
    using cached_schedules_returns by blast
  then show ?case by simp
qed simp

lemma good_check_mirror:
  assumes "mirror_laws (sd_caches E)" and "wired E" and "supplies R E" and "good R E s"
  shows "\<exists>err s'. check_mirror E name s = Some (err, s') \<and> good R E s'"
proof -
  obtain s' where "evaluate E [] s = Some s'" "good R E s'"
    using good_evaluate [OF assms] by blast
  then show ?thesis
    using assms(4) by (auto simp: check_mirror_def split: option.split)
qed

lemma good_gather:
  assumes "mirror_laws (sd_caches E)" and "wired E" and "supplies R E" and "good R E s"
  shows "\<exists>r s'. gather_schedules E names acc missed s = Some (r, s') \<and> good R E s'"
  using assms(4)
proof (induction names arbitrary: acc missed s)
  case (Cons name names)
  obtain err s1 where s1: "check_mirror E name s = Some (err, s1)" "good R E s1"
    using good_check_mirror [OF assms(1-3) Cons.prems] by blast
  show ?case
  proof (cases err)
    case None
    obtain found where "cached_schedules E name s1 = Some found"
      using cached_schedules_returns s1(2) unfolding good_def by blast
    with Cons.IH [OF s1(2)] s1 None show ?thesis by (cases found) simp_all
  qed (use s1 in simp)
qed simp

lemma good_retry:
  assumes "mirror_laws (sd_caches E)" and "wired E" and "supplies R E" and "good R E s"
  shows "\<exists>ps s'. retry_missed E missed s = Some (ps, s') \<and> good R E s'"
proof -
  obtain s' where "evaluate E [] s = Some s'" "good R E s'"
    using good_evaluate [OF assms] by blast
  moreover obtain ps where "collect_missed E missed s' = Some ps"
    using collect_missed_returns calculation(2) unfolding good_def by blast
  ultimately show ?thesis using assms(4) by (simp add: retry_missed_def)
qed

lemma good_attach_cached:
  assumes "good R E s"
  shows "\<exists>missed' s'. attach_cached_rules E ps missed s = Some (missed', s') \<and> good R E s'"
  using assms
proof (induction ps arbitrary: missed s)
  case (Cons p ps)
  show ?case
  proof (cases "sc_rule (deref (sv_heap s) p) = None \<and> sc_rule_id (deref (sv_heap s) p) \<noteq> uuid_nil")
    case True
    from Cons.prems obtain m c where m: "sv_mem s = Some m" "mc_rules m = Some c"
      and all: "cache_all (co_rules (sd_caches E)) (\<lambda>_. R) c"
      by (auto simp: good_def mirror_ready_def cache_ready_def complete_cache_def heap_within_def)
    let ?found = "cm_get (co_rules (sd_caches E)) (now_ns E s) c (rule_key E (sc_rule_id (deref (sv_heap s) p)))"
    show ?thesis
    proof (cases ?found)
      case None
      with True m Cons.IH [OF Cons.prems] show ?thesis by (simp add: Let_def)
    next
      case (Some r)
      with all have "R r" by (rule cache_allD)
      from Cons.IH [OF good_attach [OF Cons.prems this]] True m Some show ?thesis by (simp add: Let_def)
    qed
  next
    case False
    then have "attach_cached_rules E (p # ps) missed s = attach_cached_rules E ps missed s" by auto
    with Cons show ?thesis by simp
  qed
qed simp

lemma good_fetch_rules:
  assumes "wired E" and "supplies R E" and "good R E s"
  shows "\<exists>rs s'. fetch_rules E ids s = Some (rs, s') \<and> good R E s'
    \<and> (\<forall>k r. gm_get (rules_or_none rs) k = Some r \<longrightarrow> R r)"
proof -
  from assms(1) obtain repo where repo: "sd_rules E = Some repo" by (auto simp: wired_def)
  obtain rs w where res: "repo (sv_world s) ids = (rs, w)" by fastforce
  then have fetch: "fetch_rules E ids s = Some (rs, s\<lparr>sv_world := w\<rparr>)" by (simp add: fetch_rules_def repo)
  have "R r" if "gm_get (rules_or_none rs) k = Some r" for k r
    using that assms(2) fetch
    by (cases rs) (fastforce simp: rules_or_none_def gm_get_def supplies_def dest: map_of_SomeD)+
  with fetch assms(3) show ?thesis by auto
qed

lemma good_backfill:
  assumes laws: "mirror_laws (sd_caches E)" and "wired E" and "supplies R E" and "good R E s"
  shows "\<exists>s'. backfill_rules E ps missed s = Some s' \<and> good R E s'"
proof (cases "missed = []")
  case False
  obtain rs s1 where rs: "fetch_rules E missed s = Some (rs, s1)" "good R E s1"
    and R: "\<And>k r. gm_get (rules_or_none rs) k = Some r \<Longrightarrow> R r"
    using good_fetch_rules [OF assms(2-4)] by blast
  have step: "\<exists>s'. backfill_rule E (rules_or_none rs) p s = Some s' \<and> good R E s'" if "good R E s" for p s
    using that good_set_rule [OF laws good_attach [OF that R] R]
    by (simp add: backfill_rule_def split: option.split)
  have "\<exists>s'. fold_steps (backfill_rule E (rules_or_none rs)) qs s1 = Some s' \<and> good R E s'" for qs
    using rs(2)
  proof (induction qs arbitrary: s1)
    case (Cons q qs)
    from step [OF Cons.prems] obtain s2 where "backfill_rule E (rules_or_none rs) q s1 = Some s2" "good R E s2" by blast
    with Cons.IH show ?case by simp
  qed simp
  with False rs show ?thesis by (simp add: backfill_rules_def)
qed (use assms(4) in \<open>simp add: backfill_rules_def\<close>)

text \<open>What is served carries rules of the state, and is of the placement it is served for.\<close>

lemma filtered_within:
  assumes "list_all (rules_within R) h"
  shows "list_all (rules_within R) (map (deref h) ps)"
  using rules_within_deref [OF assms] by (simp add: list_all_iff)

lemma all_some_total:
  assumes "\<And>x. x \<in> set xs \<Longrightarrow> \<exists>y. f x = Some y"
  shows "\<exists>ys. all_some (map f xs) = Some ys"
proof (cases "all_some (map f xs)")
  case None
  then obtain x where "x \<in> set xs" "f x = None" by (auto simp: all_some_None)
  with assms [of x] show ?thesis by simp
qed simp

context runtime_evaluator
begin

lemma evaluate_placements_returns:
  assumes "sd_evaluator E = Some ev" and "list_all (rules_within R) h"
  shows "\<exists>xs. evaluate_placements E h filtered attrs leads names = Some xs
    \<and> (\<forall>x \<in> set xs. cr_source x \<in> set names)"
proof -
  let ?f = "\<lambda>name. evaluate_placement E name (map (deref h) (gm_slice filtered name)) attrs leads"
  have one: "\<exists>xs. ?f name = Some xs \<and> (\<forall>x \<in> set xs. cr_source x = name)" for name
    by (rule evaluate_placement_returns [OF assms(1) filtered_within [OF assms(2)]])
  then obtain xss where xss: "all_some (map ?f names) = Some xss"
    using all_some_total [of names ?f] by blast
  have "cr_source x \<in> set names" if "x \<in> set (concat xss)" for x
  proof -
    from that obtain name xs where "name \<in> set names" "?f name = Some xs" "x \<in> set xs"
      unfolding set_concat_all_some [OF xss] by blast
    with one [of name] show ?thesis by auto
  qed
  with xss show ?thesis by (simp add: evaluate_placements_def)
qed

lemma serve_schedules_returns:
  assumes "mirror_laws (sd_caches E)" and "wired E" and "supplies R E" and "good R E s"
    and ev: "sd_evaluator E = Some ev"
  shows "\<exists>xs s'. serve_schedules E c cnl names ps s = Some (xs, s') \<and> good R E s'
    \<and> (\<forall>x \<in> set xs. cr_source x \<in> set names)"
proof -
  obtain missed s1 where s1: "attach_cached_rules E ps [] s = Some (missed, s1)" "good R E s1"
    using good_attach_cached [OF assms(4)] by blast
  obtain s2 where s2: "backfill_rules E ps missed s1 = Some s2" "good R E s2"
    using good_backfill [OF assms(1-3) s1(2)] by blast
  let ?filtered = "filter_servable (sv_heap s2) names ps"
  let ?rules = "unique_rules_from_filtered (sv_heap s2) ?filtered"
  obtain attrs s3 where s3: "resolve_user_attrs E (cu_type c) (customer_value c) ?rules s2 = (attrs, s3)" by fastforce
  obtain leads s4 where s4: "fetch_leads_for_request E c cnl names ?rules s3 = (leads, s4)" by fastforce
  have "frame s2 s4"
    using resolve_user_attrs_frame [of s2 E "cu_type c" "customer_value c" ?rules] fetch_leads_frame [of s3 E c cnl names ?rules]
    by (auto simp: s3 s4 intro: frame_trans)
  then have good4: "good R E s4" using s2(2) by (rule good_frame)
  then have "list_all (rules_within R) (sv_heap s4)" by (simp add: good_def heap_within_def)
  then obtain xs where "evaluate_placements E (sv_heap s4) ?filtered (gm_get attrs) leads names = Some xs"
      "\<forall>x \<in> set xs. cr_source x \<in> set names"
    using evaluate_placements_returns [OF ev] by blast
  with s1(1) s2(1) s3 s4 good4 show ?thesis by (simp add: serve_schedules_def)
qed

lemma request_returns:
  assumes "mirror_laws (sd_caches E)" and "wired E" and "supplies R E" and "good R E s"
    and ev: "sd_evaluator E = Some ev"
  shows "\<exists>r s'. get_personalized_content E customer cnl names s = Some (r, s') \<and> good R E s'
    \<and> (\<forall>xs. r = Inr xs \<longrightarrow> (\<forall>x \<in> set xs. cr_source x \<in> set names))"
proof (cases "customer = None \<or> customer_is_empty (the customer)")
  case True
  then show ?thesis using assms(4) by (auto simp: get_personalized_content_def split: option.split)
next
  case False
  then obtain c where c: "customer = Some c" "\<not> customer_is_empty c" by auto
  obtain g s1 where g: "gather_schedules E names [] [] s = Some (g, s1)" "good R E s1"
    using good_gather [OF assms(1-4)] by blast
  show ?thesis
  proof (cases g)
    case (Inl e)
    with c g show ?thesis by (simp add: get_personalized_content_def)
  next
    case (Inr found)
    obtain ps missed where found: "found = (ps, missed)" by fastforce
    obtain qs s2 where retry: "retry_missed E missed s1 = Some (qs, s2)" "good R E s2"
      using good_retry [OF assms(1-3) g(2)] by blast
    obtain xs s3 where "serve_schedules E c cnl names (ps @ qs) s2 = Some (xs, s3)" "good R E s3"
        "\<forall>x \<in> set xs. cr_source x \<in> set names"
      using serve_schedules_returns [OF assms(1-3) retry(2) ev] by blast
    with c g(1) retry(1) show ?thesis by (simp add: get_personalized_content_def Inr found)
  qed
qed

end

section \<open>LocalEvaluator\<close>

context uuid_laws
begin

lemma local_evaluator_contract: "runtime_evaluator (local_evaluator U) rule_loaded"
proof
  fix ss name attrs leads assume "list_all (rules_within rule_loaded) ss"
  have "\<exists>xs. schedule_results U name (Some attrs) leads sc = Some xs" if sc: "sc \<in> set ss" for sc
  proof -
    have "rule_loaded r" if "sc_rule sc = Some r" for r
      using \<open>list_all (rules_within rule_loaded) ss\<close> sc that by (auto simp: list_all_iff rules_within_def)
    then obtain xs where "schedule_results U name (Some attrs) leads sc = Some xs"
      by (rule schedule_results_eq)
    then show ?thesis ..
  qed
  then obtain xss where "all_some (map (schedule_results U name (Some attrs) leads) ss) = Some xss"
    using all_some_total [of ss "schedule_results U name (Some attrs) leads"] by blast
  then show "\<exists>r. local_evaluator U name ss attrs leads = Some r"
    by (simp add: local_evaluator_def local_evaluate_def)
next
  fix name ss attrs leads rs x
  assume "local_evaluator U name ss attrs leads = Some (Inr rs)" and x: "x \<in> set rs"
  then have "local_evaluate U name ss (Some attrs) leads = Some rs" by (simp add: local_evaluator_def)
  then show "cr_source x = name"
    using x by (rule result_origin) (auto dest: offers_source build_logic_entry_fields(1))
qed

end

interpretation canonical_evaluator: runtime_evaluator "local_evaluator std_uuid" rule_loaded
  by (rule canonical.local_evaluator_contract)

end
