(* ===== verification/Service_Machine.thy ===== *)
theory Service_Machine
  imports Serve_Invariant
begin

text \<open>
  The delivery service as a state machine. Its goroutines (the ticker loop, the subscriber,
  the HTTP handlers, the memory monitor) take turns; what the other goroutines and the world
  outside do between two turns is a step of its own. The invariant of the reachable states
  makes every operation return.
\<close>

section \<open>The steps\<close>

inductive service_step :: "('c, 'w) service_deps \<Rightarrow> ('c, 'w) service \<Rightarrow> ('c, 'w) service \<Rightarrow> bool"
  for E :: "('c, 'w) service_deps" where
  Warmup: "warmup_cache E s = Some s' \<Longrightarrow> service_step E s s'"
| Request: "get_personalized_content E customer cnl names s = Some (r, s') \<Longrightarrow> service_step E s s'"
| Flush: "flush_cache E names is_evaluate s = Some s' \<Longrightarrow> service_step E s s'"
| Ping: "apply_ping E ping s = Some s' \<Longrightarrow> service_step E s s'"
| Tick: "evaluate E [] s = Some s' \<Longrightarrow> service_step E s s'"
| Measure: "sv_mem s = Some m \<Longrightarrow>
    service_step E s (s\<lparr>sv_mem := Some (m\<lparr>mc_monitor := fst (monitor_tick inuse sys (mc_monitor m))\<rparr>)\<rparr>)"
| World: "service_step E s (s\<lparr>sv_world := w\<rparr>)"

inductive service_reachable :: "('c, 'w) service_deps \<Rightarrow> ('c, 'w) service \<Rightarrow> ('c, 'w) service \<Rightarrow> bool"
  for E :: "('c, 'w) service_deps" and s0 :: "('c, 'w) service" where
  Start: "service_reachable E s0 s0"
| Step: "service_reachable E s0 s \<Longrightarrow> service_step E s s' \<Longrightarrow> service_reachable E s0 s'"

text \<open>A service as ProvideService builds it, on the caches of ProvideCacheMemory.\<close>

definition initial :: "('c, 'w) service_deps \<Rightarrow> ('c, 'w) service \<Rightarrow> bool" where
  "initial E s =
     (sv_heap s = [] \<and> sv_metrics s = [] \<and>
      (\<exists>m. sv_mem s = Some m \<and> complete_cache m
        \<and> (\<forall>c. mc_schedules m = Some c \<longrightarrow> cache_all (co_schedules (sd_caches E)) (\<lambda>_ _. False) c)
        \<and> (\<forall>c. mc_rules m = Some c \<longrightarrow> cache_all (co_rules (sd_caches E)) (\<lambda>_ _. False) c)))"

lemma initial_good: "initial E s \<Longrightarrow> good R E s"
  by (auto simp: initial_def good_def mirror_ready_def cache_ready_def heap_within_def intro: cache_all_mono)

section \<open>Good states\<close>

lemma flush_placement_rules:
  assumes "mirror_laws (sd_caches E)" and "flush_placement E now h name m = Some m'"
    and "\<And>c. mc_rules m = Some c \<Longrightarrow> cache_all (co_rules (sd_caches E)) P c"
  shows "\<forall>c. mc_rules m' = Some c \<longrightarrow> cache_all (co_rules (sd_caches E)) P c"
proof -
  let ?Q = "\<lambda>m. \<forall>c. mc_rules m = Some c \<longrightarrow> cache_all (co_rules (sd_caches E)) P c"
  note del = go_cache_laws.cache_all_delete [OF rules_laws [OF assms(1)]]
  have one: "?Q m2" if "flush_schedule_rule E h p m1 = Some m2" "?Q m1" for p m1 m2
    using that del by (auto simp: flush_schedule_rule_def delete_rule_def bind_eq_Some_conv split: option.splits if_splits)
  have Q: "?Q m" using assms(3) by blast
  obtain c m1 where m1: "(case cm_get (co_schedules (sd_caches E)) now c (schedules_key name) of
      None \<Rightarrow> Some m | Some ps \<Rightarrow> fold_steps (flush_schedule_rule E h) ps m) = Some m1"
    and m': "mc_rules m' = mc_rules m1"
    using assms(2) by (auto simp: flush_placement_def bind_eq_Some_conv Let_def)
  have "?Q m1"
  proof (cases "cm_get (co_schedules (sd_caches E)) now c (schedules_key name)")
    case (Some ps)
    with m1 have "fold_steps (flush_schedule_rule E h) ps m = Some m1" by simp
    then show ?thesis using Q one by (rule fold_steps_within [where P = ?Q])
  qed (use m1 Q in simp)
  then show ?thesis by (simp add: m')
qed

lemma within_flush:
  assumes laws: "mirror_laws (sd_caches E)" and flush: "flush_cache E names False s = Some s'" and "heap_within R E s"
  shows "heap_within R E s'"
proof (cases "sv_mem s")
  case None
  with assms show ?thesis by (simp add: flush_cache_def)
next
  case (Some m)
  let ?Q = "\<lambda>m. \<forall>c. mc_rules m = Some c \<longrightarrow> cache_all (co_rules (sd_caches E)) (\<lambda>_. R) c"
  have Q: "?Q m" using assms(3) Some by (simp add: heap_within_def)
  obtain m' where m': "(if names = [] then clear_all E m
      else fold_steps (flush_placement E (now_ns E s) (sv_heap s)) names m) = Some m'" and s': "s' = s\<lparr>sv_mem := Some m'\<rparr>"
    using flush Some by (auto simp: flush_cache_def)
  have "?Q m'"
  proof (cases "names = []")
    case True
    with m' go_cache_laws.cache_all_clear [OF rules_laws [OF laws]] show ?thesis
      by (auto simp: clear_all_def bind_eq_Some_conv Let_def)
  next
    case False
    with m' have "fold_steps (flush_placement E (now_ns E s) (sv_heap s)) names m = Some m'" by simp
    then show ?thesis
      using Q by (rule fold_steps_within [where P = ?Q]) (blast dest: flush_placement_rules [OF laws])
  qed
  then show ?thesis using assms(3) by (simp add: heap_within_def s')
qed

lemma good_flush:
  assumes "mirror_laws (sd_caches E)" and "wired E" and "supplies R E" and "good R E s"
  shows "\<exists>s'. flush_cache E names is_evaluate s = Some s' \<and> good R E s'"
proof -
  obtain s1 where s1: "flush_cache E names False s = Some s1" "mirror_ready E s1"
    using keeps_readyE [OF flush_only_ready [OF assms(1)]] assms(4) unfolding good_def by metis
  with assms(4) have "good R E s1" by (auto simp: good_def intro: within_flush [OF assms(1)])
  with s1(1) good_evaluate [OF assms(1-3)] show ?thesis
    by (cases is_evaluate) (simp_all add: flush_cache_evaluate)
qed

lemma within_invalidate:
  assumes "mirror_laws (sd_caches E)" and "invalidate E ping s = Some s'" and "heap_within R E s"
  shows "heap_within R E s'"
  using assms(2,3) go_cache_laws.cache_all_delete [OF rules_laws [OF assms(1)]]
  by (auto simp: invalidate_def delete_rule_def heap_within_def bind_eq_Some_conv split: option.splits if_splits)

lemma good_ping:
  assumes "mirror_laws (sd_caches E)" and "wired E" and "supplies R E" and "good R E s"
  shows "\<exists>s'. apply_ping E ping s = Some s' \<and> good R E s'"
proof -
  have ready: "mirror_ready E s" using assms(4) by (simp add: good_def)
  obtain s1 where s1: "invalidate E ping s = Some s1" "mirror_ready E s1"
    by (rule invalidate_ready [OF assms(1) ready])
  with assms(4) have "good R E s1" by (auto simp: good_def intro: within_invalidate [OF assms(1)])
  with s1(1) good_evaluate [OF assms(1-3)] assms(4) show ?thesis
    by (simp add: apply_ping_def already_mirrored_view [OF ready])
qed

lemma good_measure:
  assumes "good R E s" and "sv_mem s = Some m"
  shows "good R E (s\<lparr>sv_mem := Some (m\<lparr>mc_monitor := mm\<rparr>)\<rparr>)"
  using assms by (simp add: good_def mirror_ready_def cache_ready_def complete_cache_def heap_within_def)

text \<open>Everything the invariant needs: the caches, the wiring, the database and the evaluator.\<close>

definition provided :: "(decision_rule \<Rightarrow> bool) \<Rightarrow> ('c, 'w) service_deps \<Rightarrow> bool" where
  "provided R E =
     (mirror_laws (sd_caches E) \<and> wired E \<and> supplies R E
      \<and> (\<exists>ev. sd_evaluator E = Some ev \<and> runtime_evaluator ev R))"

lemma request_good:
  assumes "provided R E" and "good R E s"
  obtains r s' where "get_personalized_content E customer cnl names s = Some (r, s')" and "good R E s'"
    and "\<And>xs x. r = Inr xs \<Longrightarrow> x \<in> set xs \<Longrightarrow> cr_source x \<in> set names"
  using assms runtime_evaluator.request_returns [of _ R E s customer cnl names] that
  unfolding provided_def by metis

lemma step_good:
  assumes "provided R E" and "good R E s" and "service_step E s s'"
  shows "good R E s'"
  using assms(3)
proof cases
  case Warmup
  then show ?thesis
    using assms(1,2) good_evaluate [of E R s "[]"] by (auto simp: provided_def warmup_cache_def split: if_splits)
next
  case (Request customer cnl names r)
  then show ?thesis using request_good [OF assms(1,2), of customer cnl names] by auto
next
  case (Flush names is_evaluate)
  then show ?thesis using assms(1,2) good_flush [of E R s names is_evaluate] by (auto simp: provided_def)
next
  case (Ping ping)
  then show ?thesis using assms(1,2) good_ping [of E R s ping] by (auto simp: provided_def)
next
  case Tick
  then show ?thesis using assms(1,2) good_evaluate [of E R s "[]"] by (auto simp: provided_def)
qed (use assms(2) good_measure in auto)

lemma reachable_good:
  assumes "provided R E" and "initial E s0" and "service_reachable E s0 s"
  shows "good R E s"
  using assms(3) by induction (auto intro: initial_good [OF assms(2)] step_good [OF assms(1)])

section \<open>The version gauge\<close>

text \<open>No operation ever removes the label of an old version.\<close>

lemma labels_check_mirror:
  assumes "mirror_laws (sd_caches E)" and "check_mirror E name s = Some (err, s')" and "labels_kept (sv_metrics s)"
  shows "labels_kept (sv_metrics s')"
  using assms(2,3) labels_evaluate [OF assms(1)]
  by (auto simp: check_mirror_def bind_eq_Some_conv split: option.splits if_splits)

lemma labels_gather:
  assumes "mirror_laws (sd_caches E)"
  shows "gather_schedules E names acc missed s = Some (r, s') \<Longrightarrow> labels_kept (sv_metrics s)
    \<Longrightarrow> labels_kept (sv_metrics s')"
proof (induction names arbitrary: acc missed s)
  case (Cons name names)
  from Cons.prems(1) obtain err s1 where s1: "check_mirror E name s = Some (err, s1)"
    and rest: "(case err of Some e \<Rightarrow> Some (Inl e, s1) | None \<Rightarrow>
        Option.bind (cached_schedules E name s1) (\<lambda>found. case found of
            None \<Rightarrow> gather_schedules E names acc (if name \<in> set missed then missed else missed @ [name]) s1
          | Some ps \<Rightarrow> gather_schedules E names (acc @ ps) missed s1)) = Some (r, s')"
    by (auto simp: bind_eq_Some_conv)
  have "labels_kept (sv_metrics s1)" by (rule labels_check_mirror [OF assms s1 Cons.prems(2)])
  then show ?case using rest Cons.IH
    by (auto simp: bind_eq_Some_conv split: option.splits)
qed simp

lemma labels_attach: "attach_cached_rules E ps missed s = Some (r, s') \<Longrightarrow> sv_metrics s' = sv_metrics s"
proof (induction ps arbitrary: missed s)
  case (Cons p ps)
  then show ?case by (fastforce simp: Let_def bind_eq_Some_conv set_heap_def split: if_splits option.splits)
qed simp

lemma labels_backfill:
  assumes "backfill_rules E ps missed s = Some s'"
  shows "sv_metrics s' = sv_metrics s"
proof -
  have one: "sv_metrics s2 = sv_metrics s" if "backfill_rule E rules p s1 = Some s2" "sv_metrics s1 = sv_metrics s"
    for rules p s1 s2
    using that by (auto simp: backfill_rule_def set_rule_def set_heap_def bind_eq_Some_conv split: option.splits)
  have fetch: "sv_metrics s1 = sv_metrics s" if "fetch_rules E ids s = Some (rs, s1)" for ids rs s1
    using that by (auto simp: fetch_rules_def bind_eq_Some_conv split_beta)
  show ?thesis
    using assms fetch
    by (auto simp: backfill_rules_def bind_eq_Some_conv split: if_splits
        dest: fold_steps_inv [where P = "\<lambda>s2. sv_metrics s2 = sv_metrics s", OF _ _ one])
qed

lemma labels_serve:
  assumes "serve_schedules E c cnl names ps s = Some (xs, s')"
  shows "sv_metrics s' = sv_metrics s"
proof -
  obtain missed s1 s2 where s1: "attach_cached_rules E ps [] s = Some (missed, s1)"
    and s2: "backfill_rules E ps missed s1 = Some s2"
    using assms by (auto simp: serve_schedules_def bind_eq_Some_conv)
  let ?rules = "unique_rules_from_filtered (sv_heap s2) (filter_servable (sv_heap s2) names ps)"
  let ?a = "resolve_user_attrs E (cu_type c) (customer_value c) ?rules s2"
  have "s' = snd (fetch_leads_for_request E c cnl names ?rules (snd ?a))"
    using assms by (auto simp: serve_schedules_def s1 s2 bind_eq_Some_conv Let_def split_beta)
  then have "sv_metrics s' = sv_metrics s2"
    using resolve_user_attrs_frame [of s2 E "cu_type c" "customer_value c" ?rules]
      fetch_leads_frame [of "snd ?a" E c cnl names ?rules]
    by (simp add: frame_def)
  then show ?thesis using labels_attach [OF s1] labels_backfill [OF s2] by simp
qed

lemma labels_request:
  assumes laws: "mirror_laws (sd_caches E)"
    and "get_personalized_content E customer cnl names s = Some (r, s')" and "labels_kept (sv_metrics s)"
  shows "labels_kept (sv_metrics s')"
proof (cases "\<exists>c. customer = Some c \<and> \<not> customer_is_empty c")
  case False
  with assms(2,3) show ?thesis by (auto simp: get_personalized_content_def split: option.splits)
next
  case True
  then obtain c where c: "customer = Some c" "\<not> customer_is_empty c" by blast
  with assms(2) obtain g s1 where g: "gather_schedules E names [] [] s = Some (g, s1)"
    by (auto simp: get_personalized_content_def bind_eq_Some_conv)
  have kept1: "labels_kept (sv_metrics s1)" by (rule labels_gather [OF laws g assms(3)])
  show ?thesis
  proof (cases g)
    case (Inl e)
    with c g assms(2) kept1 show ?thesis by (simp add: get_personalized_content_def)
  next
    case (Inr found)
    with c g assms(2) obtain qs s2 xs where retry: "retry_missed E (snd found) s1 = Some (qs, s2)"
      and serve: "serve_schedules E c cnl names (fst found @ qs) s2 = Some (xs, s')"
      by (auto simp: get_personalized_content_def bind_eq_Some_conv split_beta)
    have "labels_kept (sv_metrics s2)"
      using retry kept1 labels_evaluate [OF laws]
      by (auto simp: retry_missed_def bind_eq_Some_conv split: if_splits)
    then show ?thesis using labels_serve [OF serve] by simp
  qed
qed

lemma labels_step:
  assumes laws: "mirror_laws (sd_caches E)" and "service_step E s s'" and "labels_kept (sv_metrics s)"
  shows "labels_kept (sv_metrics s')"
  using assms(2)
proof cases
  case (Request customer cnl names r)
  then show ?thesis by (rule labels_request [OF laws _ assms(3)])
next
  case (Flush names is_evaluate)
  then obtain s1 where "flush_cache E names False s = Some s1" "s' = s1 \<or> evaluate E [] s1 = Some s'"
    by (cases is_evaluate) (auto simp: flush_cache_evaluate bind_eq_Some_conv)
  moreover have "sv_metrics s1 = sv_metrics s" if "flush_cache E names False s = Some s1" for s1
    using that by (auto simp: flush_cache_def bind_eq_Some_conv split: option.splits)
  ultimately show ?thesis using assms(3) labels_evaluate [OF laws] by auto
next
  case (Ping ping)
  have "sv_metrics s1 = sv_metrics s" if "invalidate E ping s = Some s1" for s1
    using that by (auto simp: invalidate_def bind_eq_Some_conv split: option.splits if_splits)
  with Ping assms(3) labels_evaluate [OF laws] show ?thesis
    by (auto simp: apply_ping_def bind_eq_Some_conv split: if_splits)
next
  case Warmup
  then show ?thesis using assms(3) labels_evaluate [OF laws] by (auto simp: warmup_cache_def split: if_splits)
qed (use assms(3) labels_evaluate [OF laws] in auto)

lemma reachable_labels:
  assumes "mirror_laws (sd_caches E)" and "initial E s0" and "service_reachable E s0 s"
  shows "labels_kept (sv_metrics s)"
  using assms(3)
proof induction
  case Start
  show ?case using assms(2) by (simp add: initial_def)
qed (rule labels_step [OF assms(1)])

end
