(* ===== verification/Content_Spec.thy ===== *)
theory Content_Spec
  imports Service_Machine
begin

text \<open>
  What GetPersonalizedContent serves from a mirror that is young and complete for the
  request: for each placement, in the order of the request, what the evaluator makes of the
  mirrored schedules with their rules; and that it fails when the mirror is too old and the
  database cannot be read.
\<close>

section \<open>Specification\<close>

text \<open>A schedule as it is evaluated: with its own rule, or with the mirrored one.\<close>

definition complete_schedule ::
  "('c, 'w) service_deps \<Rightarrow> mirror_view \<Rightarrow> schedule \<Rightarrow> schedule option" where
  "complete_schedule E v sc =
     (case sc_rule sc of
        Some _ \<Rightarrow> Some sc
      | None \<Rightarrow>
          if sc_rule_id sc = uuid_nil then None
          else map_option (\<lambda>r. sc\<lparr>sc_rule := Some r\<rparr>) (mv_rules v (rule_key E (sc_rule_id sc))))"

text \<open>The mirror can answer for a placement: young, listed, every schedule with its rule.\<close>

definition young :: "('c, 'w) service_deps \<Rightarrow> ('c, 'w) service \<Rightarrow> string \<Rightarrow> bool" where
  "young E s name =
     (case mv_syncs (view_of E s) name of None \<Rightarrow> True | Some sync \<Rightarrow> \<not> stale E sync s)"

definition can_serve :: "('c, 'w) service_deps \<Rightarrow> ('c, 'w) service \<Rightarrow> string \<Rightarrow> schedule list \<Rightarrow> bool" where
  "can_serve E s name ss =
     (young E s name
      \<and> (case mv_schedules (view_of E s) name of
           None \<Rightarrow> False
         | Some lean \<Rightarrow>
             map (complete_schedule E (view_of E s)) lean = map Some ss
             \<and> list_all (\<lambda>sc. \<exists>p. sc_placement sc = Some p \<and> pl_name p = name) lean))"

section \<open>Gathering\<close>

lemma last_sync_view: "mirror_ready E s \<Longrightarrow> last_sync E name s = mv_syncs (view_of E s) name"
  by (auto simp: last_sync_def view_of_def cache_view_def syncs_at_def mirror_ready_def)

lemma check_young: "mirror_ready E s \<Longrightarrow> young E s name \<Longrightarrow> check_mirror E name s = Some (None, s)"
  by (auto simp: check_mirror_def last_sync_view young_def split: option.splits)

lemma cached_view:
  assumes "mirror_ready E s"
  obtains r where "cached_schedules E name s = Some r"
    and "mv_schedules (view_of E s) name = map_option (map (deref (sv_heap s))) r"
    and "\<forall>ps. r = Some ps \<longrightarrow> list_all (\<lambda>p. p < length (sv_heap s)) ps"
proof -
  from assms obtain m c where m: "sv_mem s = Some m" "mc_schedules m = Some c"
    "cache_all (co_schedules (sd_caches E)) (cached_ok (sv_heap s)) c"
    by (auto simp: mirror_ready_def cache_ready_def complete_cache_def)
  show thesis
  proof (rule that)
    show "cached_schedules E name s =
        Some (cm_get (co_schedules (sd_caches E)) (now_ns E s) c (schedules_key name))"
      by (simp add: cached_schedules_def m)
    show "mv_schedules (view_of E s) name =
        map_option (map (deref (sv_heap s))) (cm_get (co_schedules (sd_caches E)) (now_ns E s) c (schedules_key name))"
      by (simp add: view_of_def cache_view_def m views_Some(1) [OF m(2)])
  qed (use cache_allD [OF m(3)] in \<open>auto simp: cached_ok_def\<close>)
qed

text \<open>The pointers of a placement.\<close>

definition pointers :: "('c, 'w) service_deps \<Rightarrow> ('c, 'w) service \<Rightarrow> string \<Rightarrow> sched_ptr list" where
  "pointers E s name = (case cached_schedules E name s of Some (Some ps) \<Rightarrow> ps | _ \<Rightarrow> [])"

lemma can_serve_pointers:
  assumes "mirror_ready E s" and "can_serve E s name ss"
  shows "cached_schedules E name s = Some (Some (pointers E s name))"
    and "list_all (\<lambda>p. p < length (sv_heap s)) (pointers E s name)"
    and "map (\<lambda>p. complete_schedule E (view_of E s) (deref (sv_heap s) p)) (pointers E s name) = map Some ss"
    and "p \<in> set (pointers E s name) \<Longrightarrow> \<exists>q. sc_placement (deref (sv_heap s) p) = Some q \<and> pl_name q = name"
proof -
  obtain r where r: "cached_schedules E name s = Some r"
    "mv_schedules (view_of E s) name = map_option (map (deref (sv_heap s))) r"
    "\<forall>ps. r = Some ps \<longrightarrow> list_all (\<lambda>p. p < length (sv_heap s)) ps"
    by (rule cached_view [OF assms(1), where name = name])
  with assms(2) obtain ps where ps: "r = Some ps" by (cases r) (auto simp: can_serve_def)
  then have pts: "pointers E s name = ps" by (simp add: pointers_def r)
  show "cached_schedules E name s = Some (Some (pointers E s name))" by (simp add: r ps pts)
  show "list_all (\<lambda>p. p < length (sv_heap s)) (pointers E s name)" using r(3) ps pts by simp
  show "map (\<lambda>p. complete_schedule E (view_of E s) (deref (sv_heap s) p)) (pointers E s name) = map Some ss"
    using assms(2) by (simp add: can_serve_def r ps pts comp_def)
  show "\<exists>q. sc_placement (deref (sv_heap s) p) = Some q \<and> pl_name q = name" if "p \<in> set (pointers E s name)"
    using that assms(2) by (auto simp: can_serve_def r ps pts list_all_iff)
qed

lemma gather_young:
  assumes "mirror_ready E s" and "\<And>name. name \<in> set names \<Longrightarrow> can_serve E s name (ss name)"
  shows "gather_schedules E names acc missed s =
    Some (Inr (acc @ concat (map (pointers E s) names), missed), s)"
  using assms(2)
proof (induction names arbitrary: acc)
  case (Cons name names)
  have serve: "can_serve E s name (ss name)" using Cons.prems by simp
  then have "check_mirror E name s = Some (None, s)"
    by (intro check_young [OF assms(1)]) (simp add: can_serve_def)
  with Cons can_serve_pointers(1) [OF assms(1) serve] show ?case by simp
qed simp

section \<open>Attaching the mirrored rules\<close>

lemma complete_schedule_Some: "sc_rule sc = Some r \<Longrightarrow> complete_schedule E v sc = Some sc"
  by (simp add: complete_schedule_def)

text \<open>The schedule is only changed in its rule.\<close>

lemma complete_schedule_fields:
  assumes "complete_schedule E v sc = Some sc'"
  shows "sc_rule sc' \<noteq> None" and "sc_placement sc' = sc_placement sc" and "bm_id sc' = bm_id sc"
  using assms by (auto simp: complete_schedule_def split: option.splits if_splits)

lemma attach_available:
  assumes mem: "sv_mem s = Some m" and rules: "mc_rules m = Some c"
    and view: "cm_get (co_rules (sd_caches E)) (now_ns E s) c = mv_rules v"
    and "\<And>p. p \<in> set ps \<Longrightarrow> p < length (sv_heap s) \<and> complete_schedule E v (deref (sv_heap s) p) \<noteq> None"
  shows "\<exists>h. attach_cached_rules E ps missed s = Some (missed, s\<lparr>sv_heap := h\<rparr>)
    \<and> length h = length (sv_heap s)
    \<and> (\<forall>q. deref h q = (if q \<in> set ps then the (complete_schedule E v (deref (sv_heap s) q)) else deref (sv_heap s) q))"
  using assms
proof (induction ps arbitrary: s)
  case Nil
  then show ?case by (intro exI [of _ "sv_heap s"]) (cases s, simp)
next
  case (Cons p ps)
  let ?sc = "deref (sv_heap s) p"
  have p: "p < length (sv_heap s)" "complete_schedule E v ?sc \<noteq> None" using Cons.prems(4) [of p] by auto
  show ?case
  proof (cases "sc_rule ?sc")
    case (Some r)
    then have step: "attach_cached_rules E (p # ps) missed s = attach_cached_rules E ps missed s" by simp
    have same: "the (complete_schedule E v ?sc) = ?sc" by (simp add: complete_schedule_Some [OF Some])
    obtain h where "attach_cached_rules E ps missed s = Some (missed, s\<lparr>sv_heap := h\<rparr>)" "length h = length (sv_heap s)"
      "\<forall>q. deref h q = (if q \<in> set ps then the (complete_schedule E v (deref (sv_heap s) q)) else deref (sv_heap s) q)"
      using Cons.IH [OF Cons.prems(1-3)] Cons.prems(4) by auto
    with same show ?thesis unfolding step by (intro exI [of _ h]) auto
  next
    case None
    then obtain r where id: "sc_rule_id ?sc \<noteq> uuid_nil" and r: "mv_rules v (rule_key E (sc_rule_id ?sc)) = Some r"
      using p(2) by (auto simp: complete_schedule_def split: if_splits)
    define h1 where "h1 = attach_rule p r (sv_heap s)"
    have h1: "length h1 = length (sv_heap s)"
      "deref h1 q = (if q = p then the (complete_schedule E v ?sc) else deref (sv_heap s) q)" for q
      using p(1) None id r by (auto simp: h1_def deref_attach_rule complete_schedule_def)
    have step: "attach_cached_rules E (p # ps) missed s = attach_cached_rules E ps missed (s\<lparr>sv_heap := h1\<rparr>)"
      using None id r by (simp add: Cons.prems(1-3) set_heap_def h1_def)
    have idem: "complete_schedule E v (the (complete_schedule E v ?sc)) = complete_schedule E v ?sc"
      using None id r by (simp add: complete_schedule_def)
    obtain h where h: "attach_cached_rules E ps missed (s\<lparr>sv_heap := h1\<rparr>) = Some (missed, s\<lparr>sv_heap := h\<rparr>)"
      "length h = length h1"
      "\<forall>q. deref h q = (if q \<in> set ps then the (complete_schedule E v (deref h1 q)) else deref h1 q)"
    proof -
      have "p' < length h1 \<and> complete_schedule E v (deref h1 p') \<noteq> None" if "p' \<in> set ps" for p'
        using that Cons.prems(4) [of p'] p idem by (simp add: h1)
      then show ?thesis
        using Cons.IH [of "s\<lparr>sv_heap := h1\<rparr>"] Cons.prems(1-3) that by (auto simp: now_ns_def now_of_def)
    qed
    then show ?thesis unfolding step h1 using idem by (intro exI [of _ h]) auto
  qed
qed

section \<open>Serving\<close>

lemma filter_blocks:
  assumes "distinct ns" and "\<And>n p. n \<in> set ns \<Longrightarrow> p \<in> set (f n) \<Longrightarrow> key p = n" and "n \<in> set ns"
  shows "filter (\<lambda>p. key p = n) (concat (map f ns)) = f n"
  using assms
proof (induction ns)
  case (Cons k ns)
  have other: "filter (\<lambda>p. key p = n) (f k) = []" if "k \<noteq> n" for n
    using Cons.prems(2) [of k] that by (auto simp: filter_empty_conv)
  have none: "filter (\<lambda>p. key p = k) (concat (map f ns)) = []"
    using Cons.prems(1,2) by (fastforce simp: filter_empty_conv)
  have own: "filter (\<lambda>p. key p = k) (f k) = f k"
    using Cons.prems(2) [of k] by (simp add: filter_id_conv)
  show ?case
  proof (cases "k = n")
    case True
    then show ?thesis using none own by simp
  next
    case False
    have "filter (\<lambda>p. key p = n) (concat (map f ns)) = f n"
      by (rule Cons.IH) (use Cons.prems False in auto)
    with False other [of n] show ?thesis by simp
  qed
qed simp

text \<open>The rules of what is served, one for each id.\<close>

definition rules_of :: "schedule list \<Rightarrow> decision_rule set" where
  "rules_of ss = {r. \<exists>sc \<in> set ss. sc_rule sc = Some r}"

definition covers :: "decision_rule list \<Rightarrow> decision_rule set \<Rightarrow> bool" where
  "covers rules R = (set rules \<subseteq> R \<and> bm_id ` set rules = bm_id ` R \<and> distinct (map bm_id rules))"

lemma covers_filtered:
  assumes "\<And>p. p \<in> set ps \<Longrightarrow> servable names (deref h p)"
  shows "covers (unique_rules_from_filtered h (filter_servable h names ps)) (rules_of (map (deref h) ps))"
proof -
  let ?filtered = "filter_servable h names ps"
  let ?rs = "concat (map (\<lambda>p. case sc_rule (deref h p) of None \<Rightarrow> [] | Some r \<Rightarrow> [r]) (concat (map snd ?filtered)))"
  have "filter (\<lambda>p. servable names (deref h p)) ps = ps" using assms by (simp add: filter_id_conv)
  then have group: "?filtered = group_by (\<lambda>p. placement_name_of (deref h p)) ps"
    by (simp add: filter_servable_def)
  have "set (concat (map snd ?filtered)) = set ps"
  proof
    show "set (concat (map snd ?filtered)) \<subseteq> set ps" by (auto simp: group set_group_by)
    show "set ps \<subseteq> set (concat (map snd ?filtered))"
    proof
      fix p assume "p \<in> set ps"
      then have "(placement_name_of (deref h p),
          filter (\<lambda>q. placement_name_of (deref h q) = placement_name_of (deref h p)) ps) \<in> set ?filtered"
        by (auto simp: group set_group_by)
      with \<open>p \<in> set ps\<close> show "p \<in> set (concat (map snd ?filtered))" by force
    qed
  qed
  then have "set ?rs = rules_of (map (deref h) ps)"
    by (auto simp: rules_of_def split: option.splits)
  then show ?thesis
    using dedup_by_subset [of bm_id ?rs] dedup_by_keys [of bm_id ?rs] dedup_by_distinct [of bm_id ?rs]
    by (simp add: covers_def unique_rules_from_filtered_def)
qed

lemma complete_servable:
  "complete_schedule E v sc = Some sc' \<Longrightarrow> sc_placement sc = Some p \<Longrightarrow> pl_name p \<in> set names \<Longrightarrow> servable names sc'"
  using complete_schedule_fields(1,2) [of E v sc sc'] by (simp add: servable_def)

lemma serve_complete:
  assumes ready: "mirror_ready E s" and dist: "distinct names"
    and serve: "\<And>name. name \<in> set names \<Longrightarrow> can_serve E s name (ss name)"
  obtains h rules where "attach_cached_rules E (concat (map (pointers E s) names)) [] s = Some ([], s\<lparr>sv_heap := h\<rparr>)"
    and "unique_rules_from_filtered h (filter_servable h names (concat (map (pointers E s) names))) = rules"
    and "covers rules (rules_of (concat (map ss names)))"
    and "\<forall>name \<in> set names. map (deref h)
      (gm_slice (filter_servable h names (concat (map (pointers E s) names))) name) = ss name"
proof -
  let ?v = "view_of E s" and ?ps = "concat (map (pointers E s) names)" and ?old = "deref (sv_heap s)"
  from ready obtain m c where m: "sv_mem s = Some m" "mc_rules m = Some c"
    by (auto simp: mirror_ready_def cache_ready_def complete_cache_def)
  have view: "cm_get (co_rules (sd_caches E)) (now_ns E s) c = mv_rules ?v"
    by (simp add: view_of_def cache_view_def m views_Some(2) [OF m(2)])
  note pts = can_serve_pointers [OF ready serve]
  have pointer: "p < length (sv_heap s) \<and> (\<exists>sc. complete_schedule E ?v (?old p) = Some sc)
      \<and> (\<exists>q. sc_placement (?old p) = Some q \<and> pl_name q = name)"
    if name: "name \<in> set names" and p: "p \<in> set (pointers E s name)" for name p
  proof -
    have "complete_schedule E ?v (?old p) \<in> Some ` set (ss name)"
      using pts(3) [OF name] p by (metis (no_types) image_eqI list.set_map)
    then show ?thesis using pts(2,4) [OF name] p by (auto simp: list_all_iff)
  qed
  obtain h where attach: "attach_cached_rules E ?ps [] s = Some ([], s\<lparr>sv_heap := h\<rparr>)"
    and h: "\<forall>q. deref h q = (if q \<in> set ?ps then the (complete_schedule E ?v (?old q)) else ?old q)"
    using attach_available [OF m view, of ?ps "[]"] pointer by fastforce
  have new: "map (deref h) (pointers E s name) = ss name" if name: "name \<in> set names" for name
  proof -
    have "map (deref h) (pointers E s name) = map the (map (\<lambda>p. complete_schedule E ?v (?old p)) (pointers E s name))"
      using h name by auto
    then show ?thesis by (simp only: pts(3) [OF name]) (simp add: comp_def)
  qed
  have good: "servable names (deref h p) \<and> placement_name_of (deref h p) = name"
    if name: "name \<in> set names" and p: "p \<in> set (pointers E s name)" for name p
  proof -
    obtain sc q where sc: "complete_schedule E ?v (?old p) = Some sc" "sc_placement (?old p) = Some q" "pl_name q = name"
      using pointer [OF name p] by blast
    moreover have "deref h p = sc" using h name p sc(1) by auto
    ultimately show ?thesis
      using name complete_servable [OF sc(1,2)] complete_schedule_fields(2) [OF sc(1)]
      by (simp add: placement_name_of_def)
  qed
  have all: "filter (\<lambda>p. servable names (deref h p)) ?ps = ?ps" using good by (auto simp: filter_id_conv)
  have slice: "gm_slice (filter_servable h names ?ps) name = pointers E s name" if "name \<in> set names" for name
    unfolding filter_servable_def all gm_slice_group_by
    by (rule filter_blocks [OF dist _ that]) (use good in blast)
  have "map (deref h) ?ps = concat (map ss names)"
    unfolding map_concat by (rule arg_cong [where f = concat]) (simp add: new)
  then have "covers (unique_rules_from_filtered h (filter_servable h names ?ps)) (rules_of (concat (map ss names)))"
    using covers_filtered [of ?ps names h] good by auto
  with that [OF attach refl] slice new show thesis by simp
qed

text \<open>
  The answer: the attributes are resolved and the leads fetched for the rules served, once,
  and every placement is evaluated on its own schedules.
\<close>

lemma request_content:
  assumes ready: "mirror_ready E s" and dist: "distinct names"
    and serve: "\<And>name. name \<in> set names \<Longrightarrow> can_serve E s name (ss name)"
    and customer: "\<not> customer_is_empty c"
  obtains h rules attrs s1 leads s2 where "covers rules (rules_of (concat (map ss names)))"
    and "resolve_user_attrs E (cu_type c) (customer_value c) rules (s\<lparr>sv_heap := h\<rparr>) = (attrs, s1)"
    and "fetch_leads_for_request E c cnl names rules s1 = (leads, s2)"
    and "get_personalized_content E (Some c) cnl names s =
      map_option (\<lambda>xss. (Inr (concat xss), s2))
        (all_some (map (\<lambda>name. evaluate_placement E name (ss name) (gm_get attrs) leads) names))"
proof -
  let ?ps = "concat (map (pointers E s) names)"
  obtain h rules where h: "attach_cached_rules E ?ps [] s = Some ([], s\<lparr>sv_heap := h\<rparr>)"
    "unique_rules_from_filtered h (filter_servable h names ?ps) = rules"
    "covers rules (rules_of (concat (map ss names)))"
    "\<forall>name \<in> set names. map (deref h) (gm_slice (filter_servable h names ?ps) name) = ss name"
    by (rule serve_complete [OF ready dist serve])
  obtain attrs s1 where s1: "resolve_user_attrs E (cu_type c) (customer_value c) rules (s\<lparr>sv_heap := h\<rparr>) = (attrs, s1)"
    by fastforce
  obtain leads s2 where s2: "fetch_leads_for_request E c cnl names rules s1 = (leads, s2)" by fastforce
  have heap: "sv_heap s2 = h"
    using resolve_user_attrs_frame [of "s\<lparr>sv_heap := h\<rparr>" E "cu_type c" "customer_value c" rules]
      fetch_leads_frame [of s1 E c cnl names rules]
    by (simp add: s1 s2 frame_def)
  have evals: "evaluate_placements E h (filter_servable h names ?ps) (gm_get attrs) leads names =
      map_option concat (all_some (map (\<lambda>name. evaluate_placement E name (ss name) (gm_get attrs) leads) names))"
    unfolding evaluate_placements_def using h(4)
    by (intro arg_cong [where f = "map_option concat"] arg_cong [where f = all_some]) simp
  have "get_personalized_content E (Some c) cnl names s =
      map_option (\<lambda>xss. (Inr (concat xss), s2))
        (all_some (map (\<lambda>name. evaluate_placement E name (ss name) (gm_get attrs) leads) names))"
    using customer
    by (simp add: get_personalized_content_def gather_young [OF ready serve] retry_missed_def serve_schedules_def
        h(1,2) backfill_rules_def s1 s2 heap evals)
      (simp add: map_option_case comp_def split: option.split)
  then show thesis using that h(3) s1 s2 by blast
qed

section \<open>What LocalEvaluator offers\<close>

text \<open>The offers of a schedule for a placement, given the customer's attributes and leads.\<close>

definition offered ::
  "uuid_ops \<Rightarrow> string \<Rightarrow> attrs \<Rightarrow> lead list \<Rightarrow> schedule \<Rightarrow> content_result \<Rightarrow> bool" where
  "offered U name P leads sc x =
     (\<exists>r vals e. sc_rule sc = Some r \<and> vals \<in> entry_values U r
        \<and> build_logic_entry U r sc (dr_score r) name vals = Some e
        \<and> rule_passes U (dr_conditions r) vals P
        \<and> x \<in> set (offers (dr_type r = type_sales_target) name leads e))"

context uuid_laws
begin

lemma local_evaluate_offered:
  assumes "list_all (rules_within rule_loaded) ss"
  shows "\<exists>xs. local_evaluator U name ss attrs leads = Some (Inr xs)
    \<and> (\<forall>x. x \<in> set xs \<longleftrightarrow> (\<exists>sc \<in> set ss. offered U name (Some attrs) leads sc x))"
proof -
  let ?f = "schedule_results U name (Some attrs) leads"
  have one: "\<exists>xs. ?f sc = Some xs \<and> (\<forall>x. x \<in> set xs \<longleftrightarrow> offered U name (Some attrs) leads sc x)"
    if sc: "sc \<in> set ss" for sc
  proof -
    have loaded: "rule_loaded r" if "sc_rule sc = Some r" for r
      using assms sc that by (auto simp: list_all_iff rules_within_def)
    show ?thesis
      using schedule_results_eq [of sc name "Some attrs" leads, OF loaded] unfolding offered_def by metis
  qed
  then obtain xss where xss: "all_some (map ?f ss) = Some xss" using all_some_total [of ss ?f] by blast
  have "x \<in> set (concat xss) \<longleftrightarrow> (\<exists>sc \<in> set ss. offered U name (Some attrs) leads sc x)" for x
    unfolding set_concat_all_some [OF xss] using one by (metis option.inject)
  with xss show ?thesis by (simp add: local_evaluator_def local_evaluate_def)
qed

lemma request_offers:
  assumes ready: "mirror_ready E s" and dist: "distinct names"
    and serve: "\<And>name. name \<in> set names \<Longrightarrow> can_serve E s name (ss name)"
    and customer: "\<not> customer_is_empty c"
    and ev: "sd_evaluator E = Some (local_evaluator U)" and repo: "sd_occurrences E \<noteq> None"
    and loaded: "\<And>name. name \<in> set names \<Longrightarrow> list_all (rules_within rule_loaded) (ss name)"
  obtains h rules attrs s1 leads s2 xs where "covers rules (rules_of (concat (map ss names)))"
    and "resolve_user_attrs E (cu_type c) (customer_value c) rules (s\<lparr>sv_heap := h\<rparr>) = (attrs, s1)"
    and "fetch_leads_for_request E c cnl names rules s1 = (leads, s2)"
    and "get_personalized_content E (Some c) cnl names s = Some (Inr xs, s2)"
    and "\<forall>x. x \<in> set xs \<longleftrightarrow> (\<exists>name \<in> set names. \<exists>sc \<in> set (ss name).
      offered U name (Some (gm_get attrs)) leads sc x)"
proof -
  obtain h rules attrs s1 leads s2 where res: "covers rules (rules_of (concat (map ss names)))"
    "resolve_user_attrs E (cu_type c) (customer_value c) rules (s\<lparr>sv_heap := h\<rparr>) = (attrs, s1)"
    "fetch_leads_for_request E c cnl names rules s1 = (leads, s2)"
    and content: "get_personalized_content E (Some c) cnl names s =
      map_option (\<lambda>xss. (Inr (concat xss), s2))
        (all_some (map (\<lambda>name. evaluate_placement E name (ss name) (gm_get attrs) leads) names))"
    by (rule request_content [OF ready dist serve customer])
  let ?f = "\<lambda>name. evaluate_placement E name (ss name) (gm_get attrs) leads"
  have one: "\<exists>xs. ?f name = Some xs \<and> (\<forall>x. x \<in> set xs \<longleftrightarrow>
      (\<exists>sc \<in> set (ss name). offered U name (Some (gm_get attrs)) leads sc x))" if "name \<in> set names" for name
    using local_evaluate_offered [OF loaded [OF that], of name "gm_get attrs" leads] repo
    by (auto simp: evaluate_placement_def ev)
  then obtain xss where xss: "all_some (map ?f names) = Some xss" using all_some_total [of names ?f] by blast
  have "\<forall>x. x \<in> set (concat xss) \<longleftrightarrow> (\<exists>name \<in> set names. \<exists>sc \<in> set (ss name).
      offered U name (Some (gm_get attrs)) leads sc x)"
    unfolding set_concat_all_some [OF xss] using one by (metis option.inject)
  then show thesis using that res content xss by simp
qed

end

section \<open>A mirror that is too old\<close>

text \<open>
  The database cannot be read: the synchronisation times stay, the clock has not gone back,
  and the request fails at the first stale placement.
\<close>

lemma request_stale:
  assumes laws: "mirror_laws (sd_caches E)" and ready: "mirror_ready E s" and customer: "\<not> customer_is_empty c"
    and old: "last_sync E name s = Some sync" "stale E sync s"
    and repo: "sd_occurrences E = Some repo"
    and listing: "or_list_active_at repo (sv_world s) (now_of E s) = (Inl e, w)"
    and clock: "tm_ns (sd_now E w) \<ge> now_ns E s"
  shows "get_personalized_content E (Some c) cnl (name # names) s =
    Some (Inl (Stale_Mirror name), s\<lparr>sv_world := w\<rparr>)"
proof -
  let ?s = "s\<lparr>sv_world := w\<rparr>"
  have later: "stale E t ?s" if "stale E t s" for t
    using that clock by (auto simp: stale_def staleness_threshold_def now_ns_def now_of_def)
  have eval: "evaluate E [] s = Some ?s" by (rule evaluate_list_error [OF repo]) (simp add: listing)
  have "last_sync E name ?s = None \<or> last_sync E name ?s = Some sync"
  proof -
    obtain m tc where m: "sv_mem s = Some m" "mc_syncs m = Some tc"
      "cm_get (co_syncs (sd_caches E)) (now_ns E s) tc name = Some sync"
      using old(1) by (auto simp: last_sync_def bind_eq_Some_conv)
    have "go_cache_laws (co_syncs (sd_caches E))" using laws by (simp add: mirror_laws_def)
    then show ?thesis
      using go_cache_laws.get_later [of "co_syncs (sd_caches E)" "now_ns E s" "now_ns E ?s" tc name] m clock
      by (simp add: last_sync_def cm_get_def now_ns_def now_of_def)
  qed
  with old have "check_mirror E name s = Some (Some (Stale_Mirror name), ?s)"
    by (auto simp: check_mirror_def eval later)
  then show ?thesis using customer by (simp add: get_personalized_content_def)
qed

end
