(* ===== verification/Json_Round_Trip.thy ===== *)
theory Json_Round_Trip
  imports Go_Json
begin

text \<open>
  Reading back what the encoder writes: string literals and objects of string members, for
  ASCII text.
\<close>

lemma hex_digit_back:
  assumes "n < 16"
  shows "is_hex_digit (hex_digit n)" and "hex_val (hex_digit n) = n"
proof -
  have "n \<in> {0, 1, 2, 3, 4, 5, 6, 7, 8, 9, 10, 11, 12, 13, 14, 15}"
    unfolding insert_iff empty_iff using assms by presburger
  then show "is_hex_digit (hex_digit n)" "hex_val (hex_digit n) = n"
    by (auto simp: hex_digit_def is_hex_digit_def hex_val_def is_digit_def is_hex_letter_def lower_byte_def digit_val_def)
qed

lemma zero_digit: "is_hex_digit (CHR ''0'')" "hex_val (CHR ''0'') = 0"
  by (simp_all add: is_hex_digit_def is_digit_def hex_val_def digit_val_def)

lemma encode_ascii: "byte c < 128 \<Longrightarrow> encode_rune (byte c) = [c]"
  by (simp add: encode_rune_def)

lemma unquote_u00:
  assumes "byte c < 128"
  shows "unquote (u00 (byte c) @ r) = prepend [c] (unquote r)"
proof -
  have "u_escape (CHR ''0'' # CHR ''0'' # hex_digit (byte c div 16) # hex_digit (byte c mod 16) # r) = Some (byte c)"
    using assms by (simp add: u_escape_def zero_digit hex_digit_back hex4_val_def)
  moreover have "\<not> is_high_surrogate (byte c)" using assms by (simp add: is_high_surrogate_def)
  ultimately show ?thesis
    by (simp add: u00_def unquote.simps(2) simple_escape_def encode_ascii [OF assms])
qed

lemma unquote_quote_ascii:
  assumes "byte c < 128"
  shows "unquote (quote_ascii c @ r) = prepend [c] (unquote r)"
proof -
  have "c \<in> {CHR 0x22, CHR 0x5C, CHR 0x08, CHR 0x0C, CHR 0x0A, CHR 0x0D, CHR 0x09}
      \<or> quote_ascii c = u00 (byte c)
      \<or> quote_ascii c = [c] \<and> c \<noteq> CHR 0x22 \<and> c \<noteq> CHR 0x5C \<and> \<not> byte c < 32"
    by (cases "byte c < 32 \<or> html_special c") (simp_all add: quote_ascii_def)
  then consider (esc) "c \<in> {CHR 0x22, CHR 0x5C, CHR 0x08, CHR 0x0C, CHR 0x0A, CHR 0x0D, CHR 0x09}"
    | (u00) "quote_ascii c = u00 (byte c)"
    | (plain) "quote_ascii c = [c]" "c \<noteq> CHR 0x22" "c \<noteq> CHR 0x5C" "\<not> byte c < 32"
    by blast
  then show ?thesis
  proof cases
    case esc
    then show ?thesis by (auto simp: quote_ascii_def unquote.simps(2) simple_escape_def)
  next
    case u00
    then show ?thesis by (simp add: unquote_u00 [OF assms])
  next
    case plain
    with assms show ?thesis by (simp add: unquote.simps(2))
  qed
qed

lemma unquote_quote_body:
  "is_ascii s \<Longrightarrow> unquote (quote_body s @ CHR 0x22 # r) = Some (s, r)"
proof (induction s)
  case Nil
  show ?case by (simp add: unquote.simps(2))
next
  case (Cons c s)
  then show ?case by (simp add: quote_body.simps(2) unquote_quote_ascii)
qed

lemma skip_ws_nonblank [simp]:
  "skip_ws (CHR 0x22 # r) = CHR 0x22 # r" "skip_ws (CHR '','' # r) = CHR '','' # r"
  "skip_ws (CHR '':'' # r) = CHR '':'' # r" "skip_ws (CHR 0x7D # r) = CHR 0x7D # r"
  "skip_ws (CHR 0x7B # r) = CHR 0x7B # r" "skip_ws [] = []"
  by (simp_all add: skip_ws_def is_ws_def)

lemma parse_value_quote: "is_ascii v \<Longrightarrow> parse_value d (quote v @ r) = Some (JStr v, r)"
  by (simp add: parse_value.simps quote_def unquote_quote_body)

lemma raw_text_append [simp]: "raw_text (s @ r) r = s"
  by (simp add: raw_text_def)

lemma raw_text_quote [simp]: "raw_text (CHR 0x22 # quote_body v @ CHR 0x22 # r) r = quote v"
  using raw_text_append [of "quote v" r] by (simp add: quote_def)

lemma parse_value_quote': "is_ascii v \<Longrightarrow> parse_value d (CHR 0x22 # quote_body v @ CHR 0x22 # r) = Some (JStr v, r)"
  using parse_value_quote [of v d r] by (simp add: quote_def)

lemma parse_member_last:
  assumes "is_ascii k" and "is_ascii v"
  shows "parse_members d (key_colon k (quote v) @ CHR 0x7D # r) = Some ([(k, quote v, JStr v)], r)"
  using assms
  by (simp add: parse_members.simps key_colon_def quote_def unquote_quote_body parse_value_quote')

lemma parse_member_next:
  assumes "is_ascii k" and "is_ascii v"
  shows "parse_members d (key_colon k (quote v) @ CHR '','' # CHR 0x22 # r) =
    map_option (\<lambda>(ms, r'). ((k, quote v, JStr v) # ms, r')) (parse_members d (CHR 0x22 # r))"
  using assms
  by (subst parse_members.simps)
    (simp add: key_colon_def quote_def unquote_quote_body parse_value_quote')

text \<open>An object of string members, as the encoder of a struct writes it.\<close>

definition string_members :: "(string \<times> string) list \<Rightarrow> string" where
  "string_members kvs = join '','' (map (\<lambda>(k, v). key_colon k (quote v)) kvs)"

lemma key_colon_open: "\<exists>t. key_colon k v = CHR 0x22 # t"
  by (simp add: key_colon_def quote_def)

lemma parse_string_members:
  assumes "kvs \<noteq> []" and "\<forall>(k, v) \<in> set kvs. is_ascii k \<and> is_ascii v"
  shows "parse_members d (string_members kvs @ CHR 0x7D # r) =
    Some (map (\<lambda>(k, v). (k, quote v, JStr v)) kvs, r)"
  using assms
proof (induction kvs rule: list_nonempty_induct)
  case (single kv)
  then show ?case by (auto simp: string_members_def parse_member_last)
next
  case (cons kv kvs)
  obtain k v where kv: "kv = (k, v)" by fastforce
  obtain kv' kvs' where kvs: "kvs = kv' # kvs'" using cons.hyps by (cases kvs) auto
  have join: "string_members ((k, v) # kvs) = key_colon k (quote v) @ CHR '','' # string_members kvs"
    by (simp add: string_members_def kvs)
  obtain t where t: "string_members kvs = CHR 0x22 # t"
    using key_colon_open [of "fst kv'" "quote (snd kv')"]
    by (cases kvs') (auto simp: string_members_def kvs split_beta)
  have "parse_members d (CHR 0x22 # t @ CHR 0x7D # r) = Some (map (\<lambda>(k, v). (k, quote v, JStr v)) kvs, r)"
    using cons.IH cons.prems by (simp add: t)
  then show ?case
    using cons.prems by (simp add: kv join t parse_member_next)
qed

lemma parse_string_object:
  assumes "kvs \<noteq> []" and "\<forall>(k, v) \<in> set kvs. is_ascii k \<and> is_ascii v"
  shows "json_parse (CHR 0x7B # string_members kvs @ [CHR 0x7D]) =
    Some (JObj (map (\<lambda>(k, v). (k, quote v, JStr v)) kvs))"
proof -
  obtain t where t: "string_members kvs = CHR 0x22 # t"
    using assms(1) key_colon_open
    by (cases kvs rule: remdups_adj.cases) (auto simp: string_members_def split_beta, (metis append_Cons)+)
  have "parse_members (Suc 0) (CHR 0x22 # t @ [CHR 0x7D]) = Some (map (\<lambda>(k, v). (k, quote v, JStr v)) kvs, [])"
    using parse_string_members [OF assms, of "Suc 0" "[]"] by (simp add: t)
  then show ?thesis
    by (simp add: json_parse_def parse_value.simps t max_nesting_def)
qed

end
