(* ===== verification/Service_Lifecycle.thy ===== *)
theory Service_Lifecycle
  imports Prelude
begin

text \<open>
  Start and Stop of CMSDeliveryService (src/cmd/server/service/cms_delivery_service.go) and
  the two goroutines they control, runLoop and subscribeToUpdates, as far as their life is
  concerned: the fields of the service behind the mutex, the channels they close and the
  contexts they cancel. What holds the mutex is one step; fields that are read outside it
  (s.done in Stop and runLoop, s.subDone and s.subCtx in the subscriber) are read in steps
  of their own. Channels and contexts are numbers; closing a closed or nil channel panics.
\<close>

section \<open>State\<close>

datatype loop_state =
    Loop_Spawned nat          \<comment> \<open>go s.runLoop(ctx), not yet running\<close>
  | Loop_Running nat nat      \<comment> \<open>its context, and the channel its defer closes\<close>
  | Loop_Ended

datatype sub_state =
    Sub_Spawned nat           \<comment> \<open>go s.subscribeToUpdates(ctx)\<close>
  | Sub_Set                   \<comment> \<open>past the mutex, before its defer\<close>
  | Sub_Running nat           \<comment> \<open>the channel its defer closes\<close>
  | Sub_Ended

datatype stop_state =
    Stop_Unlocked             \<comment> \<open>past the mutex\<close>
  | Stop_Waiting nat          \<comment> \<open>receiving from the s.done it read\<close>
  | Stop_Waiting_Sub nat      \<comment> \<open>receiving from s.subDone\<close>
  | Stop_Returned

record lifecycle =
  lf_running :: bool
  lf_stop_ch :: "nat option"
  lf_done_ch :: nat
  lf_bg :: "nat option"            \<comment> \<open>the context bgCancel cancels\<close>
  lf_sub_ctx :: "(nat \<times> nat) option" \<comment> \<open>subCtx and its parent\<close>
  lf_sub_done :: "nat option"
  lf_closed :: "nat list"
  lf_cancelled :: "nat list"
  lf_fresh :: nat
  lf_loops :: "loop_state list"
  lf_subs :: "sub_state list"
  lf_stops :: "stop_state list"

text \<open>NewCMSDeliveryService makes the first done channel.\<close>

definition new_lifecycle :: lifecycle where
  "new_lifecycle =
     \<lparr>lf_running = False, lf_stop_ch = None, lf_done_ch = 0, lf_bg = None, lf_sub_ctx = None,
      lf_sub_done = None, lf_closed = [], lf_cancelled = [], lf_fresh = 1,
      lf_loops = [], lf_subs = [], lf_stops = []\<rparr>"

section \<open>Operations\<close>

definition close_channel :: "nat \<Rightarrow> lifecycle \<Rightarrow> lifecycle option" where
  "close_channel k s = (if k \<in> set (lf_closed s) then None else Some (s\<lparr>lf_closed := k # lf_closed s\<rparr>))"

definition cancel_context :: "nat option \<Rightarrow> lifecycle \<Rightarrow> lifecycle" where
  "cancel_context k s = (case k of None \<Rightarrow> s | Some c \<Rightarrow> s\<lparr>lf_cancelled := c # lf_cancelled s\<rparr>)"

definition context_done :: "lifecycle \<Rightarrow> nat \<times> nat \<Rightarrow> bool" where
  "context_done s c = (fst c \<in> set (lf_cancelled s) \<or> snd c \<in> set (lf_cancelled s))"

text \<open>Start, for a positive tick interval or none.\<close>

definition start_service :: "bool \<Rightarrow> lifecycle \<Rightarrow> lifecycle" where
  "start_service ticking s =
     (if \<not> ticking \<or> lf_running s then s
      else
        (let n = lf_fresh s in
         s\<lparr>lf_running := True, lf_stop_ch := Some n, lf_done_ch := n + 1, lf_bg := Some (n + 2),
           lf_fresh := n + 3, lf_loops := lf_loops s @ [Loop_Spawned (n + 2)],
           lf_subs := lf_subs s @ [Sub_Spawned (n + 2)]\<rparr>))"

text \<open>Stop up to the release of the mutex; a service that is not running has nothing to stop.\<close>

definition stop_service :: "lifecycle \<Rightarrow> lifecycle option" where
  "stop_service s =
     (if \<not> lf_running s then Some (s\<lparr>lf_stops := lf_stops s @ [Stop_Returned]\<rparr>)
      else
        (case lf_stop_ch s of
           None \<Rightarrow> None
         | Some k \<Rightarrow>
             map_option (\<lambda>s. cancel_context (lf_bg s) (cancel_context (map_option fst (lf_sub_ctx s)) s)
                 \<lparr>lf_stops := lf_stops s @ [Stop_Unlocked]\<rparr>)
               (close_channel k (s\<lparr>lf_running := False\<rparr>))))"

text \<open>The turns of the i-th Stop, loop and subscriber; None in the outer option: it has to wait.\<close>

definition stop_turn :: "nat \<Rightarrow> lifecycle \<Rightarrow> lifecycle option option" where
  "stop_turn i s =
     (if i < length (lf_stops s) then
        (let goto = (\<lambda>p. Some (Some (s\<lparr>lf_stops := (lf_stops s)[i := p]\<rparr>))) in
         case lf_stops s ! i of
           Stop_Unlocked \<Rightarrow> goto (Stop_Waiting (lf_done_ch s))
         | Stop_Waiting d \<Rightarrow>
             if d \<in> set (lf_closed s) then
               goto (case lf_sub_done s of None \<Rightarrow> Stop_Returned | Some e \<Rightarrow> Stop_Waiting_Sub e)
             else None
         | Stop_Waiting_Sub e \<Rightarrow> if e \<in> set (lf_closed s) then goto Stop_Returned else None
         | Stop_Returned \<Rightarrow> None)
      else None)"

definition loop_turn :: "nat \<Rightarrow> lifecycle \<Rightarrow> lifecycle option option" where
  "loop_turn i s =
     (if i < length (lf_loops s) then
        (case lf_loops s ! i of
           Loop_Spawned c \<Rightarrow> Some (Some (s\<lparr>lf_loops := (lf_loops s)[i := Loop_Running c (lf_done_ch s)]\<rparr>))
         | Loop_Running c d \<Rightarrow>
             if c \<in> set (lf_cancelled s) \<or> (\<exists>k \<in> set_option (lf_stop_ch s). k \<in> set (lf_closed s)) then
               Some (close_channel d (s\<lparr>lf_loops := (lf_loops s)[i := Loop_Ended]\<rparr>))
             else None
         | Loop_Ended \<Rightarrow> None)
      else None)"

text \<open>The subscriber also ends when Subscribe fails or the message channel is closed.\<close>

definition sub_turn :: "bool \<Rightarrow> nat \<Rightarrow> lifecycle \<Rightarrow> lifecycle option option" where
  "sub_turn dropped i s =
     (if i < length (lf_subs s) then
        (case lf_subs s ! i of
           Sub_Spawned c \<Rightarrow>
             Some (Some (s\<lparr>lf_sub_ctx := Some (lf_fresh s, c), lf_sub_done := Some (lf_fresh s + 1),
               lf_fresh := lf_fresh s + 2, lf_subs := (lf_subs s)[i := Sub_Set]\<rparr>))
         | Sub_Set \<Rightarrow>
             (case lf_sub_done s of
                None \<Rightarrow> None
              | Some e \<Rightarrow> Some (Some (s\<lparr>lf_subs := (lf_subs s)[i := Sub_Running e]\<rparr>)))
         | Sub_Running e \<Rightarrow>
             if dropped \<or> (\<exists>c \<in> set_option (lf_sub_ctx s). context_done s c) then
               Some (close_channel e (s\<lparr>lf_subs := (lf_subs s)[i := Sub_Ended]\<rparr>))
             else None
         | Sub_Ended \<Rightarrow> None)
      else None)"

section \<open>Steps\<close>

datatype lifecycle_action =
    Call_Start bool
  | Call_Stop
  | Stop_Turn nat
  | Loop_Turn nat
  | Sub_Turn bool nat

fun lifecycle_next :: "lifecycle_action \<Rightarrow> lifecycle \<Rightarrow> lifecycle option option" where
  "lifecycle_next (Call_Start ticking) s = Some (Some (start_service ticking s))"
| "lifecycle_next Call_Stop s = Some (stop_service s)"
| "lifecycle_next (Stop_Turn i) s = stop_turn i s"
| "lifecycle_next (Loop_Turn i) s = loop_turn i s"
| "lifecycle_next (Sub_Turn dropped i) s = sub_turn dropped i s"

text \<open>A trace from a state: None if it is not possible, and Some None if it ends in a panic.\<close>

fun lifecycle_run :: "lifecycle_action list \<Rightarrow> lifecycle \<Rightarrow> lifecycle option option" where
  "lifecycle_run [] s = Some (Some s)"
| "lifecycle_run (a # as) s =
     (case lifecycle_next a s of
        None \<Rightarrow> None
      | Some None \<Rightarrow> (if as = [] then Some None else None)
      | Some (Some s') \<Rightarrow> lifecycle_run as s')"

text \<open>One run of the service: it is not started again once it has been stopped.\<close>

definition orderly :: "lifecycle_action \<Rightarrow> lifecycle \<Rightarrow> bool" where
  "orderly a s = (case a of Call_Start _ \<Rightarrow> lf_running s \<or> lf_stop_ch s = None | _ \<Rightarrow> True)"

inductive lifecycle_reachable :: "lifecycle \<Rightarrow> bool" where
  New: "lifecycle_reachable new_lifecycle"
| Step: "lifecycle_reachable s \<Longrightarrow> orderly a s \<Longrightarrow> lifecycle_next a s = Some (Some s') \<Longrightarrow> lifecycle_reachable s'"

section \<open>The invariant of one run\<close>

text \<open>Before the first Start: nothing but Stops that had nothing to do.\<close>

definition idle :: "lifecycle \<Rightarrow> bool" where
  "idle s =
     (\<not> lf_running s \<and> lf_stop_ch s = None \<and> lf_bg s = None \<and> lf_sub_ctx s = None \<and> lf_sub_done s = None
      \<and> lf_closed s = [] \<and> lf_cancelled s = [] \<and> lf_loops s = [] \<and> lf_subs s = []
      \<and> (\<forall>p \<in> set (lf_stops s). p = Stop_Returned))"

definition loop_ok :: "nat \<Rightarrow> lifecycle \<Rightarrow> loop_state \<Rightarrow> bool" where
  "loop_ok b s l =
     (case l of
        Loop_Spawned c \<Rightarrow> c = b \<and> lf_done_ch s \<notin> set (lf_closed s)
      | Loop_Running c d \<Rightarrow> c = b \<and> d = lf_done_ch s \<and> d \<notin> set (lf_closed s)
      | Loop_Ended \<Rightarrow> \<not> lf_running s \<and> lf_done_ch s \<in> set (lf_closed s))"

definition sub_ok :: "nat \<Rightarrow> nat \<Rightarrow> lifecycle \<Rightarrow> sub_state \<Rightarrow> bool" where
  "sub_ok k b s u =
     (case lf_sub_done s of
        None \<Rightarrow> u = Sub_Spawned b \<and> lf_sub_ctx s = None
      | Some e \<Rightarrow>
          e \<noteq> k \<and> e \<noteq> lf_done_ch s \<and> (\<exists>x. x \<noteq> b \<and> lf_sub_ctx s = Some (x, b))
          \<and> (case u of
               Sub_Spawned c \<Rightarrow> False
             | Sub_Set \<Rightarrow> e \<notin> set (lf_closed s)
             | Sub_Running e' \<Rightarrow> e' = e \<and> e \<notin> set (lf_closed s)
             | Sub_Ended \<Rightarrow> e \<in> set (lf_closed s)))"

definition stop_ok :: "lifecycle \<Rightarrow> stop_state \<Rightarrow> bool" where
  "stop_ok s p =
     (case p of
        Stop_Unlocked \<Rightarrow> \<not> lf_running s
      | Stop_Waiting d \<Rightarrow> \<not> lf_running s \<and> d = lf_done_ch s
      | Stop_Waiting_Sub e \<Rightarrow> \<not> lf_running s \<and> lf_sub_done s = Some e \<and> lf_done_ch s \<in> set (lf_closed s)
      | Stop_Returned \<Rightarrow> True)"

definition started :: "nat \<Rightarrow> nat \<Rightarrow> lifecycle \<Rightarrow> bool" where
  "started k b s =
     (lf_stop_ch s = Some k \<and> lf_bg s = Some b \<and> k \<noteq> lf_done_ch s
      \<and> (\<forall>c \<in> insert k (insert b (insert (lf_done_ch s) (set (lf_closed s) \<union> set_option (lf_sub_done s)))). c < lf_fresh s)
      \<and> (lf_running s \<longleftrightarrow> k \<notin> set (lf_closed s))
      \<and> (lf_running s \<longrightarrow> b \<notin> set (lf_cancelled s)) \<and> (\<not> lf_running s \<longrightarrow> b \<in> set (lf_cancelled s))
      \<and> (\<exists>l. lf_loops s = [l] \<and> loop_ok b s l)
      \<and> (\<exists>u. lf_subs s = [u] \<and> sub_ok k b s u)
      \<and> (\<forall>p \<in> set (lf_stops s). stop_ok s p)
      \<and> (\<not> lf_running s \<longrightarrow> (\<forall>p \<in> set (lf_stops s). p = Stop_Returned) \<longrightarrow> lf_done_ch s \<in> set (lf_closed s)))"

definition lifecycle_ok :: "lifecycle \<Rightarrow> bool" where
  "lifecycle_ok s = (idle s \<or> (\<exists>k b. started k b s))"

lemma lifecycle_ok_new: "lifecycle_ok new_lifecycle"
  by (simp add: lifecycle_ok_def idle_def new_lifecycle_def)

lemma start_ok:
  assumes "lifecycle_ok s" and "orderly (Call_Start ticking) s"
  shows "lifecycle_ok (start_service ticking s)"
proof (cases "\<not> ticking \<or> lf_running s")
  case True
  with assms show ?thesis by (auto simp: start_service_def)
next
  case False
  with assms have "idle s" by (auto simp: lifecycle_ok_def started_def orderly_def)
  with False have "started (lf_fresh s) (lf_fresh s + 2) (start_service ticking s)"
    by (auto simp: started_def idle_def start_service_def Let_def loop_ok_def sub_ok_def stop_ok_def)
  then show ?thesis by (auto simp: lifecycle_ok_def)
qed

text \<open>What the parts depend on.\<close>

lemma loop_ok_cong:
  "lf_done_ch s' = lf_done_ch s \<Longrightarrow> lf_running s' = lf_running s
    \<Longrightarrow> (lf_done_ch s \<in> set (lf_closed s') \<longleftrightarrow> lf_done_ch s \<in> set (lf_closed s)) \<Longrightarrow> loop_ok b s' l = loop_ok b s l"
  by (cases l) (auto simp: loop_ok_def)

lemma sub_ok_cong:
  "lf_done_ch s' = lf_done_ch s \<Longrightarrow> lf_sub_done s' = lf_sub_done s \<Longrightarrow> lf_sub_ctx s' = lf_sub_ctx s
    \<Longrightarrow> (\<And>e. e \<noteq> lf_done_ch s \<Longrightarrow> e \<in> set (lf_closed s') \<longleftrightarrow> e \<in> set (lf_closed s))
    \<Longrightarrow> sub_ok k b s' u = sub_ok k b s u"
  by (cases u) (auto simp: sub_ok_def split: option.split)

lemma stop_ok_mono:
  "stop_ok s p \<Longrightarrow> lf_done_ch s' = lf_done_ch s \<Longrightarrow> lf_running s' = lf_running s
    \<Longrightarrow> (lf_sub_done s = None \<or> lf_sub_done s' = lf_sub_done s)
    \<Longrightarrow> set (lf_closed s) \<subseteq> set (lf_closed s') \<Longrightarrow> stop_ok s' p"
  by (cases p) (auto simp: stop_ok_def)

lemma stops_ok_mono:
  assumes "\<forall>p \<in> set (lf_stops s). stop_ok s p" and "lf_stops s' = lf_stops s"
    and "lf_done_ch s' = lf_done_ch s" "lf_running s' = lf_running s"
    and "lf_sub_done s = None \<or> lf_sub_done s' = lf_sub_done s" and "set (lf_closed s) \<subseteq> set (lf_closed s')"
  shows "\<forall>p \<in> set (lf_stops s'). stop_ok s' p"
  using assms stop_ok_mono [of s _ s'] by auto

lemma stop_service_ok:
  assumes "lifecycle_ok s"
  shows "\<exists>s'. stop_service s = Some s' \<and> lifecycle_ok s'"
proof (cases "lf_running s")
  case False
  let ?s = "s\<lparr>lf_stops := lf_stops s @ [Stop_Returned]\<rparr>"
  have stop: "stop_ok ?s p = stop_ok s p" for p by (cases p) (simp_all add: stop_ok_def)
  have "loop_ok b ?s l = loop_ok b s l" for b l by (rule loop_ok_cong) simp_all
  moreover have "sub_ok k b ?s u = sub_ok k b s u" for k b u by (rule sub_ok_cong) simp_all
  ultimately have "started k b ?s" if "started k b s" for k b
    using that by (simp add: started_def stop) (simp add: stop_ok_def)
  moreover have "idle ?s" if "idle s" using that by (auto simp: idle_def)
  ultimately show ?thesis using False assms by (auto simp: stop_service_def lifecycle_ok_def)
next
  case True
  with assms obtain k b where ok: "started k b s" by (auto simp: lifecycle_ok_def idle_def)
  then have k: "lf_stop_ch s = Some k" "lf_bg s = Some b" "k \<notin> set (lf_closed s)" "k \<noteq> lf_done_ch s"
    using True by (auto simp: started_def)
  define xs where "xs = b # (case lf_sub_ctx s of None \<Rightarrow> [] | Some c \<Rightarrow> [fst c]) @ lf_cancelled s"
  define s1 where "s1 = s\<lparr>lf_running := False, lf_closed := k # lf_closed s, lf_cancelled := xs,
      lf_stops := lf_stops s @ [Stop_Unlocked]\<rparr>"
  have run: "stop_service s = Some s1"
    using True k by (simp add: stop_service_def close_channel_def cancel_context_def s1_def xs_def split: option.split)
  have loop: "loop_ok b s1 l" if "loop_ok b s l" for l
    using that k by (cases l) (auto simp: loop_ok_def s1_def)
  have sub: "sub_ok k b s1 u" if "sub_ok k b s u" for u
    using that by (cases u) (auto simp: sub_ok_def s1_def split: option.splits)
  have stop: "stop_ok s1 p" if "stop_ok s p" for p
    using that True by (cases p) (auto simp: stop_ok_def s1_def)
  have "lf_stop_ch s1 = Some k" "lf_bg s1 = Some b" "k \<noteq> lf_done_ch s1" "\<not> lf_running s1" "k \<in> set (lf_closed s1)"
    "b \<in> set (lf_cancelled s1)" "\<exists>p \<in> set (lf_stops s1). p \<noteq> Stop_Returned"
    using k by (simp_all add: s1_def xs_def)
  moreover have "\<exists>l. lf_loops s1 = [l] \<and> loop_ok b s1 l" using ok loop by (auto simp: started_def s1_def)
  moreover have "\<exists>u. lf_subs s1 = [u] \<and> sub_ok k b s1 u" using ok sub by (auto simp: started_def s1_def)
  moreover have "\<forall>p \<in> set (lf_stops s1). stop_ok s1 p"
    using ok stop by (auto simp: started_def s1_def stop_ok_def)
  moreover have "\<forall>c \<in> insert k (insert b (insert (lf_done_ch s1) (set (lf_closed s1) \<union> set_option (lf_sub_done s1)))). c < lf_fresh s1"
    using ok by (simp add: started_def s1_def)
  ultimately have "started k b s1" unfolding started_def by blast
  with run show ?thesis by (auto simp: lifecycle_ok_def)
qed

text \<open>The turns; before the first Start nothing can move.\<close>

lemma idle_turns:
  assumes "idle s"
  shows "stop_turn i s = None" and "loop_turn i s = None" and "sub_turn dropped i s = None"
proof -
  have "lf_stops s ! i = Stop_Returned" if "i < length (lf_stops s)" using assms that by (simp add: idle_def)
  then show "stop_turn i s = None" by (simp add: stop_turn_def)
qed (use assms in \<open>simp_all add: idle_def loop_turn_def sub_turn_def\<close>)

lemma stop_move:
  assumes ok: "started k b s" and i: "i < length (lf_stops s)" and q: "stop_ok s q"
    and last: "q = Stop_Returned \<Longrightarrow> lf_done_ch s \<in> set (lf_closed s)"
  shows "started k b (s\<lparr>lf_stops := (lf_stops s)[i := q]\<rparr>)" (is "started k b ?s")
proof -
  have stop: "stop_ok ?s x = stop_ok s x" for x by (cases x) (simp_all add: stop_ok_def)
  have loop: "loop_ok b ?s l = loop_ok b s l" for l by (rule loop_ok_cong) simp_all
  have sub: "sub_ok k b ?s u = sub_ok k b s u" for u by (rule sub_ok_cong) simp_all
  have "\<forall>x \<in> set ((lf_stops s)[i := q]). stop_ok s x"
    using ok q set_update_subset_insert [of "lf_stops s" i q] by (auto simp: started_def)
  moreover have "lf_done_ch s \<in> set (lf_closed s)" if "\<forall>x \<in> set ((lf_stops s)[i := q]). x = Stop_Returned"
    using that last set_update_memI [OF i, of q] by blast
  ultimately show ?thesis using ok by (simp add: started_def stop loop sub)
qed

lemma stop_turn_ok:
  assumes ok: "started k b s" and turn: "stop_turn i s = Some r"
  shows "\<exists>s'. r = Some s' \<and> started k b s'"
proof -
  let ?to = "\<lambda>p. s\<lparr>lf_stops := (lf_stops s)[i := p]\<rparr>"
  have i: "i < length (lf_stops s)" using turn by (auto simp: stop_turn_def split: if_splits)
  then have p: "stop_ok s (lf_stops s ! i)" using ok by (simp add: started_def)
  note move = stop_move [OF ok i]
  show ?thesis
  proof (cases "lf_stops s ! i")
    case Stop_Unlocked
    then have "r = Some (?to (Stop_Waiting (lf_done_ch s)))" using turn i by (simp add: stop_turn_def)
    moreover have "started k b (?to (Stop_Waiting (lf_done_ch s)))"
      by (rule move) (use p Stop_Unlocked in \<open>simp_all add: stop_ok_def\<close>)
    ultimately show ?thesis by blast
  next
    case (Stop_Waiting d)
    then have d: "d \<in> set (lf_closed s)"
      "r = Some (?to (case lf_sub_done s of None \<Rightarrow> Stop_Returned | Some e \<Rightarrow> Stop_Waiting_Sub e))"
      using turn i by (auto simp: stop_turn_def split: if_splits)
    moreover have "started k b (?to (case lf_sub_done s of None \<Rightarrow> Stop_Returned | Some e \<Rightarrow> Stop_Waiting_Sub e))"
      by (rule move) (use p d Stop_Waiting in \<open>simp_all add: stop_ok_def split: option.split\<close>)
    ultimately show ?thesis by blast
  next
    case (Stop_Waiting_Sub e)
    then have "r = Some (?to Stop_Returned)" using turn i by (auto simp: stop_turn_def split: if_splits)
    moreover have "started k b (?to Stop_Returned)"
      by (rule move) (use p Stop_Waiting_Sub in \<open>simp_all add: stop_ok_def\<close>)
    ultimately show ?thesis by blast
  next
    case Stop_Returned
    with turn i show ?thesis by (simp add: stop_turn_def)
  qed
qed

lemma loop_turn_ok:
  assumes ok: "started k b s" and turn: "loop_turn i s = Some r"
  shows "\<exists>s'. r = Some s' \<and> started k b s'"
proof -
  from ok obtain l where l: "lf_loops s = [l]" "loop_ok b s l" by (auto simp: started_def)
  with turn have i: "i = 0" by (auto simp: loop_turn_def split: if_splits)
  have stops: "\<forall>p \<in> set (lf_stops s). stop_ok s p" using ok by (simp add: started_def)
  show ?thesis
  proof (cases l)
    case (Loop_Spawned c)
    let ?s = "s\<lparr>lf_loops := [Loop_Running c (lf_done_ch s)]\<rparr>"
    have r: "r = Some ?s" using turn l i Loop_Spawned by (simp add: loop_turn_def)
    have "loop_ok b ?s (Loop_Running c (lf_done_ch s))" using l(2) Loop_Spawned by (simp add: loop_ok_def)
    moreover have "sub_ok k b ?s u = sub_ok k b s u" for u by (rule sub_ok_cong) simp_all
    moreover have "\<forall>p \<in> set (lf_stops ?s). stop_ok ?s p" by (rule stops_ok_mono [OF stops]) simp_all
    ultimately have "started k b ?s" using ok by (simp add: started_def)
    with r show ?thesis by blast
  next
    case (Loop_Running c d)
    then have d: "d = lf_done_ch s" "d \<notin> set (lf_closed s)" using l(2) by (auto simp: loop_ok_def)
    let ?s = "s\<lparr>lf_loops := [Loop_Ended], lf_closed := d # lf_closed s\<rparr>"
    have "c \<in> set (lf_cancelled s) \<or> k \<in> set (lf_closed s)"
      using turn l(1) i Loop_Running ok by (auto simp: loop_turn_def started_def split: if_splits)
    then have stopped: "\<not> lf_running s" using ok l(2) Loop_Running by (auto simp: started_def loop_ok_def)
    have r: "r = Some ?s" using turn l(1) i Loop_Running d by (auto simp: loop_turn_def close_channel_def split: if_splits)
    have "loop_ok b ?s Loop_Ended" using stopped d by (simp add: loop_ok_def)
    moreover have "sub_ok k b ?s u = sub_ok k b s u" for u by (rule sub_ok_cong) (simp_all add: d)
    moreover have "\<forall>p \<in> set (lf_stops ?s). stop_ok ?s p" by (rule stops_ok_mono [OF stops]) auto
    ultimately have "started k b ?s" using ok d stopped by (simp add: started_def)
    with r show ?thesis by blast
  next
    case Loop_Ended
    with turn l i show ?thesis by (simp add: loop_turn_def)
  qed
qed

lemma sub_turn_ok:
  assumes ok: "started k b s" and turn: "sub_turn dropped i s = Some r"
  shows "\<exists>s'. r = Some s' \<and> started k b s'"
proof -
  from ok obtain u where u: "lf_subs s = [u]" "sub_ok k b s u" by (auto simp: started_def)
  with turn have i: "i = 0" by (auto simp: sub_turn_def split: if_splits)
  have stops: "\<forall>p \<in> set (lf_stops s). stop_ok s p" using ok by (simp add: started_def)
  show ?thesis
  proof (cases u)
    case (Sub_Spawned c)
    then have none: "lf_sub_done s = None" "c = b" using u(2) by (auto simp: sub_ok_def split: option.splits)
    let ?s = "s\<lparr>lf_sub_ctx := Some (lf_fresh s, c), lf_sub_done := Some (lf_fresh s + 1),
        lf_fresh := lf_fresh s + 2, lf_subs := [Sub_Set]\<rparr>"
    have r: "r = Some ?s" using turn u(1) i Sub_Spawned by (simp add: sub_turn_def)
    have below: "c < lf_fresh s" if "c = k \<or> c = lf_done_ch s \<or> c \<in> set (lf_closed s)" for c
      using ok that by (auto simp: started_def)
    have below_b: "b < lf_fresh s" using ok by (simp add: started_def)
    have "lf_fresh s + 1 \<notin> set (lf_closed s)" "lf_fresh s + 1 \<noteq> k" "lf_fresh s + 1 \<noteq> lf_done_ch s"
      using below [of "lf_fresh s + 1"] by auto
    moreover have "lf_fresh s \<noteq> b" using below_b by simp
    ultimately have "sub_ok k b ?s Sub_Set" by (simp add: sub_ok_def none)
    moreover have "loop_ok b ?s l = loop_ok b s l" for l by (rule loop_ok_cong) simp_all
    moreover have "\<forall>p \<in> set (lf_stops ?s). stop_ok ?s p" by (rule stops_ok_mono [OF stops]) (simp_all add: none)
    moreover have "\<forall>x \<in> insert k (insert b (insert (lf_done_ch ?s) (set (lf_closed ?s) \<union> set_option (lf_sub_done ?s)))).
        x < lf_fresh ?s"
    proof
      fix x assume "x \<in> insert k (insert b (insert (lf_done_ch ?s) (set (lf_closed ?s) \<union> set_option (lf_sub_done ?s))))"
      then have "x < lf_fresh s \<or> x = lf_fresh s + 1" using below [of x] below_b by auto
      then show "x < lf_fresh ?s" by auto
    qed
    moreover have "\<exists>l. lf_loops ?s = [l] \<and> loop_ok b s l" using ok by (auto simp: started_def)
    ultimately have "started k b ?s" using ok unfolding started_def by simp
    with r show ?thesis by blast
  next
    case Sub_Set
    then obtain e where e: "lf_sub_done s = Some e" using u(2) by (auto simp: sub_ok_def split: option.splits)
    let ?s = "s\<lparr>lf_subs := [Sub_Running e]\<rparr>"
    have r: "r = Some ?s" using turn u(1) i Sub_Set e by (simp add: sub_turn_def)
    have "sub_ok k b ?s (Sub_Running e)" using u(2) Sub_Set e by (simp add: sub_ok_def)
    moreover have "loop_ok b ?s l = loop_ok b s l" for l by (rule loop_ok_cong) simp_all
    moreover have "\<forall>p \<in> set (lf_stops ?s). stop_ok ?s p" by (rule stops_ok_mono [OF stops]) simp_all
    ultimately have "started k b ?s" using ok by (simp add: started_def)
    with r show ?thesis by blast
  next
    case (Sub_Running e)
    then have e: "lf_sub_done s = Some e" "e \<notin> set (lf_closed s)" "e \<noteq> k" "e \<noteq> lf_done_ch s"
      using u(2) by (auto simp: sub_ok_def split: option.splits)
    let ?s = "s\<lparr>lf_subs := [Sub_Ended], lf_closed := e # lf_closed s\<rparr>"
    have r: "r = Some ?s" using turn u(1) i Sub_Running e(2) by (auto simp: sub_turn_def close_channel_def split: if_splits)
    have "sub_ok k b ?s Sub_Ended" using u(2) Sub_Running e by (simp add: sub_ok_def)
    moreover have "loop_ok b ?s l = loop_ok b s l" for l by (rule loop_ok_cong) (use e in auto)
    moreover have "\<forall>p \<in> set (lf_stops ?s). stop_ok ?s p" by (rule stops_ok_mono [OF stops]) auto
    moreover have "e < lf_fresh s" using ok e(1) by (simp add: started_def)
    ultimately have "started k b ?s" using ok e by (auto simp: started_def)
    with r show ?thesis by blast
  next
    case Sub_Ended
    with turn u i show ?thesis by (simp add: sub_turn_def)
  qed
qed

lemma next_ok:
  assumes "lifecycle_ok s" and "orderly a s" and "lifecycle_next a s = Some r"
  shows "\<exists>s'. r = Some s' \<and> lifecycle_ok s'"
proof (cases a)
  case (Call_Start ticking)
  with assms start_ok [of s ticking] show ?thesis by auto
next
  case Call_Stop
  with assms stop_service_ok [of s] show ?thesis by auto
next
  case (Stop_Turn i)
  with assms stop_turn_ok [of _ _ s i r] idle_turns(1) [of s i] show ?thesis by (fastforce simp: lifecycle_ok_def)
next
  case (Loop_Turn i)
  with assms loop_turn_ok [of _ _ s i r] idle_turns(2) [of s i] show ?thesis by (fastforce simp: lifecycle_ok_def)
next
  case (Sub_Turn dropped i)
  with assms sub_turn_ok [of _ _ s dropped i r] idle_turns(3) [of s dropped i] show ?thesis
    by (fastforce simp: lifecycle_ok_def)
qed

lemma reachable_ok: "lifecycle_reachable s \<Longrightarrow> lifecycle_ok s"
proof (induction rule: lifecycle_reachable.induct)
  case New
  show ?case by (rule lifecycle_ok_new)
next
  case (Step s a s')
  with next_ok [of s a "Some s'"] show ?case by simp
qed

section \<open>Stop comes back\<close>

text \<open>The turns of the goroutines themselves, without what the callers and Redis do.\<close>

definition internal :: "lifecycle_action \<Rightarrow> bool" where
  "internal a = (case a of Call_Start _ \<Rightarrow> False | Call_Stop \<Rightarrow> False | Sub_Turn dropped _ \<Rightarrow> \<not> dropped | _ \<Rightarrow> True)"

definition settled :: "lifecycle \<Rightarrow> bool" where
  "settled s =
     ((\<forall>p \<in> set (lf_stops s). p = Stop_Returned) \<and> (\<forall>l \<in> set (lf_loops s). l = Loop_Ended)
      \<and> (\<forall>u \<in> set (lf_subs s). u = Sub_Ended))"

definition turns_left :: "lifecycle \<Rightarrow> nat" where
  "turns_left s =
     sum_list (map (\<lambda>p. case p of Stop_Unlocked \<Rightarrow> 3 | Stop_Waiting _ \<Rightarrow> 2 | Stop_Waiting_Sub _ \<Rightarrow> 1 | Stop_Returned \<Rightarrow> 0)
       (lf_stops s))
     + sum_list (map (\<lambda>l. case l of Loop_Spawned _ \<Rightarrow> 2 | Loop_Running _ _ \<Rightarrow> 1 | Loop_Ended \<Rightarrow> 0) (lf_loops s))
     + sum_list (map (\<lambda>u. case u of Sub_Spawned _ \<Rightarrow> 3 | Sub_Set \<Rightarrow> 2 | Sub_Running _ \<Rightarrow> 1 | Sub_Ended \<Rightarrow> 0) (lf_subs s))"

lemma sum_list_replace:
  "i < length xs \<Longrightarrow> f y < f (xs ! i) \<Longrightarrow> sum_list (map f (xs[i := y])) < (sum_list (map f xs) :: nat)"
proof (induction xs arbitrary: i)
  case (Cons x xs)
  then show ?case by (cases i) auto
qed simp

lemma turn_decreases:
  assumes "internal a" and "lifecycle_next a s = Some (Some s')"
  shows "turns_left s' < turns_left s"
proof (cases a)
  case (Stop_Turn i)
  with assms(2) show ?thesis
    by (auto simp: stop_turn_def turns_left_def intro!: sum_list_replace split: if_splits stop_state.splits option.split)
next
  case (Loop_Turn i)
  with assms(2) show ?thesis
    by (auto simp: loop_turn_def close_channel_def turns_left_def intro!: sum_list_replace
        split: if_splits loop_state.splits)
next
  case (Sub_Turn dropped i)
  with assms(2) show ?thesis
    by (auto simp: sub_turn_def close_channel_def turns_left_def intro!: sum_list_replace
        split: if_splits sub_state.splits option.splits)
qed (use assms in \<open>simp_all add: internal_def\<close>)

lemma turn_possible:
  assumes ok: "started k b s" and "\<not> lf_running s" and "\<not> settled s"
  obtains a s' where "internal a" and "lifecycle_next a s = Some (Some s')" and "started k b s'" and "\<not> lf_running s'"
proof -
  have stopped: "b \<in> set (lf_cancelled s)" using assms by (simp add: started_def)
  from ok obtain l u where l: "lf_loops s = [l]" "loop_ok b s l" and u: "lf_subs s = [u]" "sub_ok k b s u"
    by (auto simp: started_def)
  have run: "\<exists>s'. r = Some s' \<and> started k b s' \<and> \<not> lf_running s'" if "lifecycle_next a s = Some r" "internal a" for a r
  proof -
    have "\<exists>s'. r = Some s' \<and> started k b s'"
      using that stop_turn_ok [OF ok] loop_turn_ok [OF ok] sub_turn_ok [OF ok] by (cases a) (auto simp: internal_def)
    moreover have "lf_running s' = lf_running s" if "r = Some s'" for s'
      using that \<open>lifecycle_next a s = Some r\<close> \<open>internal a\<close>
      by (cases a) (auto simp: internal_def stop_turn_def loop_turn_def sub_turn_def close_channel_def
          split: if_splits stop_state.splits loop_state.splits sub_state.splits option.splits)
    ultimately show ?thesis using assms(2) by auto
  qed
  consider "l \<noteq> Loop_Ended" | "u \<noteq> Sub_Ended" | i where "l = Loop_Ended" "u = Sub_Ended"
      "i < length (lf_stops s)" "lf_stops s ! i \<noteq> Stop_Returned"
    using assms(3) l(1) u(1)
    by (cases "l = Loop_Ended"; cases "u = Sub_Ended") (auto simp: settled_def in_set_conv_nth)
  then have "\<exists>a r. internal a \<and> lifecycle_next a s = Some r"
  proof cases
    case 1
    then have "\<exists>r. loop_turn 0 s = Some r"
      using l stopped by (cases l) (auto simp: loop_turn_def loop_ok_def)
    then show ?thesis by (intro exI [of _ "Loop_Turn 0"]) (simp add: internal_def)
  next
    case 2
    then have "\<exists>r. sub_turn False 0 s = Some r"
      using u stopped by (cases u) (auto simp: sub_turn_def sub_ok_def context_done_def split: option.splits)
    then show ?thesis by (intro exI [of _ "Sub_Turn False 0"]) (simp add: internal_def)
  next
    case (3 i)
    have "stop_ok s (lf_stops s ! i)" using ok 3(3) by (simp add: started_def)
    then have "\<exists>r. stop_turn i s = Some r"
      using 3 l(2) u(2) by (cases "lf_stops s ! i") (auto simp: stop_turn_def stop_ok_def loop_ok_def sub_ok_def)
    then show ?thesis by (intro exI [of _ "Stop_Turn i"]) (simp add: internal_def)
  qed
  then show thesis using run that by blast
qed

lemma settles:
  "started k b s \<Longrightarrow> \<not> lf_running s
    \<Longrightarrow> \<exists>as s'. list_all internal as \<and> lifecycle_run as s = Some (Some s') \<and> settled s'"
proof (induction s rule: measure_induct_rule [where f = turns_left])
  case (less s)
  show ?case
  proof (cases "settled s")
    case True
    then show ?thesis by (intro exI [of _ "[]"] exI [of _ s]) simp
  next
    case False
    obtain a s1 where a: "internal a" "lifecycle_next a s = Some (Some s1)" "started k b s1" "\<not> lf_running s1"
      by (rule turn_possible [OF less.prems False])
    obtain as s' where "list_all internal as" "lifecycle_run as s1 = Some (Some s')" "settled s'"
      using less.IH [OF turn_decreases [OF a(1,2)] a(3,4)] by blast
    with a show ?thesis by (intro exI [of _ "a # as"] exI [of _ s']) simp
  qed
qed

end
