(* ===== verification/Sample_Service.thy ===== *)
theory Sample_Service
  imports Content_Spec Json_Round_Trip Service_Lifecycle "HOL-Library.Code_Target_Numeral"
begin

text \<open>
  A service on concrete dependencies, for the instances of the properties: its world is the
  clock, its database lists what it is given, and its caches are the model stores.
\<close>

definition demo_rule :: decision_rule where
  "demo_rule = zero_decision_rule\<lparr>bm_id := 3\<rparr>"

definition demo_schedule :: schedule where
  "demo_schedule =
     zero_schedule\<lparr>bm_id := 7, sc_rule_id := 3, sc_placement := Some (zero_placement\<lparr>pl_name := ''home''\<rparr>)\<rparr>"

definition demo_occurrence :: occurrence where
  "demo_occurrence = zero_occurrence\<lparr>oc_schedule_id := 7, oc_schedule := Some demo_schedule\<rparr>"

definition demo_deps :: "(string + occurrence list) \<Rightarrow> (cached std_store, int) service_deps" where
  "demo_deps answer =
     \<lparr>sd_uuid = std_uuid, sd_caches = std_ops, sd_now = (\<lambda>w. \<lparr>tm_ns = w, tm_off = 0\<rparr>),
      sd_time_string = (\<lambda>_. []), sd_marshal_schedules = (\<lambda>_. None), sd_marshal_rule = (\<lambda>_. None),
      sd_redis = None,
      sd_occurrences = Some \<lparr>or_list_active_at = (\<lambda>w t. (answer, w)),
        or_list_active_by_placements_at = (\<lambda>w names t. (answer, w))\<rparr>,
      sd_rules = Some (\<lambda>w ids. (Inr [(7, demo_rule)], w)),
      sd_evaluator = Some (local_evaluator std_uuid), sd_leads = None, sd_profiles = None,
      sd_schemas = None, sd_attributes = None, sd_has_metric = True, sd_result_ttl = hour_ns,
      sd_tick_interval = minute_ns, sd_profile_ttl = 0\<rparr>"

definition demo_customer :: customer_request where
  "demo_customer =
     \<lparr>cu_type = customer_cis_id, cu_cis_id = ''1'', cu_ip_id = [], cu_kplus_mobile = [], cu_line_uuid = []\<rparr>"

lemmas demo_defs = demo_rule_def demo_schedule_def demo_occurrence_def zero_defs

text \<open>An empty mirror, and one that holds the schedule and its rule, synchronised at the start.\<close>

definition demo_memory ::
  "cached std_store \<Rightarrow> cached std_store \<Rightarrow> cached std_store \<Rightarrow> cached std_store memory_cache" where
  "demo_memory schedules rules syncs =
     \<lparr>mc_monitor = new_memory_monitor (f64_of_nat 1), mc_schedules = Some schedules, mc_rules = Some rules,
      mc_versions = Some [], mc_syncs = Some syncs\<rparr>"

definition demo_empty :: "(cached std_store, int) service" where
  "demo_empty = new_service 0 (Some (demo_memory [] [] []))"

definition demo_full :: "int \<Rightarrow> (cached std_store, int) service" where
  "demo_full now =
     (new_service now (Some (demo_memory
        [(schedules_key ''home'', Cached_Schedules [0], None)]
        [(rule_cache_key (std_string 3), Cached_Rule demo_rule, None)]
        [(''home'', Cached_Time \<lparr>tm_ns = 0, tm_off = 0\<rparr>, None)])))
       \<lparr>sv_heap := [demo_schedule]\<rparr>"

lemma demo_simps [simp]:
  "sd_caches (demo_deps a) = std_ops" "sd_uuid (demo_deps a) = std_uuid"
  "sd_has_metric (demo_deps a)" "sd_evaluator (demo_deps a) = Some (local_evaluator std_uuid)"
  "sd_occurrences (demo_deps a) = Some \<lparr>or_list_active_at = (\<lambda>w t. (a, w)),
     or_list_active_by_placements_at = (\<lambda>w names t. (a, w))\<rparr>"
  "sd_rules (demo_deps a) = Some (\<lambda>w ids. (Inr [(7, demo_rule)], w))"
  "sd_tick_interval (demo_deps a) = minute_ns" "now_ns (demo_deps a) s = sv_world s"
  by (simp_all add: demo_deps_def now_ns_def now_of_def)

lemma demo_worlds [simp]: "sv_world demo_empty = 0" "sv_world (demo_full now) = now"
  by (simp_all add: demo_empty_def demo_full_def new_service_def)

lemma demo_laws: "mirror_laws (sd_caches (demo_deps a))"
  using std.mirror_laws_axioms by simp

lemma demo_wired: "wired (demo_deps a)"
  by (simp add: wired_def)

lemma demo_calm: "\<not> is_under_pressure (new_memory_monitor p)"
  by (simp add: is_under_pressure_def new_memory_monitor_def)

lemma demo_none: "cache_all (std_cache d box unbox) P []"
  by (simp add: cache_all_def std_cache_def std_get_def gm_get_def)

lemma demo_initial: "initial (demo_deps a) demo_empty"
  by (simp add: initial_def demo_empty_def demo_memory_def new_service_def complete_cache_def std_ops_def demo_none)

lemma demo_empty_ready: "mirror_ready (demo_deps a) demo_empty" "\<not> pressured demo_empty"
  using initial_good [OF demo_initial]
  by (simp_all add: good_def pressured_def demo_empty_def new_service_def demo_memory_def demo_calm)

lemma demo_full_ready: "mirror_ready (demo_deps a) (demo_full now)" "\<not> pressured (demo_full now)"
  by (auto simp: mirror_ready_def cache_ready_def complete_cache_def demo_full_def new_service_def demo_memory_def
      pressured_def demo_calm cache_all_def std_ops_def std_cache_def std_get_def gm_get_def cached_ok_def
      split: if_splits)

lemma demo_loaded: "rule_loaded demo_rule"
  by (simp add: demo_rule_def rule_loaded_def zero_defs)

lemma demo_supplies:
  assumes "\<And>occs. a = Inr occs \<Longrightarrow> set occs \<subseteq> {demo_occurrence}"
  shows "supplies rule_loaded (demo_deps a)"
proof -
  have sched: "oc_schedule demo_occurrence = Some demo_schedule" "sc_rule demo_schedule = None"
    by (simp_all add: demo_occurrence_def demo_schedule_def zero_schedule_def)
  have "rules_within rule_loaded sc" if "a = Inr occs" "occ \<in> set occs" "oc_schedule occ = Some sc" for occs occ sc
    using that assms [of occs] sched by (auto simp: rules_within_def)
  then show ?thesis
    by (auto simp: supplies_def list_occurrences_def fetch_rules_def demo_loaded split: if_splits)
qed

lemma demo_provided:
  assumes "\<And>occs. a = Inr occs \<Longrightarrow> set occs \<subseteq> {demo_occurrence}"
  shows "provided rule_loaded (demo_deps a)"
  using demo_supplies [OF assms] canonical_evaluator.runtime_evaluator_axioms
  by (simp add: provided_def demo_laws [simplified] demo_wired)

end
