(* ===== verification/Mirror_Properties.thy ===== *)
theory Mirror_Properties
  imports Sample_Service
begin

text \<open>
  What the in-memory mirror guarantees: the bounded caches and their monitor, the refresh of
  the whole mirror and of named placements, flushing, and the sync pings. Each property is
  followed by an instance on concrete data.
\<close>

section \<open>The bounded cache\<close>

text \<open>C23: While memory is short, no sequence of Set calls makes a key known that was not known
  before, and the known keys take the new values.\<close>

theorem pressure_bounds_keys:
  assumes "go_cache_laws G" and "is_under_pressure mm"
  shows "set (cm_keys G now (set_entries G mm now ttl kvs c)) = set (cm_keys G now c)
    \<and> cm_get G now (cm_set G mm now ttl k v c) k = (if cm_get G now c k = None then None else Some v)"
proof -
  have keys: "set (cm_keys G now c) = {k. cm_get G now c k \<noteq> None}" for c
    using go_cache_laws.set_items [OF assms(1)] by (simp add: cm_keys_def cm_get_def)
  have one: "cm_get G now (cm_set G mm now ttl k v c) k' =
      (if k' = k \<and> cm_get G now c k \<noteq> None then Some v else cm_get G now c k')" for k k' v c
    using assms(2) go_cache_laws.get_set [OF assms(1)] by (simp add: cm_set_def cm_get_def)
  have step: "set (cm_keys G now (cm_set G mm now ttl k v c)) = set (cm_keys G now c)" for k v c
    unfolding keys by (auto simp: one)
  have "set (cm_keys G now (set_entries G mm now ttl kvs c)) = set (cm_keys G now c)"
    unfolding set_entries_def by (induction kvs arbitrary: c) (auto simp: step)
  with one [of k v c k] show ?thesis by simp
qed

theorem pressure_bounds_keys_witness:
  "set (cm_keys plain_cache 5 (set_entries plain_cache ((new_memory_monitor f64_zero)\<lparr>mm_under_pressure := True\<rparr>)
      5 60 [(''b'', ''2''), (''a'', ''3'')] [(''a'', ''1'', None)]))
    = set (cm_keys plain_cache 5 [(''a'', ''1'', None)])
    \<and> cm_get plain_cache 5 (cm_set plain_cache ((new_memory_monitor f64_zero)\<lparr>mm_under_pressure := True\<rparr>)
        5 60 ''a'' ''9'' [(''a'', ''1'', None)]) ''a''
      = (if cm_get plain_cache 5 [(''a'', ''1'', None)] ''a'' = None then None else Some ''9'')"
  by (rule pressure_bounds_keys) (simp_all add: plain.go_cache_laws_axioms is_under_pressure_def)

text \<open>The pressure flag is that of the last measurement: whatever readings the monitor takes
  before and after it is stopped, the flag is set exactly when the last recorded share of the
  heap is above the threshold.\<close>

theorem monitor_flag_agrees:
  assumes "\<not> f64_lt max_pct f64_zero"
  shows "fst (monitor_status (monitor_run (new_memory_monitor max_pct) events)) =
    f64_lt max_pct (snd (monitor_status (monitor_run (new_memory_monitor max_pct) events)))"
proof -
  have pct: "mm_max_pct (monitor_run mm es) = mm_max_pct mm" for mm es
    by (induction mm es rule: monitor_run.induct) (simp_all add: monitor_tick_def Let_def)
  have "mm_max_pct (new_memory_monitor max_pct) = max_pct" by (simp add: new_memory_monitor_def)
  then show ?thesis
    using monitor_ok_run [OF monitor_ok_new [OF assms], of events]
    by (simp add: monitor_ok_def monitor_status_def pct)
qed

theorem monitor_flag_agrees_witness:
  "fst (monitor_status (monitor_run (new_memory_monitor f64_zero) [Tick 5 10, Stop_Closed, Tick 9 10])) =
    f64_lt f64_zero (snd (monitor_status (monitor_run (new_memory_monitor f64_zero) [Tick 5 10, Stop_Closed, Tick 9 10])))"
  by (rule monitor_flag_agrees) (simp add: f64_zero_def)

section \<open>evaluate\<close>

text \<open>C9: An evaluation without placement names, with the database answering and memory to spare,
  replaces the whole mirror: it then shows exactly what the database lists, with its rules,
  version hashes and the time of the synchronisation, and nothing of what it held before.\<close>

theorem full_evaluation:
  assumes "mirror_laws (sd_caches E)" and "mirror_ready E s" and "\<not> pressured s"
    and "sd_occurrences E = Some repo"
    and "or_list_active_at repo (sv_world s) (now_of E s) = (Inr occs, w)"
    and "sd_rules E = Some fetch" and "fst (fetch w (map bm_id (unique_schedules occs))) = rs"
  shows "\<exists>s'. evaluate E [] s = Some s' \<and> mirror_ready E s'
    \<and> view_of E s' = full_refresh E (now_of E s') occs (rules_or_none rs)"
proof -
  from assms(2,3) obtain m where m: "sv_mem s = Some m" "cache_ready E (sv_heap s) m" "\<not> is_under_pressure (mc_monitor m)"
    by (auto simp: mirror_ready_def pressured_def)
  show ?thesis by (rule evaluate_full [OF assms(1) m assms(4-7)]) blast
qed

theorem full_evaluation_witness:
  "\<exists>s'. evaluate (demo_deps (Inr [demo_occurrence])) [] demo_empty = Some s'
    \<and> mirror_ready (demo_deps (Inr [demo_occurrence])) s'
    \<and> view_of (demo_deps (Inr [demo_occurrence])) s' =
      full_refresh (demo_deps (Inr [demo_occurrence])) (now_of (demo_deps (Inr [demo_occurrence])) s')
        [demo_occurrence] (rules_or_none (Inr [(7, demo_rule)]))"
  by (rule full_evaluation [where w = 0, OF demo_laws demo_empty_ready]) simp+

text \<open>C10: An evaluation of named placements for which the database lists something puts what it
  lists over what the mirror held, leaves the other placements alone, and drops the rules no
  mirrored schedule refers to.\<close>

theorem targeted_evaluation:
  assumes "mirror_laws (sd_caches E)" and "mirror_ready E s" and "\<not> pressured s"
    and "names \<noteq> []" and "sd_occurrences E = Some repo"
    and "or_list_active_by_placements_at repo (sv_world s) names (now_of E s) = (Inr occs, w)"
    and "listed occs name \<noteq> None"
    and "sd_rules E = Some fetch" and "fst (fetch w (map bm_id (unique_schedules occs))) = rs"
  shows "\<exists>s'. evaluate E names s = Some s' \<and> mirror_ready E s'
    \<and> view_of E s' = targeted_refresh E (now_of E s') occs (rules_or_none rs)
        (view_of E (s\<lparr>sv_world := sv_world s'\<rparr>))"
  by (rule evaluate_targeted [OF assms(1-6) _ assms(8,9)]) (use assms(7) in blast)+

lemma demo_listed: "listed [demo_occurrence] ''home'' = Some [demo_schedule]"
  by (simp add: listed_def unique_schedules_def dedup_by_def demo_defs placement_name_of_def)

theorem targeted_evaluation_witness:
  "\<exists>s'. evaluate (demo_deps (Inr [demo_occurrence])) [''home''] (demo_full 4) = Some s'
    \<and> mirror_ready (demo_deps (Inr [demo_occurrence])) s'
    \<and> view_of (demo_deps (Inr [demo_occurrence])) s' =
      targeted_refresh (demo_deps (Inr [demo_occurrence])) (now_of (demo_deps (Inr [demo_occurrence])) s')
        [demo_occurrence] (rules_or_none (Inr [(7, demo_rule)]))
        (view_of (demo_deps (Inr [demo_occurrence])) ((demo_full 4)\<lparr>sv_world := sv_world s'\<rparr>))"
  by (rule targeted_evaluation [where name = "''home''" and w = 4, OF demo_laws demo_full_ready]) (simp add: demo_listed)+

text \<open>When the database lists nothing for the named placements, they leave the mirror with
  their versions, count as synchronised now, and everything else stays.\<close>

theorem evaluation_clears:
  assumes "mirror_laws (sd_caches E)" and "mirror_ready E s" and "\<not> pressured s"
    and "sd_has_metric E" and "names \<noteq> []" and "sd_occurrences E = Some repo"
    and "or_list_active_by_placements_at repo (sv_world s) names (now_of E s) = (Inr [], w)"
  shows "\<exists>s'. evaluate E names s = Some s' \<and> mirror_ready E s'
    \<and> view_of E s' = clear_view (now_of E s') names (view_of E (s\<lparr>sv_world := sv_world s'\<rparr>))"
  by (rule evaluate_cleared [OF assms]) auto

theorem evaluation_clears_witness:
  "\<exists>s'. evaluate (demo_deps (Inr [])) [''home'', ''other''] (demo_full 4) = Some s'
    \<and> mirror_ready (demo_deps (Inr [])) s'
    \<and> view_of (demo_deps (Inr [])) s' = clear_view (now_of (demo_deps (Inr [])) s') [''home'', ''other'']
        (view_of (demo_deps (Inr [])) ((demo_full 4)\<lparr>sv_world := sv_world s'\<rparr>))"
  by (rule evaluation_clears [where w = 4, OF demo_laws demo_full_ready]) simp+



text \<open>An evaluation of named placements whose rows carry no usable placement empties the whole
  mirror, the placements it was not asked for included.\<close>

theorem targeted_evaluation_wipes:
  assumes "mirror_laws (sd_caches E)" and "mirror_ready E s" and "\<not> pressured s"
    and "names \<noteq> []" and "sd_occurrences E = Some repo"
    and "or_list_active_by_placements_at repo (sv_world s) names (now_of E s) = (Inr occs, w)"
    and "occs \<noteq> []" and "listed occs = Map.empty"
  shows "\<exists>s'. evaluate E names s = Some s' \<and> mirror_ready E s' \<and> view_of E s' = empty_view"
  by (rule evaluate_wiped [OF assms(1-7)]) (use assms(8) in auto)

theorem targeted_evaluation_wipes_witness:
  "\<exists>s'. evaluate (demo_deps (Inr [zero_occurrence])) [''other''] (demo_full 4) = Some s'
    \<and> mirror_ready (demo_deps (Inr [zero_occurrence])) s'
    \<and> view_of (demo_deps (Inr [zero_occurrence])) s' = empty_view"
  by (rule targeted_evaluation_wipes [where w = 4, OF demo_laws demo_full_ready])
    (simp add: listed_def unique_schedules_def zero_occurrence_def dedup_by_def fun_eq_iff)+

section \<open>FlushCache\<close>

text \<open>C21: Flushing named placements removes their schedules, versions and synchronisation times and
  the rules their schedules use, and nothing else; without names everything is removed.\<close>

theorem flush_removes:
  assumes "mirror_laws (sd_caches E)" and "mirror_ready E s"
  shows "\<exists>s'. flush_cache E names False s = Some s' \<and> mirror_ready E s'
    \<and> view_of E s' =
      (if names = [] then empty_view
       else
         \<lparr>mv_schedules = mv_schedules (view_of E s) |` (- set names),
          mv_rules = mv_rules (view_of E s) |`
            (- {k. \<exists>name \<in> set names. \<exists>ss. mv_schedules (view_of E s) name = Some ss \<and> k \<in> used_keys E ss}),
          mv_versions = mv_versions (view_of E s) |` (- set names),
          mv_syncs = mv_syncs (view_of E s) |` (- set names)\<rparr>)"
proof -
  let ?v = "view_of E s"
  have fold: "fold (flush_view E) names ?v =
      \<lparr>mv_schedules = mv_schedules ?v |` (- set names),
       mv_rules = mv_rules ?v |` (- {k. \<exists>name \<in> set names. \<exists>ss. mv_schedules ?v name = Some ss \<and> k \<in> used_keys E ss}),
       mv_versions = mv_versions ?v |` (- set names),
       mv_syncs = mv_syncs ?v |` (- set names)\<rparr>"
    by (rule mirror_view.equality) (simp_all add: fold_flush_view fold_flush_rules)
  show ?thesis by (rule flush_cache_view [OF assms, of names]) (auto simp: fold)
qed

theorem flush_removes_witness:
  "\<exists>s'. flush_cache (demo_deps (Inr [])) [''home''] False (demo_full 4) = Some s'
    \<and> mirror_ready (demo_deps (Inr [])) s'
    \<and> view_of (demo_deps (Inr [])) s' =
      (if [''home''] = [] then empty_view
       else
         \<lparr>mv_schedules = mv_schedules (view_of (demo_deps (Inr [])) (demo_full 4)) |` (- set [''home'']),
          mv_rules = mv_rules (view_of (demo_deps (Inr [])) (demo_full 4)) |`
            (- {k. \<exists>name \<in> set [''home'']. \<exists>ss.
                mv_schedules (view_of (demo_deps (Inr [])) (demo_full 4)) name = Some ss
                \<and> k \<in> used_keys (demo_deps (Inr [])) ss}),
          mv_versions = mv_versions (view_of (demo_deps (Inr [])) (demo_full 4)) |` (- set [''home'']),
          mv_syncs = mv_syncs (view_of (demo_deps (Inr [])) (demo_full 4)) |` (- set [''home''])\<rparr>)"
  by (rule flush_removes [OF demo_laws demo_full_ready(1)])

text \<open>C27: Flushing any placements and evaluating is, as far as the mirror shows, the same as
  evaluating: with the database answering and memory to spare the old content does not matter.\<close>

theorem flush_then_evaluate:
  assumes "mirror_laws (sd_caches E)" and "mirror_ready E s" and "\<not> pressured s"
    and "sd_occurrences E = Some repo"
    and "or_list_active_at repo (sv_world s) (now_of E s) = (Inr occs, w)"
    and "sd_rules E \<noteq> None"
  shows "\<exists>s1 s2. flush_cache E names True s = Some s1 \<and> evaluate E [] s = Some s2
    \<and> sv_world s1 = sv_world s2 \<and> view_of E s1 = view_of E s2"
proof -
  from assms(6) obtain fetch where fetch: "sd_rules E = Some fetch" by blast
  note full = evaluate_full [OF assms(1) _ _ _ assms(4) _ fetch refl]
  have start: "\<exists>m. sv_mem t = Some m \<and> cache_ready E (sv_heap t) m \<and> \<not> is_under_pressure (mc_monitor m)"
    if "mirror_ready E t" "\<not> pressured t" for t
    using that by (auto simp: mirror_ready_def pressured_def)
  obtain t where t: "flush_cache E names False s = Some t" "mirror_ready E t" "sv_world t = sv_world s"
    by (rule flush_cache_view [OF assms(1,2), of names])
  have calm: "\<not> pressured t" using flush_pressured [OF t(1)] assms(3) by simp
  have listing: "or_list_active_at repo (sv_world t) (now_of E t) = (Inr occs, w)"
    using assms(5) t(3) by (simp add: now_of_def)
  obtain m m' where m: "sv_mem s = Some m" "cache_ready E (sv_heap s) m" "\<not> is_under_pressure (mc_monitor m)"
    and m': "sv_mem t = Some m'" "cache_ready E (sv_heap t) m'" "\<not> is_under_pressure (mc_monitor m')"
    using start [OF assms(2,3)] start [OF t(2) calm] by blast
  obtain s1 where s1: "evaluate E [] t = Some s1"
    "view_of E s1 = full_refresh E (now_of E s1) occs (rules_or_none (fst (fetch w (map bm_id (unique_schedules occs)))))"
    "sv_world s1 = (if \<forall>name. listed occs name = None then w else snd (fetch w (map bm_id (unique_schedules occs))))"
    by (rule full [OF m' listing])
  obtain s2 where s2: "evaluate E [] s = Some s2"
    "view_of E s2 = full_refresh E (now_of E s2) occs (rules_or_none (fst (fetch w (map bm_id (unique_schedules occs)))))"
    "sv_world s2 = (if \<forall>name. listed occs name = None then w else snd (fetch w (map bm_id (unique_schedules occs))))"
    by (rule full [OF m assms(5)])
  show ?thesis
    using s1 s2 t(1) by (simp add: flush_cache_evaluate now_of_def)
qed

theorem flush_then_evaluate_witness:
  "\<exists>s1 s2. flush_cache (demo_deps (Inr [demo_occurrence])) [''home''] True (demo_full 4) = Some s1
    \<and> evaluate (demo_deps (Inr [demo_occurrence])) [] (demo_full 4) = Some s2
    \<and> sv_world s1 = sv_world s2
    \<and> view_of (demo_deps (Inr [demo_occurrence])) s1 = view_of (demo_deps (Inr [demo_occurrence])) s2"
  by (rule flush_then_evaluate [where w = 4, OF demo_laws demo_full_ready]) simp+

section \<open>Sync pings\<close>

definition ascii_ping :: "sync_ping \<Rightarrow> bool" where
  "ascii_ping p =
     (is_ascii (sp_placement_name p) \<and> is_ascii (sp_version_hash p) \<and> is_ascii (sp_decision_rule_id p))"

lemma ping_members:
  "marshal_ping p = CHR 0x7B # string_members
     ([(''placement_name'', sp_placement_name p), (''version_hash'', sp_version_hash p)]
       @ (if sp_decision_rule_id p = [] then [] else [(''decision_rule_id'', sp_decision_rule_id p)])) @ [CHR 0x7D]"
  by (simp add: marshal_ping_def string_members_def)

lemma ping_find:
  "find_field ping_fields ''placement_name'' =
    Some (\<lambda>r x. (let (v, ok) = dec_string (sp_placement_name r) x in (r\<lparr>sp_placement_name := v\<rparr>, ok)))"
  "find_field ping_fields ''version_hash'' =
    Some (\<lambda>r x. (let (v, ok) = dec_string (sp_version_hash r) x in (r\<lparr>sp_version_hash := v\<rparr>, ok)))"
  "find_field ping_fields ''decision_rule_id'' =
    Some (\<lambda>r x. (let (v, ok) = dec_string (sp_decision_rule_id r) x in (r\<lparr>sp_decision_rule_id := v\<rparr>, ok)))"
  by (simp_all add: find_field_def ping_fields_def mk_field_def)

lemma unmarshal_marshal_ping:
  assumes "ascii_ping p"
  shows "unmarshal_ping (marshal_ping p) = (p, True)"
proof -
  let ?kvs = "[(''placement_name'', sp_placement_name p), (''version_hash'', sp_version_hash p)]
       @ (if sp_decision_rule_id p = [] then [] else [(''decision_rule_id'', sp_decision_rule_id p)])"
  have "json_parse (marshal_ping p) = Some (JObj (map (\<lambda>(k, v). (k, quote v, JStr v)) ?kvs))"
    unfolding ping_members by (rule parse_string_object) (use assms in \<open>auto simp: ascii_ping_def is_ascii_def\<close>)
  then show ?thesis
    by (cases p) (auto simp: unmarshal_ping_def unmarshal_def dec_struct_def ping_find dec_string_def zero_ping_def)
qed

text \<open>C28: What PingSync publishes is what the subscriber decodes, for ASCII names, hashes and ids.\<close>

theorem ping_round_trip:
  assumes "is_ascii placement_name" and "is_ascii decision_rule_id" and "is_ascii version_hash"
    and "rd_publish r = (\<lambda>w channel msg. (None, w @ [(channel, msg)]))"
  shows "\<exists>msg. ping_sync (Some r) placement_name decision_rule_id version_hash [] =
      (None, [(channel_cms_sync_ping, msg)])
    \<and> unmarshal_ping msg = (\<lparr>sp_placement_name = placement_name, sp_version_hash = version_hash,
        sp_decision_rule_id = decision_rule_id\<rparr>, True)"
  using unmarshal_marshal_ping assms by (simp add: ping_sync_def ascii_ping_def)

definition outbox :: "(string \<times> string) list redis_repo" where
  "outbox = \<lparr>rd_get = (\<lambda>w k. (Inl [], w)), rd_set = (\<lambda>w k v ttl. (None, w)),
     rd_publish = (\<lambda>w channel msg. (None, w @ [(channel, msg)]))\<rparr>"

theorem ping_round_trip_witness:
  "\<exists>msg. ping_sync (Some outbox) ''home <main>'' ''r1'' ''abc'' [] = (None, [(channel_cms_sync_ping, msg)])
    \<and> unmarshal_ping msg = (\<lparr>sp_placement_name = ''home <main>'', sp_version_hash = ''abc'',
        sp_decision_rule_id = ''r1''\<rparr>, True)"
  by (rule ping_round_trip) (simp_all add: outbox_def)

text \<open>A ping that announces the version the mirror has changes nothing: it is skipped on
  receipt, and also when the version arrives while the subscriber waits.\<close>

theorem known_ping_is_skipped:
  assumes "mirror_ready E s" and "unmarshal_ping msg = (ping, True)" and "sp_version_hash ping \<noteq> []"
    and "mv_versions (view_of E s) (sp_placement_name ping) = Some (sp_version_hash ping)"
  shows "handle_message E msg wait s = Some s \<and> apply_ping E ping s = Some s"
  using assms by (simp add: apply_ping_def handle_message_def receive_message_def already_mirrored_view)

definition demo_versioned :: "(cached std_store, int) service" where
  "demo_versioned =
     (demo_full 4)\<lparr>sv_mem := Some ((demo_memory
        [(schedules_key ''home'', Cached_Schedules [0], None)] [] [])
          \<lparr>mc_versions := Some [(''home'', Cached_Version ''abc'', None)]\<rparr>)\<rparr>"

theorem known_ping_is_skipped_witness:
  "handle_message (demo_deps (Inr [])) (marshal_ping \<lparr>sp_placement_name = ''home'', sp_version_hash = ''abc'',
      sp_decision_rule_id = ''r1''\<rparr>) (\<lambda>s. s) demo_versioned = Some demo_versioned
    \<and> apply_ping (demo_deps (Inr [])) \<lparr>sp_placement_name = ''home'', sp_version_hash = ''abc'',
      sp_decision_rule_id = ''r1''\<rparr> demo_versioned = Some demo_versioned"
proof (rule known_ping_is_skipped)
  show "mirror_ready (demo_deps (Inr [])) demo_versioned"
    by (auto simp: mirror_ready_def cache_ready_def complete_cache_def demo_versioned_def demo_full_def demo_memory_def
        cache_all_def std_ops_def std_cache_def std_get_def gm_get_def cached_ok_def split: if_splits)
qed (simp_all add: unmarshal_marshal_ping ascii_ping_def demo_versioned_def demo_full_def demo_memory_def
    view_of_def cache_view_def versions_at_def cm_get_def std_ops_def std_cache_def std_get_def gm_get_def)

text \<open>C19: A ping that names a rule and a placement, and is not known yet, takes both out of the
  mirror first: if the database cannot be read, the old rule and the old schedules of the
  placement are gone all the same, and the rest is untouched.\<close>

theorem ping_never_keeps_stale_rule:
  assumes "mirror_laws (sd_caches E)" and "mirror_ready E s" and "sd_occurrences E = Some repo"
    and "sp_decision_rule_id ping \<noteq> []" and "sp_placement_name ping \<noteq> []"
    and "sp_version_hash ping = [] \<or> mv_versions (view_of E s) (sp_placement_name ping) \<noteq> Some (sp_version_hash ping)"
    and "or_list_active_by_placements_at repo (sv_world s) [sp_placement_name ping] (now_of E s) = (Inl e, w)"
  shows "\<exists>s'. apply_ping E ping s = Some s' \<and> mirror_ready E s'
    \<and> view_of E s' =
      (let v = view_of E (s\<lparr>sv_world := w\<rparr>) in
       v\<lparr>mv_rules := (mv_rules v)(rule_cache_key (sp_decision_rule_id ping) := None),
         mv_schedules := (mv_schedules v)(sp_placement_name ping := None)\<rparr>)"
proof -
  obtain s1 where s1: "invalidate E ping (s\<lparr>sv_world := w\<rparr>) = Some s1" "mirror_ready E s1"
    "sv_world s1 = w" "view_of E s1 = invalidate_view ping (view_of E (s\<lparr>sv_world := w\<rparr>))"
    by (rule invalidate_ready [OF assms(1), of "s\<lparr>sv_world := w\<rparr>" ping]) (use assms(2) in auto)
  obtain s2 where s2: "invalidate E ping s = Some s2" "mirror_ready E s2" "sv_world s2 = sv_world s"
    by (rule invalidate_ready [OF assms(1,2), of ping])
  have same: "s1 = s2\<lparr>sv_world := w\<rparr>"
    using s1(1) s2(1) by (auto simp: invalidate_def bind_eq_Some_conv split: option.splits if_splits)
  have "evaluate E [sp_placement_name ping] s2 = Some (s2\<lparr>sv_world := w\<rparr>)"
    by (rule evaluate_list_error [OF assms(3)]) (use assms(7) s2(3) in \<open>simp add: now_of_def\<close>)
  then have "apply_ping E ping s = Some s1"
    using assms(5,6) s2(1) by (auto simp: apply_ping_def already_mirrored_view [OF assms(2)] same)
  then show ?thesis using s1(2,4) assms(4,5) by (simp add: invalidate_view_def Let_def)
qed

theorem ping_never_keeps_stale_rule_witness:
  "\<exists>s'. apply_ping (demo_deps (Inl ''down'')) \<lparr>sp_placement_name = ''home'', sp_version_hash = [],
      sp_decision_rule_id = std_string 3\<rparr> (demo_full 4) = Some s'
    \<and> mirror_ready (demo_deps (Inl ''down'')) s'
    \<and> view_of (demo_deps (Inl ''down'')) s' =
      (let v = view_of (demo_deps (Inl ''down'')) ((demo_full 4)\<lparr>sv_world := 4\<rparr>) in
       v\<lparr>mv_rules := (mv_rules v)(rule_cache_key (std_string 3) := None),
         mv_schedules := (mv_schedules v)(''home'' := None)\<rparr>)"
  using ping_never_keeps_stale_rule [where ping = "\<lparr>sp_placement_name = ''home'', sp_version_hash = [],
      sp_decision_rule_id = std_string 3\<rparr>" and w = 4 and e = "''down''",
      OF demo_laws demo_full_ready(1) demo_simps(5)] canonical.string_nonempty [of 3]
  by (simp add: std_uuid_def)

end
