(* ===== verification/Service_Properties.thy ===== *)
theory Service_Properties
  imports Sample_Service
begin

text \<open>
  What the delivery service guarantees as a whole: the invariant of its states, the content
  it serves, the customer attributes it asks for, and the life of its goroutines. Each
  property with a hypothesis is followed by an instance on concrete data.
\<close>

section \<open>The service as a state machine\<close>

text \<open>C8: In every state the service can reach, with the wiring of the program, whatever the memory
  pressure, the database, Redis and CLEN do: the mirror is well formed, and a request, a flush,
  a ping and an evaluation return, without a panic, into such a state again.\<close>

theorem service_invariant:
  assumes "provided R E" and "initial E s0" and "service_reachable E s0 s"
  shows "mirror_ready E s \<and> heap_within R E s
    \<and> (\<exists>r s'. get_personalized_content E customer cnl names s = Some (r, s') \<and> service_reachable E s0 s')
    \<and> (\<exists>s'. flush_cache E names is_evaluate s = Some s' \<and> service_reachable E s0 s')
    \<and> (\<exists>s'. apply_ping E ping s = Some s' \<and> service_reachable E s0 s')
    \<and> (\<exists>s'. evaluate E names s = Some s' \<and> mirror_ready E s')"
proof -
  have good: "good R E s" by (rule reachable_good [OF assms])
  have laws: "mirror_laws (sd_caches E)" "wired E" "supplies R E" using assms(1) by (simp_all add: provided_def)
  obtain r s1 where s1: "get_personalized_content E customer cnl names s = Some (r, s1)"
    by (rule request_good [OF assms(1) good, of customer cnl names])
  obtain s2 where s2: "flush_cache E names is_evaluate s = Some s2" using good_flush [OF laws good] by blast
  obtain s3 where s3: "apply_ping E ping s = Some s3" using good_ping [OF laws good] by blast
  obtain s4 where s4: "evaluate E names s = Some s4" "good R E s4" using good_evaluate [OF laws good] by blast
  have "service_reachable E s0 s1" "service_reachable E s0 s2" "service_reachable E s0 s3"
    using service_reachable.Step [OF assms(3)] service_step.Request [OF s1] service_step.Flush [OF s2]
      service_step.Ping [OF s3] by auto
  then show ?thesis using good s1 s2 s3 s4 by (auto simp: good_def)
qed

lemma demo_nothing: "provided rule_loaded (demo_deps (Inr []))"
  by (rule demo_provided) simp

theorem service_invariant_witness:
  "mirror_ready (demo_deps (Inr [])) demo_empty \<and> heap_within rule_loaded (demo_deps (Inr [])) demo_empty
    \<and> (\<exists>r s'. get_personalized_content (demo_deps (Inr [])) None ''app'' [''home''] demo_empty = Some (r, s')
        \<and> service_reachable (demo_deps (Inr [])) demo_empty s')
    \<and> (\<exists>s'. flush_cache (demo_deps (Inr [])) [''home''] True demo_empty = Some s'
        \<and> service_reachable (demo_deps (Inr [])) demo_empty s')
    \<and> (\<exists>s'. apply_ping (demo_deps (Inr [])) zero_ping demo_empty = Some s'
        \<and> service_reachable (demo_deps (Inr [])) demo_empty s')
    \<and> (\<exists>s'. evaluate (demo_deps (Inr [])) [''home''] demo_empty = Some s' \<and> mirror_ready (demo_deps (Inr [])) s')"
  by (rule service_invariant [OF demo_nothing demo_initial service_reachable.Start])



section \<open>The content served\<close>

text \<open>A request, whatever it finds in the mirror, returns only results for placements it asked
  for, and leaves a good state.\<close>

theorem results_are_requested:
  assumes "provided R E" and "mirror_ready E s" and "heap_within R E s"
  shows "\<exists>r s'. get_personalized_content E customer cnl names s = Some (r, s') \<and> good R E s'
    \<and> (case r of Inl e \<Rightarrow> True | Inr xs \<Rightarrow> cr_source ` set xs \<subseteq> set names)"
proof -
  obtain r s' where "get_personalized_content E customer cnl names s = Some (r, s')" "good R E s'"
    "\<And>xs x. r = Inr xs \<Longrightarrow> x \<in> set xs \<Longrightarrow> cr_source x \<in> set names"
    by (rule request_good [OF assms(1), of s customer cnl names]) (use assms(2,3) in \<open>auto simp: good_def\<close>)
  then show ?thesis by (cases r) auto
qed

theorem results_are_requested_witness:
  "\<exists>r s'. get_personalized_content (demo_deps (Inr [])) (Some demo_customer) ''app'' [''home'', ''other''] demo_empty
      = Some (r, s') \<and> good rule_loaded (demo_deps (Inr [])) s'
    \<and> (case r of Inl e \<Rightarrow> True | Inr xs \<Rightarrow> cr_source ` set xs \<subseteq> set [''home'', ''other''])"
  by (rule results_are_requested [OF demo_nothing demo_empty_ready(1)])
    (use initial_good [OF demo_initial, of rule_loaded "Inr []"] in \<open>simp add: good_def\<close>)

text \<open>C4: With the evaluator of the program, a request that the mirror can answer (every placement
  young, mirrored, its schedules with their own or a mirrored rule) returns exactly the offers
  of those schedules whose rule passes for the customer; attributes are resolved once, for the
  rules of those schedules, and leads are fetched once.\<close>

theorem content_is_offers:
  assumes "uuid_laws U" and "mirror_ready E s" and "distinct names" and "\<not> customer_is_empty c"
    and "\<And>name. name \<in> set names \<Longrightarrow> can_serve E s name (ss name)"
    and "\<And>name. name \<in> set names \<Longrightarrow> list_all (rules_within rule_loaded) (ss name)"
    and "sd_evaluator E = Some (local_evaluator U)" and "sd_occurrences E \<noteq> None"
  shows "\<exists>rules h attrs s1 leads s2 xs. covers rules (rules_of (concat (map ss names)))
    \<and> resolve_user_attrs E (cu_type c) (customer_value c) rules (s\<lparr>sv_heap := h\<rparr>) = (attrs, s1)
    \<and> fetch_leads_for_request E c cnl names rules s1 = (leads, s2)
    \<and> get_personalized_content E (Some c) cnl names s = Some (Inr xs, s2)
    \<and> (\<forall>x. x \<in> set xs \<longleftrightarrow> (\<exists>name \<in> set names. \<exists>sc \<in> set (ss name).
        offered U name (Some (gm_get attrs)) leads sc x))"
  by (rule uuid_laws.request_offers [OF assms(1,2,3,5,4,7,8,6), where cnl = cnl]) blast+

lemma demo_can_serve:
  "can_serve (demo_deps a) (demo_full 4) ''home'' [demo_schedule\<lparr>sc_rule := Some demo_rule\<rparr>]"
proof -
  have view: "mv_schedules (view_of (demo_deps a) (demo_full 4)) ''home'' = Some [demo_schedule]"
    "mv_rules (view_of (demo_deps a) (demo_full 4)) (rule_cache_key (std_string 3)) = Some demo_rule"
    "mv_syncs (view_of (demo_deps a) (demo_full 4)) ''home'' = Some \<lparr>tm_ns = 0, tm_off = 0\<rparr>"
    by (simp_all add: view_of_def cache_view_def view_defs cm_get_def demo_full_def demo_memory_def new_service_def
        std_ops_def std_cache_def std_get_def gm_get_def deref_def)
  have key: "rule_key (demo_deps a) 3 = rule_cache_key (std_string 3)"
    by (simp add: rule_key_def std_uuid_def)
  show ?thesis
    by (simp add: can_serve_def view young_def stale_def staleness_threshold_def complete_schedule_def
        demo_schedule_def zero_schedule_def zero_placement_def key uuid_nil_def
        minute_ns_def second_ns_def)
qed

theorem content_is_offers_witness:
  "\<exists>rules h attrs s1 leads s2 xs.
    covers rules (rules_of (concat (map (\<lambda>_. [demo_schedule\<lparr>sc_rule := Some demo_rule\<rparr>]) [''home''])))
    \<and> resolve_user_attrs (demo_deps (Inr [])) (cu_type demo_customer) (customer_value demo_customer) rules
      ((demo_full 4)\<lparr>sv_heap := h\<rparr>) = (attrs, s1)
    \<and> fetch_leads_for_request (demo_deps (Inr [])) demo_customer ''app'' [''home''] rules s1 = (leads, s2)
    \<and> get_personalized_content (demo_deps (Inr [])) (Some demo_customer) ''app'' [''home''] (demo_full 4) = Some (Inr xs, s2)
    \<and> (\<forall>x. x \<in> set xs \<longleftrightarrow> (\<exists>name \<in> set [''home'']. \<exists>sc \<in> set [demo_schedule\<lparr>sc_rule := Some demo_rule\<rparr>].
        offered std_uuid name (Some (gm_get attrs)) leads sc x))"
  by (rule content_is_offers [OF canonical.uuid_laws_axioms demo_full_ready(1)])
    (simp_all add: demo_can_serve demo_customer_def customer_is_empty_def rules_within_def demo_loaded)



section \<open>Customer attributes\<close>

text \<open>From CLEN the service requests, for every datasource a rule reads, the fields of the
  datasource's schema that no rule names and that the profile cache does not have, and no other
  datasource and no empty request; what it remembers of the schemas stays what the registry says.\<close>

theorem requested_fields:
  assumes "sd_schemas E = Some repo" and "\<And>w u. fst (repo w u) = registry u" and "fields_remembered registry s"
  shows "set (fst (extract_clen_data_sources (Some (lookup_schema_fields E)) rules cached s)) =
    {\<lparr>ps_datasource = ds, ps_required_fields = wanted_fields (registry_fields registry) rules cached ds\<rparr>
      |ds. wanted_fields (registry_fields registry) rules cached ds \<noteq> []}"
  by (rule requested_sources [where I = "fields_remembered registry"])
    (use lookup_schema_registry [OF assms(1,2)] assms(3) in auto)

definition demo_registry :: "uuid \<Rightarrow> string + schema_registry option" where
  "demo_registry u = Inl ''missing''"

theorem requested_fields_witness:
  "set (fst (extract_clen_data_sources
      (Some (lookup_schema_fields ((demo_deps (Inr []))\<lparr>sd_schemas := Some (\<lambda>w u. (demo_registry u, w))\<rparr>)))
      [demo_rule] [] demo_empty)) =
    {\<lparr>ps_datasource = ds, ps_required_fields = wanted_fields (registry_fields demo_registry) [demo_rule] [] ds\<rparr>
      |ds. wanted_fields (registry_fields demo_registry) [demo_rule] [] ds \<noteq> []}"
  by (rule requested_fields [where repo = "\<lambda>w u. (demo_registry u, w)"])
    (simp_all add: fields_remembered_def demo_empty_def new_service_def)




lemma schema_remembered:
  assumes "fst (lookup_schema_fields E u s) = Inr fs"
  shows "lookup_schema_fields E u (snd (lookup_schema_fields E u s)) = (Inr fs, snd (lookup_schema_fields E u s))"
proof (cases "sd_schemas E = None \<or> u = uuid_nil \<or> sv_schema_fields s u \<noteq> None")
  case True
  with assms show ?thesis by (auto simp: lookup_schema_fields_def split: option.splits)
next
  case False
  then obtain repo where "sd_schemas E = Some repo" by auto
  moreover obtain r w where "repo (sv_world s) u = (r, w)" by fastforce
  ultimately show ?thesis using False assms by (cases r) (auto simp: lookup_schema_fields_def Let_def)
qed

lemma mapping_remembered:
  assumes "fst (lookup_attribute_uuids E ds s) = Inr mapping"
  shows "lookup_attribute_uuids E ds (snd (lookup_attribute_uuids E ds s)) = (Inr mapping, snd (lookup_attribute_uuids E ds s))"
proof (cases "sd_attributes E = None \<or> ds = [] \<or> sv_attr_uuids s ds \<noteq> None")
  case True
  with assms show ?thesis by (auto simp: lookup_attribute_uuids_def split: option.splits)
next
  case False
  then obtain repo where "sd_attributes E = Some repo" by auto
  moreover obtain r w where "repo (sv_world s) ds = (r, w)" by fastforce
  ultimately show ?thesis using False assms by (cases r) (auto simp: lookup_attribute_uuids_def Let_def)
qed

text \<open>The answers of the schema registry and of the attribute table are remembered for the life of
  the service: once a lookup has succeeded, the same lookup gives the same answer without asking
  again, and changes nothing.\<close>

theorem lookups_are_remembered:
  assumes "fst (lookup_schema_fields E u s) = Inr fs" and "fst (lookup_attribute_uuids E ds t) = Inr mapping"
  shows "lookup_schema_fields E u (snd (lookup_schema_fields E u s)) = (Inr fs, snd (lookup_schema_fields E u s))
    \<and> lookup_attribute_uuids E ds (snd (lookup_attribute_uuids E ds t)) = (Inr mapping, snd (lookup_attribute_uuids E ds t))"
  using schema_remembered [OF assms(1)] mapping_remembered [OF assms(2)] by simp

theorem lookups_are_remembered_witness:
  "lookup_schema_fields (demo_deps (Inr [])) 5 (snd (lookup_schema_fields (demo_deps (Inr [])) 5 demo_empty))
      = (Inr [], snd (lookup_schema_fields (demo_deps (Inr [])) 5 demo_empty))
    \<and> lookup_attribute_uuids (demo_deps (Inr [])) ''profile'' (snd (lookup_attribute_uuids (demo_deps (Inr [])) ''profile'' demo_empty))
      = (Inr [], snd (lookup_attribute_uuids (demo_deps (Inr [])) ''profile'' demo_empty))"
  by (rule lookups_are_remembered) (simp_all add: lookup_schema_fields_def lookup_attribute_uuids_def demo_deps_def)

section \<open>Start and Stop\<close>

text \<open>C15: In one run of the service, with any number of Start and Stop calls from any goroutines as
  long as it is not started again after a Stop, no turn closes a channel twice: every turn that is
  possible leads to a state, and that state is again one the run can reach.\<close>

theorem one_run_never_panics:
  assumes "lifecycle_reachable s" and "orderly a s" and "lifecycle_next a s = Some r"
  shows "\<exists>s'. r = Some s' \<and> lifecycle_reachable s'"
  using next_ok [OF reachable_ok [OF assms(1)] assms(2,3)] lifecycle_reachable.Step [OF assms(1,2)] assms(3) by auto

theorem one_run_never_panics_witness:
  "\<exists>s'. stop_service new_lifecycle = Some s' \<and> lifecycle_reachable s'"
  by (rule one_run_never_panics [OF lifecycle_reachable.New, of Call_Stop]) (simp_all add: orderly_def)

text \<open>When the service has been stopped and every Stop has returned, the ticker loop has ended.\<close>

theorem stopped_means_loop_ended:
  assumes "lifecycle_reachable s" and "\<not> lf_running s" and "list_all (\<lambda>p. p = Stop_Returned) (lf_stops s)"
  shows "list_all (\<lambda>l. l = Loop_Ended) (lf_loops s)"
proof (cases "idle s")
  case True
  then show ?thesis by (simp add: idle_def)
next
  case False
  with reachable_ok [OF assms(1)] obtain k b where "started k b s" by (auto simp: lifecycle_ok_def)
  then obtain l where l: "lf_loops s = [l]" "loop_ok b s l"
    and ended: "lf_done_ch s \<in> set (lf_closed s)"
    using assms(2,3) by (auto simp: started_def list_all_iff)
  then show ?thesis by (cases l) (simp_all add: loop_ok_def)
qed

theorem stopped_means_loop_ended_witness: "list_all (\<lambda>l. l = Loop_Ended) (lf_loops new_lifecycle)"
  by (rule stopped_means_loop_ended [OF lifecycle_reachable.New]) (simp_all add: new_lifecycle_def)

text \<open>C16: Stop comes back: once a run has been stopped, the goroutines can always go on by their own
  turns until every Stop has returned and the loop and the subscriber have ended, and no turn of
  theirs can be repeated for ever.\<close>

theorem stop_returns:
  assumes "lifecycle_reachable s" and "\<not> lf_running s"
  shows "(\<exists>as s'. list_all internal as \<and> lifecycle_run as s = Some (Some s') \<and> settled s')
    \<and> wf {(s2, s1). \<exists>a. internal a \<and> lifecycle_next a s1 = Some (Some s2)}"
proof
  show "\<exists>as s'. list_all internal as \<and> lifecycle_run as s = Some (Some s') \<and> settled s'"
  proof (cases "idle s")
    case True
    then show ?thesis by (intro exI [of _ "[]"] exI [of _ s]) (auto simp: idle_def settled_def)
  next
    case False
    with reachable_ok [OF assms(1)] obtain k b where "started k b s" by (auto simp: lifecycle_ok_def)
    then show ?thesis using assms(2) by (rule settles)
  qed
  show "wf {(s2, s1). \<exists>a. internal a \<and> lifecycle_next a s1 = Some (Some s2)}"
    by (rule wf_subset [OF wf_measure [of turns_left]]) (auto dest: turn_decreases)
qed

theorem stop_returns_witness:
  "(\<exists>as s'. list_all internal as \<and> lifecycle_run as new_lifecycle = Some (Some s') \<and> settled s')
    \<and> wf {(s2, s1). \<exists>a. internal a \<and> lifecycle_next a s1 = Some (Some s2)}"
  by (rule stop_returns [OF lifecycle_reachable.New]) (simp add: new_lifecycle_def)

text \<open>A service started again before the Stop of its first run has come back can panic: the old
  loop takes the new done channel for its own, and the two loops close it twice.\<close>

theorem restart_during_stop_panics:
  "lifecycle_run
     [Call_Start True, Call_Stop, Call_Start True, Loop_Turn 0, Loop_Turn 1, Loop_Turn 0, Call_Stop, Loop_Turn 1]
     new_lifecycle = Some None"
  by code_simp

text \<open>Stop does not wait for a subscriber that has not come to run yet; after a restart the old
  subscriber and the new one can take the same channel and close it twice.\<close>

theorem late_subscriber_panics:
  "map_option (map_option lf_stops) (lifecycle_run
     [Call_Start True, Call_Stop, Stop_Turn 0, Loop_Turn 0, Loop_Turn 0, Stop_Turn 0] new_lifecycle)
     = Some (Some [Stop_Returned])
   \<and> lifecycle_run
     [Call_Start True, Call_Stop, Stop_Turn 0, Loop_Turn 0, Loop_Turn 0, Stop_Turn 0, Call_Start True,
      Sub_Turn False 0, Sub_Turn False 1, Sub_Turn False 0, Sub_Turn False 1, Sub_Turn True 0, Sub_Turn True 1]
     new_lifecycle = Some None"
  by code_simp

end
