(* ===== verification/Http_Handler.thy ===== *)
theory Http_Handler
  imports Personalized_Content
begin

text \<open>
  The HTTP interface (cmd/server/handler, internal/delivery/http/dto): the content query and
  its validation, the four endpoints, and the response envelope. Binding a query to its
  parameters is gin's work and a parameter here, with the struct tags as its law; the body of
  a flush request is decoded by encoding/json. A handler yields the service after it and the
  reply it wrote, if any; the outer None is a panic.
\<close>

section \<open>dto/content.go: the query and its tags\<close>

record content_query =
  cq_request_type :: string
  cq_mode :: string
  cq_channel :: string
  cq_placements :: "string list"
  cq_customer_id :: string
  cq_customer_id_type :: string
  cq_page_size :: int

section \<open>validator.go\<close>

text \<open>The regular expression for ten ASCII digits.\<close>

definition ten_digit_numeric :: "string \<Rightarrow> bool" where
  "ten_digit_numeric s = (length s = 10 \<and> list_all is_digit s)"

text \<open>The id type is None when the parent struct has no such field.\<close>

definition validate_customer_id_format :: "string \<Rightarrow> string option \<Rightarrow> bool" where
  "validate_customer_id_format val id_type =
     (if val = [] then True
      else
        (case id_type of
           None \<Rightarrow> True
         | Some t \<Rightarrow>
             if t = customer_cis_id \<or> t = customer_ip_id then ten_digit_numeric val else True))"

record field_error =
  fe_field :: string
  fe_tag :: string
  fe_param :: string
  fe_text :: string

definition message_translator :: "field_error \<Rightarrow> string" where
  "message_translator fe =
     (if fe_tag fe = ''required'' then ''This field is required''
      else if fe_tag fe = ''oneof'' then ''This field must be one of: '' @ fe_param fe
      else if fe_tag fe = ''required_if'' then ''This field is required when the specified condition is met''
      else if fe_tag fe = ''min'' then ''At least '' @ fe_param fe @ '' item,length(s) are required''
      else if fe_tag fe = ''max'' then ''At most '' @ fe_param fe @ '' item,length(s) are allowed''
      else if fe_tag fe = ''numeric'' then ''This field must be a numeric string''
      else if fe_tag fe = ''len'' then ''This field must be exactly '' @ fe_param fe @ '' characters long''
      else if fe_tag fe = ''customer_id_format'' then ''Must be a 10-digit numeric string''
      else fe_text fe)"

text \<open>The binding tags of ContentRequestQueryParams.\<close>

definition content_tags :: "content_query \<Rightarrow> bool" where
  "content_tags q =
     (request_type_valid (cq_request_type q)
      \<and> (cq_mode q = ''knownContent'' \<or> cq_mode q = ''logicalBased'' \<or> cq_mode q = ''contentType''
         \<or> cq_mode q = ''articleCategory'')
      \<and> cq_channel q \<noteq> []
      \<and> cq_placements q \<noteq> [] \<and> list_all (\<lambda>p. p \<noteq> []) (cq_placements q)
      \<and> cq_customer_id q \<noteq> []
      \<and> validate_customer_id_format (cq_customer_id q) (Some (cq_customer_id_type q))
      \<and> (cq_customer_id_type q = customer_cis_id \<or> cq_customer_id_type q = customer_ip_id
         \<or> cq_customer_id_type q = customer_kplus_mobile \<or> cq_customer_id_type q = customer_line_uuid)
      \<and> (cq_page_size q = 0 \<or> cq_page_size q \<le> 2000))"

text \<open>An error of ShouldBindQuery: the failed tags, or a query that does not parse.\<close>

datatype bind_error =
    Validation_Errors "field_error list"
  | Malformed_Query string

record 'q query_binding =
  qb_content :: "'q \<Rightarrow> bind_error + content_query"
  qb_key :: "'q \<Rightarrow> string option"

definition binds_by_tags :: "'q query_binding \<Rightarrow> bool" where
  "binds_by_tags B =
     ((\<forall>q p. qb_content B q = Inr p \<longrightarrow> content_tags p) \<and> (\<forall>q k. qb_key B q = Some k \<longrightarrow> k \<noteq> []))"

section \<open>dto/response.go\<close>

datatype response_data =
    Data_Results "content_result list"
  | Data_Invalid "(string \<times> string) list"
  | Data_Status bool f64 "string list"
  | Data_Value raw_json
  | Data_Message string

record pagination =
  pg_page :: int
  pg_limit :: int
  pg_total_items :: int
  pg_total_pages :: int

record api_response =
  ar_code :: string
  ar_error :: string
  ar_data :: "response_data option"
  ar_pagination :: "pagination option"

definition success_response :: string where "success_response = ''SUCCESS''"
definition error_bad_request :: string where "error_bad_request = ''ERROR_BAD_REQUEST''"
definition error_internal :: string where "error_internal = ''ERROR_INTERNAL_ERROR''"

definition to_success :: "api_response \<Rightarrow> api_response" where
  "to_success r = (if ar_code r = [] \<and> ar_error r = [] then r\<lparr>ar_code := success_response\<rparr> else r)"

text \<open>MarshalJSON, with the encoding of the data and of the pagination as arguments.\<close>

definition marshal_response ::
  "(response_data \<Rightarrow> string) \<Rightarrow> (pagination \<Rightarrow> string) \<Rightarrow> api_response \<Rightarrow> string" where
  "marshal_response enc_data enc_page r =
     (let r = (if ar_code r = [] then to_success r else r) in
      CHR 0x7B # join '',''
        ([key_colon ''code'' (quote (ar_code r))]
         @ (if ar_error r = [] then [] else [key_colon ''error'' (quote (ar_error r))])
         @ (case ar_data r of None \<Rightarrow> [] | Some d \<Rightarrow> [key_colon ''data'' (enc_data d)])
         @ (case ar_pagination r of None \<Rightarrow> [] | Some p \<Rightarrow> [key_colon ''pagination'' (enc_page p)])) @ [CHR 0x7D])"

definition data_response :: "response_data \<Rightarrow> api_response" where
  "data_response d = \<lparr>ar_code = [], ar_error = [], ar_data = Some d, ar_pagination = None\<rparr>"

definition error_response :: "string \<Rightarrow> string \<Rightarrow> response_data option \<Rightarrow> api_response" where
  "error_response cd text d = \<lparr>ar_code = cd, ar_error = text, ar_data = d, ar_pagination = None\<rparr>"

type_synonym reply = "int \<times> api_response"

section \<open>handler.go\<close>

definition customer_of :: "content_query \<Rightarrow> customer_request" where
  "customer_of q =
     (let c = \<lparr>cu_type = cq_customer_id_type q, cu_cis_id = [], cu_ip_id = [], cu_kplus_mobile = [], cu_line_uuid = []\<rparr> in
      if cq_customer_id_type q = customer_cis_id then c\<lparr>cu_cis_id := cq_customer_id q\<rparr>
      else if cq_customer_id_type q = customer_ip_id then c\<lparr>cu_ip_id := cq_customer_id q\<rparr>
      else if cq_customer_id_type q = customer_kplus_mobile then c\<lparr>cu_kplus_mobile := cq_customer_id q\<rparr>
      else if cq_customer_id_type q = customer_line_uuid then c\<lparr>cu_line_uuid := cq_customer_id q\<rparr>
      else c)"

definition first_page :: "int \<Rightarrow> 'a list \<Rightarrow> 'a list" where
  "first_page n xs = (if n > 0 \<and> int (length xs) > n then take (nat n) xs else xs)"

definition get_content ::
  "'q query_binding \<Rightarrow> (service_error \<Rightarrow> string) \<Rightarrow> ('c, 'w) service_deps \<Rightarrow> 'q \<Rightarrow> ('c, 'w) service
    \<Rightarrow> (reply option \<times> ('c, 'w) service) option" where
  "get_content B text_of E q s =
     (case qb_content B q of
        Inl (Validation_Errors fes) \<Rightarrow>
          Some (Some (400, error_response error_bad_request ''Invalid query parameters''
            (Some (Data_Invalid (map (\<lambda>fe. (fe_field fe, message_translator fe)) fes)))), s)
      | Inl (Malformed_Query _) \<Rightarrow> Some (None, s)
      | Inr req \<Rightarrow>
          do { (r, s) \<leftarrow> get_personalized_content E (Some (customer_of req)) (cq_channel req) (cq_placements req) s;
               case r of
                 Inl e \<Rightarrow> Some (Some (500, error_response error_internal (text_of e) None), s)
               | Inr results \<Rightarrow>
                   Some (Some (200, data_response (Data_Results (first_page (cq_page_size req) (to_responses results)))), s) })"

definition get_status_reply ::
  "('c, 'w) service_deps \<Rightarrow> ('c, 'w) service \<Rightarrow> (reply option \<times> ('c, 'w) service) option" where
  "get_status_reply E s =
     do { (pressure, pct) \<leftarrow> get_cache_status s;
          keys \<leftarrow> get_cache_keys E s;
          Some (Some (200, data_response (Data_Status pressure pct keys)), s) }"

definition get_value_reply ::
  "'q query_binding \<Rightarrow> (service_error \<Rightarrow> string) \<Rightarrow> ('c, 'w) service_deps \<Rightarrow> 'q \<Rightarrow> ('c, 'w) service
    \<Rightarrow> (reply option \<times> ('c, 'w) service) option" where
  "get_value_reply B text_of E q s =
     (case qb_key B q of
        None \<Rightarrow> Some (Some (400, error_response error_bad_request ''Missing required 'key' query parameter'' None), s)
      | Some key \<Rightarrow>
          do { r \<leftarrow> get_cache_value E key s;
               Some (Some (case r of
                 Inl e \<Rightarrow> (500, error_response error_internal (text_of e) None)
               | Inr text \<Rightarrow> (200, data_response (Data_Value text))), s) })"

record flush_request =
  fr_placements :: "string list"
  fr_is_evaluate :: bool

definition flush_request_fields :: "flush_request field list" where
  "flush_request_fields =
     [mk_field ''placements'' (dec_slice dec_string []) fr_placements (\<lambda>v. fr_placements_update (\<lambda>_. v)),
      mk_field ''isEvaluate'' dec_bool fr_is_evaluate (\<lambda>v. fr_is_evaluate_update (\<lambda>_. v))]"

text \<open>
  ShouldBindJSON decodes the first JSON value of the body; its error is ignored, and what was
  decoded before the error stays. A missing body is None.
\<close>

definition bind_flush :: "string option \<Rightarrow> flush_request" where
  "bind_flush body =
     (let zero = \<lparr>fr_placements = [], fr_is_evaluate = False\<rparr> in
      case body of
        None \<Rightarrow> zero
      | Some text \<Rightarrow>
          (case parse_value 0 (skip_ws text) of
             None \<Rightarrow> zero
           | Some (v, rest) \<Rightarrow> fst (dec_struct flush_request_fields zero (raw_text (skip_ws text) rest, v))))"

definition flush_reply ::
  "('c, 'w) service_deps \<Rightarrow> string option \<Rightarrow> ('c, 'w) service \<Rightarrow> (reply option \<times> ('c, 'w) service) option" where
  "flush_reply E body s =
     (let req = bind_flush body in
      do { s \<leftarrow> flush_cache E (fr_placements req) (fr_is_evaluate req) s;
           Some (Some (200, data_response (Data_Message ''flushed'')), s) })"

section \<open>routes.go\<close>

datatype endpoint = Get_Content | Get_Status | Get_Cache_Value | Flush_Cache

definition routes :: "string \<Rightarrow> ((string \<times> string) \<times> endpoint) list" where
  "routes pre =
     [((''GET'', pre @ ''/personalized-content''), Get_Content),
      ((''GET'', pre @ ''/purge_requests''), Get_Status),
      ((''GET'', pre @ ''/purge_requests/value''), Get_Cache_Value),
      ((''POST'', pre @ ''/purge_requests''), Flush_Cache)]"

definition serve_endpoint ::
  "'q query_binding \<Rightarrow> (service_error \<Rightarrow> string) \<Rightarrow> ('c, 'w) service_deps \<Rightarrow> endpoint \<Rightarrow> 'q \<Rightarrow> string option
    \<Rightarrow> ('c, 'w) service \<Rightarrow> (reply option \<times> ('c, 'w) service) option" where
  "serve_endpoint B text_of E ep q body s =
     (case ep of
        Get_Content \<Rightarrow> get_content B text_of E q s
      | Get_Status \<Rightarrow> get_status_reply E s
      | Get_Cache_Value \<Rightarrow> get_value_reply B text_of E q s
      | Flush_Cache \<Rightarrow> flush_reply E body s)"

end
