(* ===== verification/Clen_Client.thy ===== *)
theory Clen_Client
  imports Personalized_Content
begin

text \<open>
  The clients of the CLEN services (internal/http/client, pkg/util/httpclient) and the
  repositories that adapt them to the delivery service (internal/repository/clen_*.go). The
  HTTP library is a parameter: from settings and a request to an error, or a status and a
  body. Request identifiers and the time are read from the world. A nil client is None.
\<close>

section \<open>strconv\<close>

text \<open>ParseInt(s, 10, 64); None is either of its errors.\<close>

definition parse_int64 :: "string \<Rightarrow> int option" where
  "parse_int64 s =
     (case s of
        [] \<Rightarrow> None
      | c # cs \<Rightarrow>
          (let ds = (if c = CHR ''-'' \<or> c = CHR ''+'' then cs else s);
               v = (if c = CHR ''-'' then - digits_int 0 ds else digits_int 0 ds) in
           if ds \<noteq> [] \<and> list_all is_digit ds \<and> - 9223372036854775808 \<le> v \<and> v < 9223372036854775808 then Some v else None))"

text \<open>A JSON number decoded into an int64 must be an integer literal in range.\<close>

definition dec_int64 :: "int decoder" where
  "dec_int64 old x =
     (case snd x of
        JNull \<Rightarrow> (old, True)
      | JNum l \<Rightarrow> (case parse_int64 l of Some v \<Rightarrow> (v, True) | None \<Rightarrow> (old, False))
      | _ \<Rightarrow> (old, False))"

section \<open>httpclient.NewRestClient\<close>

record rest_config =
  rt_base_url :: string
  rt_timeout :: duration
  rt_retry_count :: int
  rt_retry_wait :: duration
  rt_retry_max_wait :: duration

record rest_settings =
  rs_base_url :: "string option"
  rs_timeout :: duration
  rs_retry_count :: int
  rs_retry_wait :: duration
  rs_retry_max_wait :: "duration option"

definition new_rest_client :: "rest_config \<Rightarrow> rest_settings" where
  "new_rest_client c =
     \<lparr>rs_base_url = (if rt_base_url c \<noteq> [] then Some (rt_base_url c) else None),
      rs_timeout = (if rt_timeout c = 0 then 15 * second_ns else rt_timeout c),
      rs_retry_count = (if rt_retry_count c = 0 then 3 else rt_retry_count c),
      rs_retry_wait = (if rt_retry_wait c = 0 then 2 * second_ns else rt_retry_wait c),
      rs_retry_max_wait = (if rt_retry_max_wait c > 0 then Some (rt_retry_max_wait c) else None)\<rparr>"

section \<open>Requests\<close>

record source_request =
  sr_datasource :: string
  sr_required_fields :: "string list"

record profile_request =
  pr_cis_id :: string
  pr_sources :: "source_request list"

record http_request =
  hr_method :: string
  hr_path :: string
  hr_headers :: "(string \<times> string) list"
  hr_query :: "(string \<times> string) list"
  hr_body :: "profile_request option"

record 'w http_library =
  ht_send :: "rest_settings \<Rightarrow> 'w \<Rightarrow> http_request \<Rightarrow> (string + int \<times> string) \<times> 'w"
  ht_new_id :: "'w \<Rightarrow> string \<times> 'w"
  ht_now :: "'w \<Rightarrow> gotime"

text \<open>\<open>time.Now().UTC().Format("2006-01-02T15:04:05.000")\<close>: milliseconds, truncated.\<close>

definition pad3 :: "int \<Rightarrow> string" where
  "pad3 n = (if n < 10 then ''00'' else if n < 100 then ''0'' else []) @ nat_digits (nat n)"

definition format_millis :: "gotime \<Rightarrow> string" where
  "format_millis t =
     (let secs = tm_ns t div second_ns;
          (y, m, d) = civil_from_days (secs div 86400);
          r = secs mod 86400 in
      pad4 y @ ''-'' @ pad2 m @ ''-'' @ pad2 d @ ''T''
        @ pad2 (r div 3600) @ '':'' @ pad2 (r mod 3600 div 60) @ '':'' @ pad2 (r mod 60)
        @ ''.'' @ pad3 (tm_ns t mod second_ns div 1000000))"

definition trace_headers ::
  "'w http_library \<Rightarrow> string \<Rightarrow> string \<Rightarrow> 'w \<Rightarrow> (string \<times> string) list \<times> 'w" where
  "trace_headers H api_key app_identifier w =
     (let (i, w) = ht_new_id H w in
      ([(''X-Api-Key'', api_key), (''Request-Identifier'', i),
        (''Request-Application-Identifier'', app_identifier),
        (''Request-Datetime'', format_millis (time_utc (ht_now H w)))], w))"

section \<open>Errors\<close>

datatype clen_error =
    Not_Numeric string
  | Call_Failed string
  | Bad_Status int string
  | Not_Decoded

definition snippet :: "string \<Rightarrow> string" where
  "snippet body = (if length body > 200 then take 200 body else body)"

section \<open>clen_lead_client.go\<close>

record lead_config =
  lg_base_url :: string
  lg_path :: string
  lg_api_key :: string
  lg_app_identifier :: string
  lg_timeout :: duration
  lg_retry_count :: int
  lg_expire_filter :: string

definition lead_enabled :: "lead_config \<Rightarrow> bool" where
  "lead_enabled c = (lg_base_url c \<noteq> [] \<and> lg_api_key c \<noteq> [])"

definition default_lead_path :: string where
  "default_lead_path = ''/v1/leads/customer-level''"

text \<open>The client is its configuration and the settings of its REST client.\<close>

definition new_lead_client :: "lead_config \<Rightarrow> (lead_config \<times> rest_settings) option" where
  "new_lead_client cfg =
     (if \<not> lead_enabled cfg then None
      else
        (let cfg = (if lg_path cfg = [] then cfg\<lparr>lg_path := default_lead_path\<rparr> else cfg) in
         Some (cfg, new_rest_client
           \<lparr>rt_base_url = lg_base_url cfg, rt_timeout = lg_timeout cfg, rt_retry_count = lg_retry_count cfg,
            rt_retry_wait = 0, rt_retry_max_wait = 0\<rparr>)))"

definition non_empty :: "string list \<Rightarrow> string list" where
  "non_empty ss = filter (\<lambda>s. s \<noteq> []) ss"

definition lead_request ::
  "lead_config \<Rightarrow> int \<Rightarrow> string \<Rightarrow> string list \<Rightarrow> (string \<times> string) list \<Rightarrow> http_request" where
  "lead_request cfg ip_id cnl placements headers =
     \<lparr>hr_method = ''GET'', hr_path = lg_path cfg, hr_headers = headers,
      hr_query =
        [(''ip_id'', itoa ip_id)]
        @ (if lg_expire_filter cfg \<noteq> [] then [(''exp_f'', lg_expire_filter cfg)] else [])
        @ (if cnl \<noteq> [] then [(''chnl'', cnl)] else [])
        @ map (Pair ''placement'') (non_empty placements),
      hr_body = None\<rparr>"

definition get_leads_raw ::
  "'w http_library \<Rightarrow> (lead_config \<times> rest_settings) option \<Rightarrow> string \<Rightarrow> string \<Rightarrow> string list \<Rightarrow> 'w
    \<Rightarrow> (clen_error + raw_response) \<times> 'w" where
  "get_leads_raw H client cis_id cnl placements w =
     (case client of
        None \<Rightarrow> (Inr \<lparr>rw_status = 200, rw_body = ''[]''\<rparr>, w)
      | Some (cfg, settings) \<Rightarrow>
          if cis_id = [] then (Inr \<lparr>rw_status = 200, rw_body = ''[]''\<rparr>, w)
          else
            (case parse_int64 cis_id of
               None \<Rightarrow> (Inl (Not_Numeric cis_id), w)
             | Some ip_id \<Rightarrow>
                 (let (headers, w) = trace_headers H (lg_api_key cfg) (lg_app_identifier cfg) w;
                      (r, w) = ht_send H settings w (lead_request cfg ip_id cnl placements headers) in
                  (case r of
                     Inl e \<Rightarrow> Inl (Call_Failed e)
                   | Inr (status, body) \<Rightarrow> Inr \<lparr>rw_status = status, rw_body = body\<rparr>, w))))"

subsection \<open>The response\<close>

record clen_lead =
  cl_lead_id :: string
  cl_lead_type :: string
  cl_lead_status :: string
  cl_content_id :: string
  cl_csvm_code :: string
  cl_rmst_code :: string
  cl_campaign_name :: string
  cl_expire_date :: string
  cl_assigned_date :: string
  cl_sla_start :: string
  cl_sla_end :: string
  cl_show_sla :: bool
  cl_final_score :: string
  cl_placements :: "string list"

definition zero_clen_lead :: clen_lead where
  "zero_clen_lead =
     \<lparr>cl_lead_id = [], cl_lead_type = [], cl_lead_status = [], cl_content_id = [], cl_csvm_code = [],
      cl_rmst_code = [], cl_campaign_name = [], cl_expire_date = [], cl_assigned_date = [], cl_sla_start = [],
      cl_sla_end = [], cl_show_sla = False, cl_final_score = [], cl_placements = []\<rparr>"

definition clen_lead_fields :: "clen_lead field list" where
  "clen_lead_fields =
     [mk_field ''lead_id'' dec_string cl_lead_id (\<lambda>v. cl_lead_id_update (\<lambda>_. v)),
      mk_field ''lead_tp'' dec_string cl_lead_type (\<lambda>v. cl_lead_type_update (\<lambda>_. v)),
      mk_field ''lead_st'' dec_string cl_lead_status (\<lambda>v. cl_lead_status_update (\<lambda>_. v)),
      mk_field ''cntnt_id'' dec_string cl_content_id (\<lambda>v. cl_content_id_update (\<lambda>_. v)),
      mk_field ''csvm_cmpgn_cd'' dec_string cl_csvm_code (\<lambda>v. cl_csvm_code_update (\<lambda>_. v)),
      mk_field ''rmst_cmpgn_cd'' dec_string cl_rmst_code (\<lambda>v. cl_rmst_code_update (\<lambda>_. v)),
      mk_field ''cmpgn_nm'' dec_string cl_campaign_name (\<lambda>v. cl_campaign_name_update (\<lambda>_. v)),
      mk_field ''exp_dt'' dec_string cl_expire_date (\<lambda>v. cl_expire_date_update (\<lambda>_. v)),
      mk_field ''asgn_dt'' dec_string cl_assigned_date (\<lambda>v. cl_assigned_date_update (\<lambda>_. v)),
      mk_field ''sla_strt_dt'' dec_string cl_sla_start (\<lambda>v. cl_sla_start_update (\<lambda>_. v)),
      mk_field ''sla_end_dt'' dec_string cl_sla_end (\<lambda>v. cl_sla_end_update (\<lambda>_. v)),
      mk_field ''show_sla_cnt_down'' dec_bool cl_show_sla (\<lambda>v. cl_show_sla_update (\<lambda>_. v)),
      mk_field ''fnl_scor'' dec_string cl_final_score (\<lambda>v. cl_final_score_update (\<lambda>_. v)),
      mk_field ''placement'' (dec_slice dec_string []) cl_placements (\<lambda>v. cl_placements_update (\<lambda>_. v))]"

record clen_lead_group =
  cg_ip_id :: int
  cg_id_num :: string
  cg_leads :: "clen_lead list"

definition zero_clen_lead_group :: clen_lead_group where
  "zero_clen_lead_group = \<lparr>cg_ip_id = 0, cg_id_num = [], cg_leads = []\<rparr>"

definition clen_lead_group_fields :: "clen_lead_group field list" where
  "clen_lead_group_fields =
     [mk_field ''ip_id'' dec_int64 cg_ip_id (\<lambda>v. cg_ip_id_update (\<lambda>_. v)),
      mk_field ''id_num'' dec_string cg_id_num (\<lambda>v. cg_id_num_update (\<lambda>_. v)),
      mk_field ''list_lead'' (dec_slice (dec_struct clen_lead_fields) zero_clen_lead) cg_leads
        (\<lambda>v. cg_leads_update (\<lambda>_. v))]"

definition decode_lead_groups :: "string \<Rightarrow> clen_lead_group list option" where
  "decode_lead_groups body =
     (if body = [] then Some []
      else
        (case unmarshal (dec_slice (dec_struct clen_lead_group_fields) zero_clen_lead_group) [] body of
           (groups, ok) \<Rightarrow> if ok then Some groups else None))"

definition to_lead :: "clen_lead \<Rightarrow> lead" where
  "to_lead l =
     \<lparr>ld_id = cl_lead_id l, ld_type = cl_lead_type l, ld_status = cl_lead_status l,
      ld_content_id = cl_content_id l, ld_csvm_code = cl_csvm_code l, ld_rmst_code = cl_rmst_code l,
      ld_campaign_name = cl_campaign_name l, ld_expire_date = cl_expire_date l,
      ld_assigned_date = cl_assigned_date l, ld_sla_start = cl_sla_start l, ld_sla_end = cl_sla_end l,
      ld_show_countdown = cl_show_sla l, ld_final_score = cl_final_score l, ld_placements = cl_placements l\<rparr>"

text \<open>The loop over the groups: the first group of the customer decides.\<close>

fun leads_of_customer :: "int \<Rightarrow> clen_lead_group list \<Rightarrow> lead list" where
  "leads_of_customer ip_id [] = []"
| "leads_of_customer ip_id (g # gs) =
     (if cg_ip_id g \<noteq> ip_id then leads_of_customer ip_id gs else map to_lead (cg_leads g))"

definition get_leads ::
  "'w http_library \<Rightarrow> (lead_config \<times> rest_settings) option \<Rightarrow> string \<Rightarrow> string \<Rightarrow> string list \<Rightarrow> 'w
    \<Rightarrow> (clen_error + lead list) \<times> 'w" where
  "get_leads H client cis_id cnl placements w =
     (if client = None \<or> cis_id = [] then (Inr [], w)
      else
        (case parse_int64 cis_id of
           None \<Rightarrow> (Inl (Not_Numeric cis_id), w)
         | Some ip_id \<Rightarrow>
             (let (r, w) = get_leads_raw H client cis_id cnl placements w in
              (case r of
                 Inl e \<Rightarrow> Inl e
               | Inr raw \<Rightarrow>
                   if rw_status raw \<ge> 400 then Inl (Bad_Status (rw_status raw) (snippet (rw_body raw)))
                   else
                     (case decode_lead_groups (rw_body raw) of
                        None \<Rightarrow> Inl Not_Decoded
                      | Some groups \<Rightarrow> Inr (leads_of_customer ip_id groups)), w))))"

section \<open>clen_customer_profile_client.go\<close>

record profile_config =
  pc_base_url :: string
  pc_path :: string
  pc_api_key :: string
  pc_app_identifier :: string
  pc_timeout :: duration
  pc_retry_count :: int

definition profile_enabled :: "profile_config \<Rightarrow> bool" where
  "profile_enabled c = (pc_base_url c \<noteq> [] \<and> pc_api_key c \<noteq> [])"

definition default_profile_path :: string where
  "default_profile_path = ''/v1/customers/query''"

definition new_profile_client :: "profile_config \<Rightarrow> (profile_config \<times> rest_settings) option" where
  "new_profile_client cfg =
     (if \<not> profile_enabled cfg then None
      else
        (let cfg = (if pc_path cfg = [] then cfg\<lparr>pc_path := default_profile_path\<rparr> else cfg) in
         Some (cfg, new_rest_client
           \<lparr>rt_base_url = pc_base_url cfg, rt_timeout = pc_timeout cfg, rt_retry_count = pc_retry_count cfg,
            rt_retry_wait = 0, rt_retry_max_wait = 0\<rparr>)))"

definition profile_http_request ::
  "profile_config \<Rightarrow> profile_request \<Rightarrow> (string \<times> string) list \<Rightarrow> http_request" where
  "profile_http_request cfg body headers =
     \<lparr>hr_method = ''POST'', hr_path = pc_path cfg,
      hr_headers = (''Content-Type'', ''application/json'') # headers, hr_query = [], hr_body = Some body\<rparr>"

definition get_profile_raw ::
  "'w http_library \<Rightarrow> (profile_config \<times> rest_settings) option \<Rightarrow> profile_request \<Rightarrow> 'w
    \<Rightarrow> (clen_error + raw_response) \<times> 'w" where
  "get_profile_raw H client body w =
     (case client of
        None \<Rightarrow> (Inr \<lparr>rw_status = 200, rw_body = ''{}''\<rparr>, w)
      | Some (cfg, settings) \<Rightarrow>
          if pr_cis_id body = [] then (Inr \<lparr>rw_status = 200, rw_body = ''{}''\<rparr>, w)
          else
            (let (headers, w) = trace_headers H (pc_api_key cfg) (pc_app_identifier cfg) w;
                 (r, w) = ht_send H settings w (profile_http_request cfg body headers) in
             (case r of
                Inl e \<Rightarrow> Inl (Call_Failed e)
              | Inr (status, text) \<Rightarrow> Inr \<lparr>rw_status = status, rw_body = text\<rparr>, w)))"

subsection \<open>The decoded view\<close>

text \<open>
  A value decoded into an interface keeps its JSON tree; its numbers have to fit a float64,
  else Unmarshal reports an error.
\<close>

fun numbers_fit :: "json \<Rightarrow> bool" where
  "numbers_fit (JNum l) = (parse_float l \<noteq> None)"
| "numbers_fit (JArr xs) = list_all (\<lambda>x. numbers_fit (snd x)) xs"
| "numbers_fit (JObj ms) = list_all (\<lambda>m. numbers_fit (snd (snd m))) ms"
| "numbers_fit _ = True"

definition dec_any_map :: "(string, json) gomap decoder" where
  "dec_any_map old x =
     (case snd x of
        JNull \<Rightarrow> ([], True)
      | JObj ms \<Rightarrow> (foldl (\<lambda>m (k, raw, v). gm_put k v m) old ms, list_all (\<lambda>m. numbers_fit (snd (snd m))) ms)
      | _ \<Rightarrow> (old, False))"

definition dec_string_ptr :: "string option decoder" where
  "dec_string_ptr old x =
     (case snd x of JNull \<Rightarrow> (None, True) | JStr s \<Rightarrow> (Some s, True) | _ \<Rightarrow> (old, False))"

record profile_result =
  po_datasource :: string
  po_status :: string
  po_data :: "(string, json) gomap"
  po_error :: "string option"

definition profile_result_fields :: "profile_result field list" where
  "profile_result_fields =
     [mk_field ''datasource'' dec_string po_datasource (\<lambda>v. po_datasource_update (\<lambda>_. v)),
      mk_field ''status'' dec_string po_status (\<lambda>v. po_status_update (\<lambda>_. v)),
      mk_field ''data'' dec_any_map po_data (\<lambda>v. po_data_update (\<lambda>_. v)),
      mk_field ''error_message'' dec_string_ptr po_error (\<lambda>v. po_error_update (\<lambda>_. v))]"

record profile_response =
  pn_cis_id :: string
  pn_results :: "profile_result list"
  pn_queried :: int
  pn_success :: int

definition profile_response_fields :: "profile_response field list" where
  "profile_response_fields =
     [mk_field ''cis_id'' dec_string pn_cis_id (\<lambda>v. pn_cis_id_update (\<lambda>_. v)),
      mk_field ''results''
        (dec_slice (dec_struct profile_result_fields) \<lparr>po_datasource = [], po_status = [], po_data = [], po_error = None\<rparr>)
        pn_results (\<lambda>v. pn_results_update (\<lambda>_. v)),
      mk_field ''total_sources_queried'' dec_int64 pn_queried (\<lambda>v. pn_queried_update (\<lambda>_. v)),
      mk_field ''total_sources_success'' dec_int64 pn_success (\<lambda>v. pn_success_update (\<lambda>_. v))]"

definition decode_profile_response :: "string \<Rightarrow> profile_response option" where
  "decode_profile_response body =
     (case unmarshal (dec_struct profile_response_fields)
        \<lparr>pn_cis_id = [], pn_results = [], pn_queried = 0, pn_success = 0\<rparr> body of
        (r, ok) \<Rightarrow> if ok then Some r else None)"

record customer_profile =
  cp_cis_id :: string
  cp_sources :: "(string, (string, json) gomap) gomap"

definition successful_sources :: "profile_result list \<Rightarrow> (string, (string, json) gomap) gomap" where
  "successful_sources rs =
     foldl (\<lambda>m r. if po_status r \<noteq> ''success'' \<or> po_data r = [] then m
                  else gm_put (po_datasource r) (po_data r) m) [] rs"

definition get_profile ::
  "'w http_library \<Rightarrow> (profile_config \<times> rest_settings) option \<Rightarrow> profile_request \<Rightarrow> 'w
    \<Rightarrow> (clen_error + customer_profile option) \<times> 'w" where
  "get_profile H client body w =
     (if client = None \<or> pr_cis_id body = [] then (Inr None, w)
      else
        (let (r, w) = get_profile_raw H client body w in
         (case r of
            Inl e \<Rightarrow> Inl e
          | Inr raw \<Rightarrow>
              if rw_status raw \<ge> 400 then Inl (Bad_Status (rw_status raw) (snippet (rw_body raw)))
              else if rw_body raw = [] then Inr None
              else
                (case decode_profile_response (rw_body raw) of
                   None \<Rightarrow> Inl Not_Decoded
                 | Some decoded \<Rightarrow>
                     (let sources = successful_sources (pn_results decoded) in
                      if sources = [] then Inr None
                      else Inr (Some \<lparr>cp_cis_id = pn_cis_id decoded, cp_sources = sources\<rparr>))), w)))"

section \<open>clen_lead_repository.go, clen_customer_profile_repository.go\<close>

text \<open>
  The adapters the service is wired with; the text of an error is only logged, and is a
  parameter. The repository itself is never nil here, its client may be.
\<close>

definition lead_repository ::
  "(clen_error \<Rightarrow> string) \<Rightarrow> 'w http_library \<Rightarrow> (lead_config \<times> rest_settings) option \<Rightarrow> 'w \<Rightarrow> lead_query
    \<Rightarrow> (string + lead list) \<times> 'w" where
  "lead_repository text_of H client w q =
     (case client of
        None \<Rightarrow> (Inr [], w)
      | Some c \<Rightarrow>
          (case get_leads H (Some c) (lq_cis_id q) (lq_channel q) (lq_placements q) w of
             (Inl e, w) \<Rightarrow> (Inl (text_of e), w)
           | (Inr leads, w) \<Rightarrow> (Inr leads, w)))"

definition to_client_request :: "profile_query \<Rightarrow> profile_request" where
  "to_client_request q =
     \<lparr>pr_cis_id = pq_cis_id q,
      pr_sources = map (\<lambda>ds. \<lparr>sr_datasource = ps_datasource ds, sr_required_fields = ps_required_fields ds\<rparr>)
        (pq_sources q)\<rparr>"

definition profile_repository ::
  "(clen_error \<Rightarrow> string) \<Rightarrow> 'w http_library \<Rightarrow> (profile_config \<times> rest_settings) option \<Rightarrow> 'w \<Rightarrow> profile_query
    \<Rightarrow> (string + customer_profile option) \<times> 'w" where
  "profile_repository text_of H client w q =
     (case client of
        None \<Rightarrow> (Inr None, w)
      | Some c \<Rightarrow>
          (case get_profile H (Some c) (to_client_request q) w of
             (Inl e, w) \<Rightarrow> (Inl (text_of e), w)
           | (Inr p, w) \<Rightarrow> (Inr p, w)))"

definition profile_repository_raw ::
  "(clen_error \<Rightarrow> string) \<Rightarrow> 'w http_library \<Rightarrow> (profile_config \<times> rest_settings) option \<Rightarrow> 'w \<Rightarrow> profile_query
    \<Rightarrow> (string + raw_response option) \<times> 'w" where
  "profile_repository_raw text_of H client w q =
     (case client of
        None \<Rightarrow> (Inr (Some \<lparr>rw_status = 200, rw_body = ''{}''\<rparr>), w)
      | Some c \<Rightarrow>
          (case get_profile_raw H (Some c) (to_client_request q) w of
             (Inl e, w) \<Rightarrow> (Inl (text_of e), w)
           | (Inr raw, w) \<Rightarrow> (Inr (Some raw), w)))"

end
