(* ===== verification/Clen_Properties.thy ===== *)
theory Clen_Properties
  imports Clen_Client Evaluator_Properties Sample_Service
begin

text \<open>
  What the service gets from CLEN: the leads of the customer it asks for and of no other, and
  nothing when CLEN is not configured or fails. Each property is followed by an instance.
\<close>

section \<open>Customer numbers\<close>

lemma digits_int_append: "digits_int acc (xs @ ys) = digits_int (digits_int acc xs) ys"
  by (induction acc xs rule: digits_int.induct) simp_all

lemma byte_digit: "d < 10 \<Longrightarrow> byte (chr (48 + d)) = 48 + d"
  by (simp add: of_char_of take_bit_nat_eq_self)

lemma is_digit_chr: "d < 10 \<Longrightarrow> is_digit (chr (48 + d))"
  by (simp add: is_digit_def byte_digit)

lemma nat_digits_read:
  "digits_int 0 (nat_digits n) = int n \<and> list_all is_digit (nat_digits n)"
proof (induction n rule: nat_digits.induct)
  case (1 n)
  show ?case
  proof (cases "n < 10")
    case True
    then show ?thesis by (simp add: nat_digits.simps [of n] dig_def byte_digit is_digit_chr)
  next
    case False
    with 1 have "digits_int 0 (nat_digits (n div 10)) = int (n div 10)" "list_all is_digit (nat_digits (n div 10))"
      by simp_all
    moreover have "int (n div 10) * 10 + int (n mod 10) = int n" by presburger
    ultimately show ?thesis
      using False by (simp add: nat_digits.simps [of n] digits_int_append dig_def byte_digit is_digit_chr)
  qed
qed

lemma parse_int64_itoa:
  assumes "- (2 ^ 63) \<le> i" and "i < 2 ^ 63"
  shows "parse_int64 (itoa i) = Some i"
proof (cases "i < 0")
  case True
  then show ?thesis
    using assms nat_digits_read [of "nat (- i)"] by (simp add: parse_int64_def itoa_def)
next
  case False
  obtain c cs where ds: "nat_digits (nat i) = c # cs" by (cases "nat_digits (nat i)") simp_all
  with nat_digits_read [of "nat i"] have "is_digit c" by simp
  then have "c \<noteq> CHR ''-''" "c \<noteq> CHR ''+''" by (auto simp: is_digit_def)
  with False assms nat_digits_read [of "nat i"] ds show ?thesis by (simp add: parse_int64_def itoa_def)
qed

lemma parse_int64_range: "parse_int64 s = Some i \<Longrightarrow> - (2 ^ 63) \<le> i \<and> i < 2 ^ 63"
  by (auto simp: parse_int64_def Let_def split: list.splits if_splits)

section \<open>Leads\<close>

lemma leads_of_customer_find:
  "leads_of_customer i gs =
     (case find (\<lambda>g. cg_ip_id g = i) gs of None \<Rightarrow> [] | Some g \<Rightarrow> map to_lead (cg_leads g))"
  by (induction gs) simp_all

text \<open>An answer with leads comes from one exchange with CLEN about the customer.\<close>

definition answered ::
  "'w http_library \<Rightarrow> lead_config \<Rightarrow> rest_settings \<Rightarrow> int \<Rightarrow> string \<Rightarrow> string list \<Rightarrow> clen_lead_group list \<Rightarrow> bool" where
  "answered H cfg settings i cnl placements groups =
     (\<exists>headers w w' status body.
        ht_send H settings w (lead_request cfg i cnl placements headers) = (Inr (status, body), w')
        \<and> status < 400 \<and> decode_lead_groups body = Some groups)"

lemma get_leads_answered:
  assumes "get_leads H (Some (cfg, settings)) cis_id cnl placements w = (Inr leads, w')" and "cis_id \<noteq> []"
  obtains i groups where "parse_int64 cis_id = Some i" and "answered H cfg settings i cnl placements groups"
    and "leads = leads_of_customer i groups"
proof -
  from assms obtain i where i: "parse_int64 cis_id = Some i" by (auto simp: get_leads_def split: option.splits)
  obtain headers w1 where h: "trace_headers H (lg_api_key cfg) (lg_app_identifier cfg) w = (headers, w1)" by fastforce
  obtain r w2 where r: "ht_send H settings w1 (lead_request cfg i cnl placements headers) = (r, w2)" by fastforce
  from assms i h r obtain status body groups where "r = Inr (status, body)" "status < 400"
      "decode_lead_groups body = Some groups" "leads = leads_of_customer i groups"
    by (cases r) (auto simp: get_leads_def get_leads_raw_def split: option.splits if_splits)
  with r have "answered H cfg settings i cnl placements groups" unfolding answered_def by blast
  with i \<open>leads = _\<close> that show ?thesis by blast
qed

section \<open>Content\<close>

text \<open>Every result of a request was returned by the evaluator for a requested placement, with the leads fetched for the request.\<close>

lemma content_origin:
  assumes "sd_evaluator E = Some (local_evaluator U)"
    and "get_personalized_content E (Some c) cnl names s = Some (Inr xs, s')" and "x \<in> set xs"
  obtains rules s1 leads s2 name ss attrs rs where "fetch_leads_for_request E c cnl names rules s1 = (leads, s2)"
    and "name \<in> set names" and "local_evaluate U name ss attrs leads = Some rs" and "x \<in> set rs"
proof -
  from assms(2) obtain g s1 where g: "gather_schedules E names [] [] s = Some (g, s1)"
    by (auto simp: get_personalized_content_def bind_eq_Some_conv split: if_splits)
  with assms(2) obtain ps s0 where "serve_schedules E c cnl names ps s0 = Some (xs, s')"
    by (cases g) (auto simp: get_personalized_content_def bind_eq_Some_conv split: if_splits)
  then obtain rules t filtered attrs where
      xs: "evaluate_placements E (sv_heap (snd (fetch_leads_for_request E c cnl names rules t))) filtered (gm_get attrs)
        (fst (fetch_leads_for_request E c cnl names rules t)) names = Some xs"
    by (auto simp: serve_schedules_def bind_eq_Some_conv Let_def split_beta)
  obtain leads s2 where leads: "fetch_leads_for_request E c cnl names rules t = (leads, s2)" by fastforce
  from xs obtain xss where "all_some (map (\<lambda>name. evaluate_placement E name
      (map (deref (sv_heap s2)) (gm_slice filtered name)) (gm_get attrs) leads) names) = Some xss" "xs = concat xss"
    by (auto simp: evaluate_placements_def leads)
  with assms(3) obtain name rs where name: "name \<in> set names" "x \<in> set rs"
    and eval: "evaluate_placement E name (map (deref (sv_heap s2)) (gm_slice filtered name)) (gm_get attrs) leads = Some rs"
    using set_concat_all_some by fastforce
  from eval name(2) obtain rs' where "local_evaluate U name (map (deref (sv_heap s2)) (gm_slice filtered name))
      (Some (gm_get attrs)) leads = Some rs'" "x \<in> set rs'"
    using assms(1) by (auto simp: evaluate_placement_def local_evaluator_def split: option.splits)
  with leads name that show ?thesis by blast
qed

text \<open>C6: Sales-target content is content CLEN holds for this customer: every served result of a
  sales-target rule carries the content of a lead that CLEN listed, in answer to a request for
  the number of this customer, in the group of that number and for the placement of the result.
  So a request by another id, a client that is not configured and a CLEN that fails or answers
  an error yield no such content.\<close>

theorem sales_content_is_from_clen:
  assumes "sd_evaluator E = Some (local_evaluator U)" and "sd_leads E = Some (lead_repository text_of H client)"
    and "get_personalized_content E (Some c) cnl names s = Some (Inr xs, s')" and "x \<in> set xs"
    and "cr_rule_type x = type_sales_target"
  shows "\<exists>cfg settings i groups g l. client = Some (cfg, settings) \<and> cu_type c = customer_cis_id
    \<and> parse_int64 (customer_value c) = Some i \<and> answered H cfg settings i cnl names groups
    \<and> find (\<lambda>g. cg_ip_id g = i) groups = Some g \<and> l \<in> set (cg_leads g)
    \<and> cr_source x \<in> set names \<inter> set (cl_placements l) \<and> cr_content_path x = cl_content_id l"
proof -
  obtain rules s1 leads s2 name ss attrs rs where fetch: "fetch_leads_for_request E c cnl names rules s1 = (leads, s2)"
    and name: "name \<in> set names" and rs: "local_evaluate U name ss attrs leads = Some rs" "x \<in> set rs"
    by (rule content_origin [OF assms(1,3,4)])
  obtain l where l: "l \<in> set leads" "lead_matches_placement l name" "cr_content_path x = ld_content_id l"
    using sales_result_lead [OF rs assms(5)] by blast
  from fetch l(1) obtain w where cis: "cu_type c = customer_cis_id" "customer_value c \<noteq> []"
    and repo: "fst (lead_repository text_of H client w \<lparr>lq_cis_id = customer_value c, lq_channel = cnl, lq_placements = names\<rparr>) = Inr leads"
    by (auto simp: fetch_leads_for_request_def assms(2) split_beta Let_def split: if_splits sum.splits)
  from repo l(1) obtain cfg settings w' where client: "client = Some (cfg, settings)"
    and got: "get_leads H (Some (cfg, settings)) (customer_value c) cnl names w = (Inr leads, w')"
    by (cases client) (auto simp: lead_repository_def split: prod.splits sum.splits)
  have "cr_source x = name" by (rule result_source [OF rs])
  obtain i groups where answer: "parse_int64 (customer_value c) = Some i" "answered H cfg settings i cnl names groups"
      "leads = leads_of_customer i groups"
    by (rule get_leads_answered [OF got cis(2)])
  with l(1) obtain g cl where "find (\<lambda>g. cg_ip_id g = i) groups = Some g" "cl \<in> set (cg_leads g)" "l = to_lead cl"
    by (auto simp: leads_of_customer_find split: option.splits)
  moreover from this(3) l(2,3) have "name \<in> set (cl_placements cl)" "cr_content_path x = cl_content_id cl"
    by (auto simp: lead_matches_placement_def to_lead_def list_ex_iff split: if_splits)
  ultimately show ?thesis using client cis(1) answer(1,2) name \<open>cr_source x = name\<close> by blast
qed

text \<open>CLEN answers with the group of customer 42 behind that of another customer.\<close>

definition demo_lead_text :: "string \<Rightarrow> string" where
  "demo_lead_text content =
     ''{'' @ quote ''cntnt_id'' @ '':'' @ quote content @ '','' @ quote ''placement'' @ '':['' @ quote ''home'' @ '']}''"

definition demo_group_text :: "string \<Rightarrow> string \<Rightarrow> string" where
  "demo_group_text ip_id content =
     ''{'' @ quote ''ip_id'' @ '':'' @ ip_id @ '','' @ quote ''list_lead'' @ '':['' @ demo_lead_text content @ '']}''"

definition demo_body :: string where
  "demo_body = ''['' @ demo_group_text ''7'' ''other'' @ '','' @ demo_group_text ''42'' ''offer'' @ '']''"

definition demo_http :: "int http_library" where
  "demo_http =
     \<lparr>ht_send = (\<lambda>settings w request. (Inr (200, demo_body), w)),
      ht_new_id = (\<lambda>w. (''id'', w)), ht_now = (\<lambda>w. \<lparr>tm_ns = w, tm_off = 0\<rparr>)\<rparr>"

definition demo_lead_client :: "(lead_config \<times> rest_settings) option" where
  "demo_lead_client =
     new_lead_client \<lparr>lg_base_url = ''http://clen'', lg_path = [], lg_api_key = ''key'', lg_app_identifier = ''app'',
       lg_timeout = 0, lg_retry_count = 0, lg_expire_filter = ''true''\<rparr>"

definition clen_deps :: "(cached std_store, int) service_deps" where
  "clen_deps = (demo_deps (Inr []))\<lparr>sd_leads := Some (lead_repository (\<lambda>e. []) demo_http demo_lead_client)\<rparr>"

definition sales_state :: "(cached std_store, int) service" where
  "sales_state =
     (demo_full 4)\<lparr>sv_heap := [demo_schedule\<lparr>sc_rule := Some (demo_rule\<lparr>dr_type := type_sales_target\<rparr>)\<rparr>]\<rparr>"

definition customer_42 :: customer_request where
  "customer_42 =
     \<lparr>cu_type = customer_cis_id, cu_cis_id = ''0000000042'', cu_ip_id = [], cu_kplus_mobile = [], cu_line_uuid = []\<rparr>"

lemma demo_groups:
  "map_option (\<lambda>gs. map (\<lambda>l. (ld_content_id l, ld_placements l)) (leads_of_customer 42 gs)) (decode_lead_groups demo_body)
     = Some [(''offer'', [''home''])]"
  and demo_number: "parse_int64 ''0000000042'' = Some 42"
  by code_simp+

lemma demo_answer:
  assumes "get_leads demo_http demo_lead_client ''0000000042'' cnl names w = (Inr leads, w')"
  shows "map (\<lambda>l. (ld_content_id l, ld_placements l)) leads = [(''offer'', [''home''])]"
proof -
  obtain gs where "decode_lead_groups demo_body = Some gs" using demo_groups by (cases "decode_lead_groups demo_body") simp_all
  with assms demo_groups show ?thesis
    by (auto simp: get_leads_def get_leads_raw_def demo_number demo_lead_client_def new_lead_client_def lead_enabled_def
        demo_http_def trace_headers_def split: if_splits)
qed

lemma demo_answers: "\<exists>leads w'. get_leads demo_http demo_lead_client ''0000000042'' cnl names w = (Inr leads, w')"
proof -
  obtain gs where "decode_lead_groups demo_body = Some gs" using demo_groups by (cases "decode_lead_groups demo_body") simp_all
  then show ?thesis
    by (auto simp: get_leads_def get_leads_raw_def demo_number demo_lead_client_def new_lead_client_def lead_enabled_def
        demo_http_def trace_headers_def)
qed

lemma clen_simps [simp]:
  "sd_caches clen_deps = std_ops" "sd_uuid clen_deps = std_uuid" "sd_redis clen_deps = None"
  "sd_evaluator clen_deps = Some (local_evaluator std_uuid)" "sd_occurrences clen_deps \<noteq> None"
  "sd_leads clen_deps = Some (lead_repository (\<lambda>e. []) demo_http demo_lead_client)"
  "sd_tick_interval clen_deps = minute_ns" "now_ns clen_deps s = sv_world s"
  by (simp_all add: clen_deps_def demo_deps_def now_ns_def now_of_def)

abbreviation (input) sales_schedule :: schedule where
  "sales_schedule \<equiv> demo_schedule\<lparr>sc_rule := Some (demo_rule\<lparr>dr_type := type_sales_target\<rparr>)\<rparr>"

lemma sales_ready: "mirror_ready clen_deps sales_state"
  by (auto simp: mirror_ready_def cache_ready_def complete_cache_def sales_state_def demo_full_def new_service_def
      demo_memory_def demo_calm cache_all_def std_ops_def std_cache_def std_get_def gm_get_def cached_ok_def
      split: if_splits)

lemma sales_loaded: "rule_loaded (demo_rule\<lparr>dr_type := type_sales_target\<rparr>)"
  by (simp add: demo_rule_def rule_loaded_def zero_defs)

lemma sales_can_serve: "can_serve clen_deps sales_state ''home'' [sales_schedule]"
proof -
  have view: "mv_schedules (view_of clen_deps sales_state) ''home'' = Some [sales_schedule]"
    "mv_syncs (view_of clen_deps sales_state) ''home'' = Some \<lparr>tm_ns = 0, tm_off = 0\<rparr>"
    by (simp_all add: view_of_def cache_view_def view_defs cm_get_def demo_full_def demo_memory_def new_service_def
        std_ops_def std_cache_def std_get_def gm_get_def deref_def sales_state_def)
  have now: "sv_world sales_state = 4" by (simp add: sales_state_def)
  have placed: "sc_placement sales_schedule = Some (zero_placement\<lparr>pl_name := ''home''\<rparr>)" "sc_rule sales_schedule \<noteq> None"
    by (simp_all add: demo_schedule_def)
  have "complete_schedule clen_deps (view_of clen_deps sales_state) sales_schedule = Some sales_schedule"
    by (rule complete_schedule_Some [where r = "demo_rule\<lparr>dr_type := type_sales_target\<rparr>"]) simp
  with placed show ?thesis
    by (simp add: can_serve_def view now young_def stale_def staleness_threshold_def minute_ns_def second_ns_def
        zero_placement_def)
qed

text \<open>The request of the sample returns the offer of the lead.\<close>

lemma sales_request:
  obtains xs s' x where "get_personalized_content clen_deps (Some customer_42) ''app'' [''home''] sales_state = Some (Inr xs, s')"
    and "x \<in> set xs" and "cr_rule_type x = type_sales_target" and "cr_content_path x = ''offer''" and "cr_source x = ''home''"
proof -
  let ?r = "demo_rule\<lparr>dr_type := type_sales_target\<rparr>"
  have customer: "\<not> customer_is_empty customer_42" "customer_value customer_42 = ''0000000042''" "cu_type customer_42 = customer_cis_id"
    by (simp_all add: customer_42_def customer_is_empty_def customer_value_def)
  obtain h rules attrs s1 leads s2 xs where rules: "covers rules (rules_of (concat (map (\<lambda>_. [sales_schedule]) [''home''])))"
    and attrs: "resolve_user_attrs clen_deps (cu_type customer_42) (customer_value customer_42) rules (sales_state\<lparr>sv_heap := h\<rparr>) = (attrs, s1)"
    and leads: "fetch_leads_for_request clen_deps customer_42 ''app'' [''home''] rules s1 = (leads, s2)"
    and got: "get_personalized_content clen_deps (Some customer_42) ''app'' [''home''] sales_state = Some (Inr xs, s2)"
    and xs: "\<forall>x. x \<in> set xs \<longleftrightarrow> (\<exists>name \<in> set [''home'']. \<exists>sc \<in> set [sales_schedule].
      offered std_uuid name (Some (gm_get attrs)) leads sc x)"
    by (rule canonical.request_offers [OF sales_ready, of "[''home'']" "\<lambda>_. [sales_schedule]" customer_42 "''app''"])
      (simp_all add: sales_can_serve customer(1) rules_within_def sales_loaded)
  have "rules_of [sales_schedule] = {?r}" by (auto simp: rules_of_def)
  with rules have "set rules \<subseteq> {?r}" "set rules \<noteq> {}" by (auto simp: covers_def)
  then have "set rules = {?r}" by (auto dest: subset_singletonD)
  then have "has_sales_target rules" by (simp add: has_sales_target_def list_ex_iff)
  moreover have "sv_world s1 = 4" using attrs by (auto simp: resolve_user_attrs_def sales_state_def)
  ultimately have "leads = (case fst (lead_repository (\<lambda>e. []) demo_http demo_lead_client 4
      \<lparr>lq_cis_id = ''0000000042'', lq_channel = ''app'', lq_placements = [''home'']\<rparr>) of Inl _ \<Rightarrow> [] | Inr ls \<Rightarrow> ls)"
    using leads by (simp add: fetch_leads_for_request_def customer split_beta Let_def)
  moreover obtain ls w' where ls: "get_leads demo_http demo_lead_client ''0000000042'' ''app'' [''home''] 4 = (Inr ls, w')"
    using demo_answers by blast
  moreover obtain cl where cl: "demo_lead_client = Some cl"
    by (simp add: demo_lead_client_def new_lead_client_def lead_enabled_def)
  ultimately have "leads = ls" using ls unfolding cl lead_repository_def by simp
  with demo_answer [OF ls] obtain l where l: "leads = [l]" "ld_content_id l = ''offer''" "ld_placements l = [''home'']" by auto
  obtain e where e: "build_logic_entry std_uuid ?r sales_schedule (dr_score ?r) ''home'' Map.empty = Some e"
    by (rule canonical.build_logic_entry_Some [OF sales_loaded])
  let ?x = "hd (offers True ''home'' leads e)"
  have "?x \<in> set (offers True ''home'' leads e)" "cr_content_path ?x = ''offer''"
    "cr_rule_type ?x = cr_rule_type e" "cr_source ?x = cr_source e"
    using l by (simp_all add: offers_def expand_with_leads_def lead_matches_placement_def)
  moreover have "entry_values std_uuid ?r = {Map.empty}" "dr_conditions ?r = []" "dr_type ?r = type_sales_target"
    by (simp_all add: entry_values_def demo_rule_def zero_defs)
  ultimately have "offered std_uuid ''home'' (Some (gm_get attrs)) leads sales_schedule ?x"
    using e by (auto simp: offered_def rule_passes_def)
  then have "?x \<in> set xs" using xs by simp
  then show thesis
    using got that \<open>cr_content_path ?x = ''offer''\<close> \<open>cr_rule_type ?x = _\<close> \<open>cr_source ?x = _\<close>
      build_logic_entry_fields [OF e] by simp
qed


theorem sales_content_is_from_clen_witness:
  "\<exists>cfg settings i groups g l. demo_lead_client = Some (cfg, settings) \<and> cu_type customer_42 = customer_cis_id
    \<and> parse_int64 (customer_value customer_42) = Some i \<and> answered demo_http cfg settings i ''app'' [''home''] groups
    \<and> find (\<lambda>g. cg_ip_id g = i) groups = Some g \<and> l \<in> set (cg_leads g)
    \<and> ''home'' \<in> set [''home''] \<inter> set (cl_placements l) \<and> ''offer'' = cl_content_id l"
proof -
  obtain xs s' x where r: "get_personalized_content clen_deps (Some customer_42) ''app'' [''home''] sales_state = Some (Inr xs, s')"
    "x \<in> set xs" "cr_rule_type x = type_sales_target" and x: "cr_content_path x = ''offer''" "cr_source x = ''home''"
    by (rule sales_request)
  show ?thesis
    using sales_content_is_from_clen [OF clen_simps(4) clen_simps(6) r] unfolding x .
qed

end
