(* ===== verification/Http_Properties.thy ===== *)
theory Http_Properties
  imports Http_Handler Clen_Properties Mirror_Flush
begin

text \<open>
  What the HTTP interface guarantees: every endpoint answers and leaves the service in a state
  it can reach, a content reply is a page of the service's results, an accepted query always
  names a customer, and a flush request that is not understood flushes everything. Each
  property is followed by an instance.
\<close>

section \<open>Every request\<close>

lemma step_world: "service_reachable E s0 s \<Longrightarrow> service_step E s s' \<Longrightarrow> service_reachable E s0 s'"
  by (rule service_reachable.Step)

lemma status_returns: "mirror_ready E s \<Longrightarrow> \<exists>r. get_status_reply E s = Some (Some (200, r), s)"
  by (elim ready_parts)
    (auto simp: get_status_reply_def get_cache_status_def get_status_def get_cache_keys_def cm_status_def split: prod.splits)

lemma value_returns:
  assumes "mirror_ready E s"
  obtains r where "get_value_reply B text_of E q s = Some (Some r, s)" and "fst r \<in> {200, 400, 500}"
proof -
  have "\<exists>r. get_cache_value E key s = Some r" for key
    using assms by (elim ready_parts) (auto simp: get_cache_value_def split: option.splits)
  then obtain f where f: "get_cache_value E key s = Some (f key)" for key by metis
  show thesis
  proof (cases "qb_key B q")
    case None
    then show thesis using that by (simp add: get_value_reply_def)
  next
    case (Some key)
    then show thesis using that by (cases "f key") (simp_all add: get_value_reply_def f)
  qed
qed

definition answered_status :: "reply option \<Rightarrow> bool" where
  "answered_status r = (case r of None \<Rightarrow> False | Some (status, body) \<Rightarrow> status \<in> {200, 400, 500})"

lemma endpoint_serves:
  assumes "provided R E" and "initial E s0" and "service_reachable E s0 s"
  shows "\<exists>r s'. serve_endpoint B text_of E ep q body s = Some (r, s') \<and> service_reachable E s0 s'
    \<and> (answered_status r \<longleftrightarrow> \<not> (ep = Get_Content \<and> (\<exists>e. qb_content B q = Inl (Malformed_Query e))))"
proof -
  have good: "good R E s" by (rule reachable_good [OF assms])
  then have ready: "mirror_ready E s" by (simp add: good_def)
  show ?thesis
  proof (cases ep)
    case Get_Content
    show ?thesis
    proof (cases "qb_content B q")
      case (Inl e)
      then show ?thesis using assms(3) by (cases e) (auto simp: Get_Content serve_endpoint_def get_content_def answered_status_def)
    next
      case (Inr req)
      obtain r s' where r: "get_personalized_content E (Some (customer_of req)) (cq_channel req) (cq_placements req) s = Some (r, s')"
        by (rule request_good [OF assms(1) good])
      then have "service_reachable E s0 s'" using step_world [OF assms(3)] service_step.Request [OF r] by blast
      with r show ?thesis
        by (cases r) (auto simp: Get_Content serve_endpoint_def get_content_def Inr answered_status_def)
    qed
  next
    case Get_Status
    with status_returns [OF ready] assms(3) show ?thesis by (auto simp: serve_endpoint_def answered_status_def)
  next
    case Get_Cache_Value
    obtain r where r: "get_value_reply B text_of E q s = Some (Some r, s)" "fst r \<in> {200, 400, 500}"
      by (rule value_returns [OF ready])
    then have "answered_status (Some r)" by (auto simp: answered_status_def)
    with r assms(3) show ?thesis by (auto simp: Get_Cache_Value serve_endpoint_def)
  next
    case Flush_Cache
    let ?req = "bind_flush body"
    obtain s' where s': "flush_cache E (fr_placements ?req) (fr_is_evaluate ?req) s = Some s'"
      using good_flush [OF _ _ _ good] assms(1) by (auto simp: provided_def)
    then have "service_reachable E s0 s'" using step_world [OF assms(3)] service_step.Flush [OF s'] by blast
    with s' show ?thesis by (auto simp: Flush_Cache serve_endpoint_def flush_reply_def Let_def answered_status_def)
  qed
qed

text \<open>Whatever request comes in, in whatever state the service can reach, the endpoint answers
  without a panic and leaves the service in a state it can reach; the reply has status 200, 400
  or 500, and only a content query that does not parse at all is left without a reply.\<close>

theorem every_request_is_served:
  assumes "provided R E" and "initial E s0" and "service_reachable E s0 s"
  shows "\<exists>r s'. serve_endpoint B text_of E ep q body s = Some (r, s') \<and> service_reachable E s0 s'
    \<and> (answered_status r \<longleftrightarrow> \<not> (ep = Get_Content \<and> (\<exists>e. qb_content B q = Inl (Malformed_Query e))))"
  by (rule endpoint_serves [OF assms])

text \<open>A content query the tags accept, and a binding that always finds it.\<close>

definition demo_query :: content_query where
  "demo_query =
     \<lparr>cq_request_type = ''personalizedContent'', cq_mode = ''logicalBased'', cq_channel = ''app'',
      cq_placements = [''home''], cq_customer_id = ''0000000042'', cq_customer_id_type = customer_cis_id, cq_page_size = 1\<rparr>"

definition demo_binding :: "string query_binding" where
  "demo_binding = \<lparr>qb_content = (\<lambda>q. Inr demo_query), qb_key = (\<lambda>q. if q = [] then None else Some q)\<rparr>"

lemma demo_tags: "content_tags demo_query"
  by (simp add: content_tags_def demo_query_def request_type_valid_def validate_customer_id_format_def
      ten_digit_numeric_def is_digit_def)

lemma demo_binds: "binds_by_tags demo_binding"
  by (simp add: binds_by_tags_def demo_binding_def demo_tags)

theorem every_request_is_served_witness:
  "\<exists>r s'. serve_endpoint demo_binding (\<lambda>e. ''failed'') (demo_deps (Inr [])) Get_Content ''q'' None demo_empty = Some (r, s')
    \<and> service_reachable (demo_deps (Inr [])) demo_empty s'
    \<and> (answered_status r \<longleftrightarrow> \<not> (Get_Content = Get_Content \<and> (\<exists>e. qb_content demo_binding ''q'' = Inl (Malformed_Query e))))"
  by (rule every_request_is_served [OF demo_provided demo_initial service_reachable.Start]) simp

section \<open>The content reply\<close>

lemma first_page_prefix: "\<exists>zs. xs = first_page n xs @ zs"
  by (simp add: first_page_def) (metis append_take_drop_id append_Nil2)

lemma length_first_page: "0 < n \<Longrightarrow> int (length (first_page n xs)) = min n (int (length xs))"
  by (simp add: first_page_def)

lemma digits_int_bounds:
  "list_all is_digit ds \<Longrightarrow> 0 \<le> acc \<Longrightarrow> acc < 10 ^ k \<Longrightarrow>
    0 \<le> digits_int acc ds \<and> digits_int acc ds < 10 ^ (k + length ds)"
proof (induction acc ds arbitrary: k rule: digits_int.induct)
  case (2 acc c cs)
  then have "0 \<le> dig c \<and> dig c \<le> 9" by (auto simp: dig_def is_digit_def)
  then have "0 \<le> acc * 10 + dig c" "acc * 10 + dig c < 10 ^ Suc k" using "2.prems"(2,3) by auto
  with "2.IH" [of "Suc k"] "2.prems"(1) show ?case by simp
qed simp

lemma ten_digits_parse:
  assumes "ten_digit_numeric s"
  shows "\<exists>i. parse_int64 s = Some i \<and> 0 \<le> i \<and> i < 10 ^ 10"
proof -
  have len: "length s = 10" and digits: "list_all is_digit s" using assms by (simp_all add: ten_digit_numeric_def)
  then obtain c cs where s: "s = c # cs" by (cases s) simp_all
  with digits have "c \<noteq> CHR ''-''" "c \<noteq> CHR ''+''" by (auto simp: is_digit_def)
  moreover have "0 \<le> digits_int 0 s" "digits_int 0 s < 10 ^ 10"
    using digits_int_bounds [OF digits, of 0 0] len by simp_all
  ultimately show ?thesis using digits by (simp add: parse_int64_def s)
qed

text \<open>C7: A content request the service answers gets status 200, the code SUCCESS and the first
  pageSize results in the service's order (all of them when pageSize is not positive), without
  their conditions, their logic and its hash; an error of the service gets status 500 and its
  text instead, and no data.\<close>

theorem content_reply_is_a_page:
  assumes "qb_content B q = Inr req"
    and "get_personalized_content E (Some (customer_of req)) (cq_channel req) (cq_placements req) s = Some (r, s')"
  shows "\<exists>status body. get_content B text_of E q s = Some (Some (status, body), s')
    \<and> (case r of
         Inl e \<Rightarrow> status = 500 \<and> ar_data body = None \<and> ar_error (to_success body) = text_of e
           \<and> ar_code (to_success body) = error_internal
       | Inr xs \<Rightarrow> status = 200 \<and> ar_error body = [] \<and> ar_code (to_success body) = success_response
           \<and> (\<exists>ys zs. ar_data body = Some (Data_Results ys) \<and> map to_response xs = ys @ zs
             \<and> (if 0 < cq_page_size req then int (length ys) = min (cq_page_size req) (int (length xs)) else zs = [])
             \<and> (\<forall>y \<in> set ys. cr_conditions y = [] \<and> cr_logic_expr y = [] \<and> cr_logic_hash y = [])))"
proof (cases r)
  case (Inl e)
  with assms show ?thesis
    by (simp add: get_content_def error_response_def to_success_def error_internal_def)
next
  case (Inr xs)
  let ?ys = "first_page (cq_page_size req) (to_responses xs)"
  obtain zs where zs: "map to_response xs = ?ys @ zs"
    using first_page_prefix [of "to_responses xs" "cq_page_size req"] by (auto simp: to_responses_def)
  have size: "if 0 < cq_page_size req then int (length ?ys) = min (cq_page_size req) (int (length xs)) else zs = []"
    using zs length_first_page [of "cq_page_size req" "to_responses xs"]
    by (auto simp: to_responses_def first_page_def)
  have "set ?ys \<subseteq> to_response ` set xs"
    using zs by (metis set_append set_map sup_ge1)
  then have "\<forall>y \<in> set ?ys. cr_conditions y = [] \<and> cr_logic_expr y = [] \<and> cr_logic_hash y = []" by auto
  with assms Inr zs size show ?thesis
    by (auto simp: get_content_def data_response_def to_success_def)
qed

lemma customer_of_demo: "customer_of demo_query = customer_42"
  by (simp add: customer_of_def demo_query_def customer_42_def)

theorem content_reply_is_a_page_witness:
  "\<exists>xs s' body ys zs.
    get_personalized_content clen_deps (Some (customer_of demo_query)) (cq_channel demo_query) (cq_placements demo_query) sales_state
      = Some (Inr xs, s')
    \<and> get_content demo_binding (\<lambda>e. ''failed'') clen_deps ''q'' sales_state = Some (Some (200, body), s')
    \<and> ar_data body = Some (Data_Results ys) \<and> map to_response xs = ys @ zs \<and> length ys = 1"
proof -
  obtain xs s' x where got: "get_personalized_content clen_deps (Some customer_42) ''app'' [''home''] sales_state = Some (Inr xs, s')"
    and x: "x \<in> set xs" by (rule sales_request)
  have q: "customer_of demo_query = customer_42" "cq_channel demo_query = ''app''" "cq_placements demo_query = [''home'']"
    "cq_page_size demo_query = 1"
    by (simp_all add: customer_of_demo) (simp_all add: demo_query_def)
  have bind: "qb_content demo_binding ''q'' = Inr demo_query" by (simp add: demo_binding_def)
  from got have "get_personalized_content clen_deps (Some (customer_of demo_query)) (cq_channel demo_query)
      (cq_placements demo_query) sales_state = Some (Inr xs, s')"
    unfolding q .
  from content_reply_is_a_page [OF bind this, of "\<lambda>e. ''failed''"] x show ?thesis
    unfolding q using got by (cases xs) auto
qed

text \<open>C31: A query that the tags accept always names a customer: the service never refuses it as
  anonymous, and a CIS customer id reads as a number, so the CLEN lead client never rejects it.\<close>

theorem accepted_query_names_a_customer:
  assumes "binds_by_tags B" and "qb_content B q = Inr req"
  shows "\<not> customer_is_empty (customer_of req)
    \<and> customer_value (customer_of req) = cq_customer_id req
    \<and> (cq_customer_id_type req = customer_cis_id \<longrightarrow>
        (\<exists>i. parse_int64 (customer_value (customer_of req)) = Some i \<and> 0 \<le> i \<and> i < 10 ^ 10
          \<and> fst (get_leads H client (customer_value (customer_of req)) cnl names w)
              \<noteq> Inl (Not_Numeric (customer_value (customer_of req)))))"
proof -
  have tags: "content_tags req" using assms by (auto simp: binds_by_tags_def)
  then have id: "cq_customer_id req \<noteq> []" and types: "cq_customer_id_type req \<in>
      {customer_cis_id, customer_ip_id, customer_kplus_mobile, customer_line_uuid}"
    by (auto simp: content_tags_def)
  have val: "customer_value (customer_of req) = cq_customer_id req" "\<not> customer_is_empty (customer_of req)"
    using types id by (auto simp: customer_value_def customer_of_def customer_is_empty_def Let_def customer_type_defs)
  moreover have "\<exists>i. parse_int64 (cq_customer_id req) = Some i \<and> 0 \<le> i \<and> i < 10 ^ 10"
    if "cq_customer_id_type req = customer_cis_id"
    using tags that ten_digits_parse by (auto simp: content_tags_def validate_customer_id_format_def split: if_splits)
  ultimately show ?thesis
    by (auto simp: get_leads_def get_leads_raw_def split: prod.splits sum.splits option.splits if_splits)
qed

theorem accepted_query_names_a_customer_witness:
  "\<not> customer_is_empty (customer_of demo_query)
    \<and> customer_value (customer_of demo_query) = cq_customer_id demo_query
    \<and> (\<exists>i. parse_int64 (customer_value (customer_of demo_query)) = Some i \<and> 0 \<le> i \<and> i < 10 ^ 10)"
proof -
  have "qb_content demo_binding ''q'' = Inr demo_query" "cq_customer_id_type demo_query = customer_cis_id"
    by (simp_all add: demo_binding_def) (simp add: demo_query_def)
  with accepted_query_names_a_customer [OF demo_binds this(1), of demo_http demo_lead_client "''app''" "[]" 0]
  show ?thesis by blast
qed

text \<open>The client reads the code and the text of an error back.\<close>

lemma error_reply_read_back:
  assumes "is_ascii text" and "text \<noteq> []"
  shows "json_parse (marshal_response enc_data enc_page (error_response error_internal text None)) =
    Some (JObj [(''code'', quote error_internal, JStr error_internal), (''error'', quote text, JStr text)])"
  using parse_string_object [of "[(''code'', error_internal), (''error'', text)]"] assms
  by (simp add: marshal_response_def error_response_def string_members_def error_internal_def)

section \<open>Flush requests\<close>

text \<open>A body from which placements can be read: an object whose member of that name is a list that is not empty.\<close>

fun placements_member :: "string \<times> string \<times> json \<Rightarrow> bool" where
  "placements_member (k, raw, JArr xs) = ((k = ''placements'' \<or> equal_fold ''placements'' k) \<and> xs \<noteq> [])"
| "placements_member m = False"

definition names_placements :: "string option \<Rightarrow> bool" where
  "names_placements body =
     (case body of
        None \<Rightarrow> False
      | Some text \<Rightarrow>
          (case parse_value 0 (skip_ws text) of
             Some (JObj ms, rest) \<Rightarrow>
               list_ex placements_member ms
           | _ \<Rightarrow> False))"

lemma find_flush_field:
  assumes "find_field flush_request_fields k = Some d"
  shows "d = snd (mk_field ''isEvaluate'' dec_bool fr_is_evaluate (\<lambda>v. fr_is_evaluate_update (\<lambda>_. v)))
    \<or> d = snd (mk_field ''placements'' (dec_slice dec_string []) fr_placements (\<lambda>v. fr_placements_update (\<lambda>_. v)))
      \<and> (k = ''placements'' \<or> equal_fold ''placements'' k)"
  using assms
  by (auto simp: find_field_def flush_request_fields_def mk_field_def split: if_splits)

lemma dec_members_no_placements:
  assumes "fr_placements r = []"
    and "\<not> list_ex placements_member ms"
  shows "fr_placements (fst (dec_members flush_request_fields r ms)) = []"
  using assms
proof (induction ms arbitrary: r)
  case (Cons m ms)
  obtain k raw v where m: "m = (k, raw, v)" by (cases m) auto
  have step: "fr_placements (fst (d r (raw, v))) = []" if "find_field flush_request_fields k = Some d" for d
    using find_flush_field [OF that] Cons.prems
    by (auto simp: m mk_field_def dec_slice_def split_beta Let_def split: json.splits)
  show ?case
    using Cons.IH Cons.prems step by (auto simp: m split_beta Let_def split: option.splits)
qed simp

lemma bind_flush_no_placements: "\<not> names_placements body \<Longrightarrow> fr_placements (bind_flush body) = []"
  by (auto simp: names_placements_def bind_flush_def dec_struct_def Let_def dec_members_no_placements
      split: option.splits json.splits prod.splits)

text \<open>C32: A flush request whose body does not name placements the way the code reads them, be it
  missing, no JSON at all, or JSON of another shape, is answered with success and empties the
  whole mirror; it is then filled again only when the body asked for it.\<close>

theorem misread_flush_empties_mirror:
  assumes "mirror_laws (sd_caches E)" and "mirror_ready E s" and "\<not> names_placements body"
  shows "\<exists>s1. flush_cache E [] False s = Some s1 \<and> view_of E s1 = empty_view
    \<and> flush_reply E body s = map_option (\<lambda>s'. (Some (200, data_response (Data_Message ''flushed'')), s'))
        (if fr_is_evaluate (bind_flush body) then evaluate E [] s1 else Some s1)"
proof -
  obtain s1 where s1: "flush_cache E [] False s = Some s1" "view_of E s1 = empty_view"
    by (rule flush_cache_view [OF assms(1,2), of "[]"]) simp
  then have "flush_cache E [] True s = evaluate E [] s1"
    by (auto simp: flush_cache_def bind_eq_Some_conv split: bind_splits)
  with s1 show ?thesis
    by (auto simp: flush_reply_def Let_def bind_flush_no_placements [OF assms(3)] map_option_bind
        split: option.splits bind_splits)
qed

lemma string_is_misread:
  "\<not> names_placements (Some (''{'' @ quote ''placements'' @ '':'' @ quote ''home'' @ ''}''))"
  by code_simp

theorem misread_flush_empties_mirror_witness:
  "\<exists>s1. flush_cache (demo_deps (Inr [])) [] False (demo_full 4) = Some s1
    \<and> view_of (demo_deps (Inr [])) s1 = empty_view
    \<and> flush_reply (demo_deps (Inr [])) (Some (''{'' @ quote ''placements'' @ '':'' @ quote ''home'' @ ''}'')) (demo_full 4)
      = map_option (\<lambda>s'. (Some (200, data_response (Data_Message ''flushed'')), s'))
        (if fr_is_evaluate (bind_flush (Some (''{'' @ quote ''placements'' @ '':'' @ quote ''home'' @ ''}'')))
         then evaluate (demo_deps (Inr [])) [] s1 else Some s1)"
  by (rule misread_flush_empties_mirror [OF demo_laws demo_full_ready(1) string_is_misread])

end
