(* ===== verification/Schedule_Database.thy ===== *)
theory Schedule_Database
  imports Delivery_Service
begin

text \<open>
  The repositories over PostgreSQL (internal/repository) as queries on the tables they read.
  A table is its list of rows; a row carries no associations except those of a decision rule,
  which are as Preload returns them. The SQL of the code is read relationally; as GORM
  documents, a query on a model leaves out its soft-deleted rows and Preload those of the
  association, while the tables a raw JOIN names are not filtered. A statement with its
  preloads reads one state of the database, or fails.
\<close>

record database =
  db_occurrences :: "occurrence list"
  db_schedules :: "schedule list"
  db_placements :: "placement list"
  db_rules :: "decision_rule list"
  db_attributes :: "attribute list"
  db_schemas :: "schema_registry list"

text \<open>A connection: each statement finds the database in some state, or an error.\<close>

type_synonym 'w connection = "'w \<Rightarrow> (string + database) \<times> 'w"

section \<open>base_model.go\<close>

text \<open>The value the context holds for the user, if any, and the hooks that stamp a row with it.\<close>

datatype context_value =
    Ctx_Uuid uuid
  | Ctx_String string
  | Ctx_Other

definition get_user_id :: "uuid_ops \<Rightarrow> context_value option \<Rightarrow> uuid option" where
  "get_user_id U v =
     (case v of
        Some (Ctx_Uuid u) \<Rightarrow> Some u
      | Some (Ctx_String s) \<Rightarrow> (case uuid_parse U s of (i, ok) \<Rightarrow> if ok then Some i else None)
      | _ \<Rightarrow> None)"

definition before_create :: "uuid option \<Rightarrow> 'a base_model_scheme \<Rightarrow> 'a base_model_scheme" where
  "before_create user r =
     (case user of None \<Rightarrow> r | Some u \<Rightarrow> r\<lparr>bm_created_by := Some u, bm_updated_by := Some u\<rparr>)"

definition before_update :: "uuid option \<Rightarrow> 'a base_model_scheme \<Rightarrow> 'a base_model_scheme" where
  "before_update user r = (case user of None \<Rightarrow> r | Some u \<Rightarrow> r\<lparr>bm_updated_by := Some u\<rparr>)"

text \<open>The hook of a deletion stamps the value it is given; the statement itself is GORM's.\<close>

definition before_delete :: "uuid option \<Rightarrow> 'a base_model_scheme \<Rightarrow> 'a base_model_scheme" where
  "before_delete user r = (case user of None \<Rightarrow> r | Some u \<Rightarrow> r\<lparr>bm_updated_by := Some u\<rparr>)"

text \<open>
  decision_rule.go: a rule without a running identifier gets the next one, which a function of
  the database draws.
\<close>

definition before_create_rule ::
  "uuid option \<Rightarrow> ('w \<Rightarrow> (string + string) \<times> 'w) \<Rightarrow> decision_rule \<Rightarrow> 'w \<Rightarrow> (string + decision_rule) \<times> 'w" where
  "before_create_rule user next_id r w =
     (let r = before_create user r in
      if dr_running r \<noteq> [] then (Inr r, w)
      else
        (case next_id w of
           (Inl e, w) \<Rightarrow> (Inl (''generating decision rule ID: '' @ e), w)
         | (Inr i, w) \<Rightarrow> (Inr (r\<lparr>dr_running := i\<rparr>), w)))"

section \<open>Tables\<close>

definition live :: "'a base_model_scheme \<Rightarrow> bool" where
  "live r = (bm_deleted_at r = None)"

definition query :: "'w connection \<Rightarrow> (database \<Rightarrow> 'a) \<Rightarrow> 'w \<Rightarrow> (string + 'a) \<times> 'w" where
  "query C f w = (case C w of (Inl e, w) \<Rightarrow> (Inl e, w) | (Inr db, w) \<Rightarrow> (Inr (f db), w))"

section \<open>schedule_occurrence_repository.go: reading\<close>

definition preload_placement :: "database \<Rightarrow> schedule \<Rightarrow> schedule" where
  "preload_placement db s =
     s\<lparr>sc_placement := find (\<lambda>p. bm_id p = sc_placement_id s \<and> live p) (db_placements db)\<rparr>"

definition preload_schedule :: "database \<Rightarrow> occurrence \<Rightarrow> occurrence" where
  "preload_schedule db oc =
     oc\<lparr>oc_schedule := map_option (preload_placement db)
       (find (\<lambda>s. bm_id s = oc_schedule_id oc \<and> live s) (db_schedules db))\<rparr>"

definition open_at :: "gotime \<Rightarrow> occurrence \<Rightarrow> bool" where
  "open_at at oc = (oc_status oc = occ_active \<and> \<not> time_after (oc_start oc) at \<and> time_after (oc_end oc) at)"

text \<open>The rows of the joins: each table as often as it has a partner.\<close>

definition joined_rules :: "database \<Rightarrow> schedule \<Rightarrow> decision_rule list" where
  "joined_rules db s = filter (\<lambda>r. bm_id r = sc_rule_id s \<and> dr_status r = status_active) (db_rules db)"

definition list_active_at :: "gotime \<Rightarrow> database \<Rightarrow> occurrence list" where
  "list_active_at at db =
     concat (map (\<lambda>oc. concat (map (\<lambda>s. map (\<lambda>r. preload_schedule db oc) (joined_rules db s))
         (filter (\<lambda>s. bm_id s = oc_schedule_id oc) (db_schedules db))))
       (filter (\<lambda>oc. live oc \<and> open_at at oc) (db_occurrences db)))"

definition joined_placements :: "database \<Rightarrow> string list \<Rightarrow> schedule \<Rightarrow> placement list" where
  "joined_placements db names s =
     filter (\<lambda>p. bm_id p = sc_placement_id s \<and> pl_name p \<in> set names) (db_placements db)"

definition list_active_by_placements_at :: "string list \<Rightarrow> gotime \<Rightarrow> database \<Rightarrow> occurrence list" where
  "list_active_by_placements_at names at db =
     concat (map (\<lambda>oc. concat (map (\<lambda>s.
           concat (map (\<lambda>p. map (\<lambda>r. preload_schedule db oc) (joined_rules db s)) (joined_placements db names s)))
         (filter (\<lambda>s. bm_id s = oc_schedule_id oc) (db_schedules db))))
       (filter (\<lambda>oc. live oc \<and> open_at at oc) (db_occurrences db)))"

definition occurrence_repository :: "'w connection \<Rightarrow> 'w occurrence_repo" where
  "occurrence_repository C =
     \<lparr>or_list_active_at = (\<lambda>w at. query C (list_active_at at) w),
      or_list_active_by_placements_at = (\<lambda>w names at.
        if names = [] then (Inr [], w) else query C (list_active_by_placements_at names at) w)\<rparr>"

text \<open>A page of rows, and a count followed by a page, which are two statements.\<close>

definition page_of :: "int \<Rightarrow> int \<Rightarrow> 'a list \<Rightarrow> 'a list" where
  "page_of page limit rows = take (nat limit) (drop (nat ((page - 1) * limit)) rows)"

definition counted_page ::
  "'w connection \<Rightarrow> (database \<Rightarrow> 'a list) \<Rightarrow> ('a list \<Rightarrow> 'a list) \<Rightarrow> int \<Rightarrow> int \<Rightarrow> 'w
    \<Rightarrow> (string + 'a list \<times> nat) \<times> 'w" where
  "counted_page C rows order page limit w =
     (case query C (\<lambda>db. length (rows db)) w of
        (Inl e, w) \<Rightarrow> (Inl e, w)
      | (Inr n, w) \<Rightarrow>
          (case query C (\<lambda>db. page_of page limit (order (rows db))) w of
             (Inl e, w) \<Rightarrow> (Inl e, w)
           | (Inr xs, w) \<Rightarrow> (Inr (xs, n), w)))"

text \<open>A page of a schedule's occurrences with their total; rows of equal start keep the table's order.\<close>

definition list_by_schedule_id ::
  "'w connection \<Rightarrow> uuid \<Rightarrow> int \<Rightarrow> int \<Rightarrow> 'w \<Rightarrow> (string + occurrence list \<times> nat) \<times> 'w" where
  "list_by_schedule_id C schedule_id page limit w =
     (let page = (if page < 1 then 1 else page);
          limit = (if limit < 1 then 20 else limit) in
      counted_page C (\<lambda>db. filter (\<lambda>oc. live oc \<and> oc_schedule_id oc = schedule_id) (db_occurrences db))
        (sort_key (\<lambda>oc. tm_ns (oc_start oc))) page limit w)"

section \<open>schedule_occurrence_repository.go: writing\<close>

definition same_window :: "occurrence \<Rightarrow> occurrence \<Rightarrow> bool" where
  "same_window a b =
     (oc_schedule_id a = oc_schedule_id b \<and> time_equal (oc_start a) (oc_start b) \<and> time_equal (oc_end a) (oc_end b))"

definition upsert_row :: "occurrence list \<Rightarrow> occurrence \<Rightarrow> occurrence list" where
  "upsert_row rows oc =
     (if list_ex (same_window oc) rows
      then map (\<lambda>r. if same_window oc r
             then r\<lparr>oc_status := oc_status oc, oc_source := oc_source oc, bm_updated_at := bm_updated_at oc,
                    bm_updated_by := bm_updated_by oc\<rparr>
             else r) rows
      else rows @ [oc])"

text \<open>
  The rows are given as GORM completes them (identifier, times, user). PostgreSQL rejects a
  statement that would touch a row twice.
\<close>

fun windows_distinct :: "occurrence list \<Rightarrow> bool" where
  "windows_distinct [] = True"
| "windows_distinct (oc # ocs) = (\<not> list_ex (same_window oc) ocs \<and> windows_distinct ocs)"

definition upsert_occurrences :: "occurrence list \<Rightarrow> database \<Rightarrow> database option" where
  "upsert_occurrences ocs db =
     (if ocs = [] then Some db
      else if \<not> windows_distinct ocs then None
      else Some (db\<lparr>db_occurrences := foldl upsert_row (db_occurrences db) ocs\<rparr>))"

definition delete_future_by_schedule_id :: "uuid \<Rightarrow> gotime \<Rightarrow> database \<Rightarrow> database" where
  "delete_future_by_schedule_id schedule_id after db =
     db\<lparr>db_occurrences := filter (\<lambda>oc. \<not> (oc_schedule_id oc = schedule_id \<and> time_after (oc_start oc) after))
       (db_occurrences db)\<rparr>"

definition delete_past_occurrences :: "gotime \<Rightarrow> database \<Rightarrow> database" where
  "delete_past_occurrences before db =
     db\<lparr>db_occurrences := filter (\<lambda>oc. \<not> time_before (oc_end oc) before) (db_occurrences db)\<rparr>"

text \<open>An update of the rows a condition selects, stamped with the time and the user of the update.\<close>

definition stamp_update :: "gotime \<Rightarrow> uuid option \<Rightarrow> 'a base_model_scheme \<Rightarrow> 'a base_model_scheme" where
  "stamp_update now user r = before_update user (r\<lparr>bm_updated_at := now\<rparr>)"

definition update_status ::
  "gotime \<Rightarrow> uuid option \<Rightarrow> (occurrence \<Rightarrow> bool) \<Rightarrow> string \<Rightarrow> database \<Rightarrow> database \<times> nat" where
  "update_status at user cond status db =
     (db\<lparr>db_occurrences := map (\<lambda>oc. if live oc \<and> cond oc then (stamp_update at user oc)\<lparr>oc_status := status\<rparr> else oc)
        (db_occurrences db)\<rparr>,
      length (filter (\<lambda>oc. live oc \<and> cond oc) (db_occurrences db)))"

definition expire_ended_occurrences :: "gotime \<Rightarrow> uuid option \<Rightarrow> gotime \<Rightarrow> database \<Rightarrow> database \<times> nat" where
  "expire_ended_occurrences at user now db =
     update_status at user (\<lambda>oc. oc_status oc = occ_active \<and> \<not> time_after (oc_end oc) now) ''EXPIRED'' db"

definition cancel_by_decision_rule_id :: "gotime \<Rightarrow> uuid option \<Rightarrow> uuid \<Rightarrow> database \<Rightarrow> database \<times> nat" where
  "cancel_by_decision_rule_id at user rule_id db =
     update_status at user (\<lambda>oc. oc_status oc = occ_active
       \<and> oc_schedule_id oc \<in> set (map bm_id (filter (\<lambda>s. live s \<and> sc_rule_id s = rule_id) (db_schedules db))))
       ''CANCELLED'' db"

section \<open>decision_rule_repository.go\<close>

definition rule_ids_of_schedules :: "uuid list \<Rightarrow> database \<Rightarrow> (uuid, uuid list) gomap" where
  "rule_ids_of_schedules ids db =
     map (\<lambda>(k, ss). (k, map bm_id ss))
       (group_by sc_rule_id
         (filter (\<lambda>s. sc_rule_id s \<noteq> uuid_nil) (filter (\<lambda>s. live s \<and> bm_id s \<in> set ids) (db_schedules db))))"

definition rules_by_id :: "uuid list \<Rightarrow> database \<Rightarrow> (uuid, decision_rule) gomap" where
  "rules_by_id ids db =
     foldl (\<lambda>m r. gm_put (bm_id r) r m) [] (filter (\<lambda>r. live r \<and> bm_id r \<in> set ids) (db_rules db))"

definition assign_rules ::
  "(uuid, uuid list) gomap \<Rightarrow> (uuid, decision_rule) gomap \<Rightarrow> (uuid, decision_rule) gomap" where
  "assign_rules groups rules =
     foldl (\<lambda>m (rule_id, ids).
       case gm_get rules rule_id of
         None \<Rightarrow> m
       | Some r \<Rightarrow> foldl (\<lambda>m i. gm_put i r m) m ids) [] groups"

definition get_rules_by_schedule_ids ::
  "'w connection \<Rightarrow> 'w \<Rightarrow> uuid list \<Rightarrow> (string + (uuid, decision_rule) gomap) \<times> 'w" where
  "get_rules_by_schedule_ids C w ids =
     (case query C (rule_ids_of_schedules ids) w of
        (Inl e, w) \<Rightarrow> (Inl e, w)
      | (Inr groups, w) \<Rightarrow>
          if groups = [] then (Inr [], w)
          else query C (\<lambda>db. assign_rules groups (rules_by_id (gm_keys groups) db)) w)"

definition get_rule_by_schedule_id ::
  "'w connection \<Rightarrow> 'w \<Rightarrow> uuid \<Rightarrow> (string + decision_rule option) \<times> 'w" where
  "get_rule_by_schedule_id C w schedule_id =
     (case query C (\<lambda>db. find (\<lambda>s. bm_id s = schedule_id \<and> live s) (db_schedules db)) w of
        (Inl e, w) \<Rightarrow> (Inl e, w)
      | (Inr None, w) \<Rightarrow> (Inr None, w)
      | (Inr (Some s), w) \<Rightarrow> query C (\<lambda>db. find (\<lambda>r. bm_id r = sc_rule_id s \<and> live r) (db_rules db)) w)"

section \<open>attribute_repository.go, clen_schema_registry_repository.go\<close>

definition list_by_table_source_name ::
  "'w connection \<Rightarrow> 'w \<Rightarrow> string \<Rightarrow> (string + attribute option list) \<times> 'w" where
  "list_by_table_source_name C w name =
     (if name = [] then (Inr [], w)
      else query C (\<lambda>db. map Some (filter (\<lambda>a. live a \<and> at_table_source a = name \<and> at_is_active a) (db_attributes db))) w)"

definition get_attribute_by_id :: "'w connection \<Rightarrow> 'w \<Rightarrow> uuid \<Rightarrow> (string + attribute option) \<times> 'w" where
  "get_attribute_by_id C w i = query C (\<lambda>db. find (\<lambda>a. bm_id a = i \<and> live a) (db_attributes db)) w"

text \<open>The latest first; page and limit must be at least 1.\<close>

definition list_attributes_paginated ::
  "'w connection \<Rightarrow> int \<Rightarrow> int \<Rightarrow> 'w \<Rightarrow> (string + attribute list \<times> nat) \<times> 'w" where
  "list_attributes_paginated C page limit w =
     counted_page C (\<lambda>db. filter live (db_attributes db)) (sort_key (\<lambda>a. - tm_ns (bm_created_at a))) page limit w"

text \<open>
  Creating, saving and soft-deleting are one statement of GORM each; the statement is an
  argument and its error is wrapped.
\<close>

definition wrapped :: "string \<Rightarrow> string option \<times> 'w \<Rightarrow> string option \<times> 'w" where
  "wrapped what x = (case x of (e, w) \<Rightarrow> (map_option (\<lambda>e. what @ '': '' @ e) e, w))"

definition create_attribute :: "(attribute \<Rightarrow> 'w \<Rightarrow> string option \<times> 'w) \<Rightarrow> attribute \<Rightarrow> 'w \<Rightarrow> string option \<times> 'w" where
  "create_attribute gorm_create a w = wrapped ''creating attribute'' (gorm_create a w)"

definition update_attribute :: "(attribute \<Rightarrow> 'w \<Rightarrow> string option \<times> 'w) \<Rightarrow> attribute \<Rightarrow> 'w \<Rightarrow> string option \<times> 'w" where
  "update_attribute gorm_save a w = wrapped ''updating attribute'' (gorm_save a w)"

definition delete_attribute :: "(uuid \<Rightarrow> 'w \<Rightarrow> string option \<times> 'w) \<Rightarrow> uuid \<Rightarrow> 'w \<Rightarrow> string option \<times> 'w" where
  "delete_attribute gorm_delete i w = wrapped ''deleting attribute'' (gorm_delete i w)"

definition get_schema_by_id ::
  "'w connection \<Rightarrow> 'w \<Rightarrow> uuid \<Rightarrow> (string + schema_registry option) \<times> 'w" where
  "get_schema_by_id C w i =
     (if i = uuid_nil then (Inr None, w)
      else query C (\<lambda>db. find (\<lambda>s. bm_id s = i \<and> live s) (db_schemas db)) w)"

end
