(* ===== verification/Database_Spec.thy ===== *)
theory Database_Spec
  imports Schedule_Database Content_Spec
begin

text \<open>
  What the queries find in the tables: the schedules that are due at some time, the rules of
  schedules, and hence the mirror after an evaluation and what it can answer, all as sets of
  rows.
\<close>

section \<open>Listing\<close>

lemma set_list_active_at:
  "x \<in> set (list_active_at at db) \<longleftrightarrow>
    (\<exists>oc \<in> set (db_occurrences db). live oc \<and> open_at at oc \<and> x = preload_schedule db oc
      \<and> (\<exists>s \<in> set (db_schedules db). bm_id s = oc_schedule_id oc \<and> joined_rules db s \<noteq> []))"
  by (fastforce simp: list_active_at_def joined_rules_def filter_empty_conv)

lemma set_list_active_by_placements_at:
  "x \<in> set (list_active_by_placements_at names at db) \<longleftrightarrow>
    (\<exists>oc \<in> set (db_occurrences db). live oc \<and> open_at at oc \<and> x = preload_schedule db oc
      \<and> (\<exists>s \<in> set (db_schedules db). bm_id s = oc_schedule_id oc \<and> joined_placements db names s \<noteq> []
        \<and> joined_rules db s \<noteq> []))"
  by (fastforce simp: list_active_by_placements_at_def joined_rules_def joined_placements_def filter_empty_conv)

lemma preload_id [simp]: "oc_schedule_id (preload_schedule db oc) = oc_schedule_id oc"
  by (simp add: preload_schedule_def)

text \<open>The schedule an occurrence is preloaded with depends only on the identifier.\<close>

definition schedule_of :: "database \<Rightarrow> uuid \<Rightarrow> schedule option" where
  "schedule_of db i = map_option (preload_placement db) (find (\<lambda>s. bm_id s = i \<and> live s) (db_schedules db))"

lemma preload_schedule_of: "oc_schedule (preload_schedule db oc) = schedule_of db (oc_schedule_id oc)"
  by (simp add: preload_schedule_def schedule_of_def)

lemma set_unique_schedules:
  assumes "\<And>oc. oc \<in> set occs \<Longrightarrow> oc_schedule oc = f (oc_schedule_id oc)"
  shows "set (unique_schedules occs) = {sc. \<exists>oc \<in> set occs. f (oc_schedule_id oc) = Some sc}"
proof -
  let ?row = "\<lambda>oc. case oc_schedule oc of None \<Rightarrow> [] | Some sc \<Rightarrow> [(oc_schedule_id oc, sc)]"
  let ?rows = "concat (map ?row occs)"
  have row: "x \<in> set (?row oc) \<longleftrightarrow> oc_schedule_id oc = fst x \<and> f (fst x) = Some (snd x)" if "oc \<in> set occs" for oc x
    using assms [OF that] by (cases x; cases "f (oc_schedule_id oc)") auto
  have "x \<in> set ?rows \<longleftrightarrow> (\<exists>oc \<in> set occs. x \<in> set (?row oc))" for x by simp
  then have rows: "x \<in> set ?rows \<longleftrightarrow> (\<exists>oc \<in> set occs. oc_schedule_id oc = fst x \<and> f (fst x) = Some (snd x))" for x
    using row [of _ x] by meson
  have sub: "set (dedup_by fst ?rows) \<subseteq> set ?rows" by (rule dedup_by_subset)
  have keys: "fst ` set (dedup_by fst ?rows) = fst ` set ?rows" by (rule dedup_by_keys)
  have "x \<in> set (dedup_by fst ?rows)" if x: "x \<in> set ?rows" for x
  proof -
    from x have "fst x \<in> fst ` set (dedup_by fst ?rows)" unfolding keys by (rule imageI)
    then obtain y where y: "fst x = fst y" "y \<in> set (dedup_by fst ?rows)" by (rule imageE)
    have "f (fst y) = Some (snd y)" "f (fst x) = Some (snd x)"
      using rows [of y] rows [of x] x subsetD [OF sub y(2)] by (blast, blast)
    with y(1) have "y = x" by (simp add: prod_eq_iff)
    with y(2) show ?thesis by simp
  qed
  then have "set (dedup_by fst ?rows) = set ?rows" using sub by blast
  then have "set (unique_schedules occs) = snd ` set ?rows"
    by (simp only: unique_schedules_def set_map)
  moreover have "snd ` set ?rows = {sc. \<exists>oc \<in> set occs. f (oc_schedule_id oc) = Some sc}"
  proof (intro set_eqI iffI)
    fix sc assume "sc \<in> snd ` set ?rows"
    then obtain x where x: "sc = snd x" "x \<in> set ?rows" by (rule imageE)
    then obtain oc where oc: "oc \<in> set occs" "oc_schedule_id oc = fst x" "f (fst x) = Some (snd x)"
      unfolding rows by blast
    then have "f (oc_schedule_id oc) = Some sc" by (simp only: x(1))
    with oc(1) show "sc \<in> {sc. \<exists>oc \<in> set occs. f (oc_schedule_id oc) = Some sc}" by blast
  next
    fix sc assume "sc \<in> {sc. \<exists>oc \<in> set occs. f (oc_schedule_id oc) = Some sc}"
    then obtain oc where "oc \<in> set occs" "f (oc_schedule_id oc) = Some sc" by blast
    then have "(oc_schedule_id oc, sc) \<in> set ?rows" unfolding rows by auto
    then have "snd (oc_schedule_id oc, sc) \<in> snd ` set ?rows" by (rule imageI)
    then show "sc \<in> snd ` set ?rows" by simp
  qed
  ultimately show ?thesis by simp
qed

text \<open>Rows are found by their primary key.\<close>

lemma find_row:
  assumes "distinct (map bm_id rows)"
  shows "find (\<lambda>r. bm_id r = i \<and> live r) rows = Some r \<longleftrightarrow> r \<in> set rows \<and> bm_id r = i \<and> live r"
  using assms by (induction rows) (auto simp: rev_image_eqI)

lemma row_unique:
  assumes "distinct (map bm_id rows)" and "s \<in> set rows" and "t \<in> set rows" and "bm_id s = bm_id t"
  shows "s = t"
  using assms by (simp add: distinct_map inj_on_def)

text \<open>The schedules that are to be shown at some time, with their placements.\<close>

definition active_schedules :: "database \<Rightarrow> gotime \<Rightarrow> schedule set" where
  "active_schedules db at =
     {preload_placement db sc |sc. sc \<in> set (db_schedules db) \<and> live sc \<and> joined_rules db sc \<noteq> []
       \<and> (\<exists>oc \<in> set (db_occurrences db). live oc \<and> open_at at oc \<and> oc_schedule_id oc = bm_id sc)}"

lemma schedule_of_Some:
  assumes "distinct (map bm_id (db_schedules db))"
  shows "schedule_of db i = Some sc \<longleftrightarrow>
    (\<exists>s \<in> set (db_schedules db). bm_id s = i \<and> live s \<and> sc = preload_placement db s)"
  using assms by (auto simp: schedule_of_def find_row)

lemma unique_schedules_active:
  assumes "distinct (map bm_id (db_schedules db))"
  shows "set (unique_schedules (list_active_at at db)) = active_schedules db at"
proof -
  have "oc_schedule oc = schedule_of db (oc_schedule_id oc)" if "oc \<in> set (list_active_at at db)" for oc
    using that by (auto simp: set_list_active_at preload_schedule_of)
  from set_unique_schedules [where f = "schedule_of db", OF this]
  have "set (unique_schedules (list_active_at at db)) =
      {sc. \<exists>oc \<in> set (list_active_at at db). schedule_of db (oc_schedule_id oc) = Some sc}" by simp
  also have "\<dots> = active_schedules db at"
  proof (intro set_eqI iffI)
    fix x assume "x \<in> {sc. \<exists>oc \<in> set (list_active_at at db). schedule_of db (oc_schedule_id oc) = Some sc}"
    then obtain oc s sc where "oc \<in> set (db_occurrences db)" "live oc" "open_at at oc" "s \<in> set (db_schedules db)"
      "bm_id s = oc_schedule_id oc" "joined_rules db s \<noteq> []" "sc \<in> set (db_schedules db)" "live sc"
      "bm_id sc = oc_schedule_id oc" "x = preload_placement db sc"
      by (auto simp: set_list_active_at schedule_of_Some [OF assms])
    moreover from this have "s = sc" by (intro row_unique [OF assms]) simp_all
    ultimately show "x \<in> active_schedules db at" unfolding active_schedules_def by fastforce
  next
    fix x assume "x \<in> active_schedules db at"
    then obtain oc sc where oc: "oc \<in> set (db_occurrences db)" "live oc" "open_at at oc" "sc \<in> set (db_schedules db)"
      "live sc" "joined_rules db sc \<noteq> []" "oc_schedule_id oc = bm_id sc" "x = preload_placement db sc"
      by (auto simp: active_schedules_def)
    then have "preload_schedule db oc \<in> set (list_active_at at db)" unfolding set_list_active_at by (metis (no_types))
    moreover have "schedule_of db (oc_schedule_id (preload_schedule db oc)) = Some x"
      using oc by (auto simp: schedule_of_Some [OF assms])
    ultimately show "x \<in> {sc. \<exists>oc \<in> set (list_active_at at db). schedule_of db (oc_schedule_id oc) = Some sc}" by blast
  qed
  finally show ?thesis .
qed

text \<open>Restricted to named placements, the listing finds the due schedules of those placements.\<close>

lemma unique_schedules_placed:
  assumes "distinct (map bm_id (db_schedules db))" and "name \<in> set names" and "name \<noteq> []"
  shows "{sc \<in> set (unique_schedules (list_active_by_placements_at names at db)). placement_name_of sc = name}
    = {sc \<in> active_schedules db at. placement_name_of sc = name}"
proof -
  let ?occs = "list_active_by_placements_at names at db"
  have "oc_schedule oc = schedule_of db (oc_schedule_id oc)" if "oc \<in> set ?occs" for oc
    using that by (auto simp: set_list_active_by_placements_at preload_schedule_of)
  from set_unique_schedules [where f = "schedule_of db", OF this]
  have unique: "set (unique_schedules ?occs) = {sc. \<exists>oc \<in> set ?occs. schedule_of db (oc_schedule_id oc) = Some sc}" by simp
  show ?thesis
  proof (intro set_eqI iffI)
    fix x assume x: "x \<in> {sc \<in> set (unique_schedules ?occs). placement_name_of sc = name}"
    then obtain oc s sc where "oc \<in> set (db_occurrences db)" "live oc" "open_at at oc" "s \<in> set (db_schedules db)"
      "bm_id s = oc_schedule_id oc" "joined_rules db s \<noteq> []" "sc \<in> set (db_schedules db)" "live sc"
      "bm_id sc = oc_schedule_id oc" "x = preload_placement db sc"
      by (auto simp: unique set_list_active_by_placements_at schedule_of_Some [OF assms(1)])
    moreover from this have "s = sc" by (intro row_unique [OF assms(1)]) simp_all
    ultimately show "x \<in> {sc \<in> active_schedules db at. placement_name_of sc = name}"
      using x unfolding active_schedules_def by fastforce
  next
    fix x assume x: "x \<in> {sc \<in> active_schedules db at. placement_name_of sc = name}"
    then obtain oc sc where oc: "oc \<in> set (db_occurrences db)" "live oc" "open_at at oc" "sc \<in> set (db_schedules db)"
      "live sc" "joined_rules db sc \<noteq> []" "oc_schedule_id oc = bm_id sc" "x = preload_placement db sc"
      by (auto simp: active_schedules_def)
    obtain p where "p \<in> set (db_placements db)" "bm_id p = sc_placement_id sc" "pl_name p = name"
      using x oc(8) assms(3)
      by (auto simp: placement_name_of_def preload_placement_def find_Some_iff split: option.splits) (metis nth_mem)
    then have "joined_placements db names sc \<noteq> []"
      using assms(2) by (auto simp: joined_placements_def filter_empty_conv)
    then have "preload_schedule db oc \<in> set ?occs"
      using oc unfolding set_list_active_by_placements_at by (metis (no_types))
    moreover have "schedule_of db (oc_schedule_id (preload_schedule db oc)) = Some x"
      using oc by (auto simp: schedule_of_Some [OF assms(1)])
    ultimately have "x \<in> set (unique_schedules ?occs)" unfolding unique by blast
    with x show "x \<in> {sc \<in> set (unique_schedules ?occs). placement_name_of sc = name}" by simp
  qed
qed

lemma listed_set:
  assumes "name \<noteq> []"
  shows "set (case listed occs name of None \<Rightarrow> [] | Some ss \<Rightarrow> ss)
    = {sc \<in> set (unique_schedules occs). placement_name_of sc = name}"
  using assms by (auto simp: listed_def Let_def filter_empty_conv)

section \<open>The lookup of rules\<close>

lemma option_ext: "(\<And>y. a = Some y \<longleftrightarrow> b = Some y) \<Longrightarrow> a = b"
  by (cases a; cases b) auto

text \<open>A map that is filled from a list of entries, no key with two values.\<close>

definition put_all :: "('k \<times> 'v) list \<Rightarrow> ('k, 'v) gomap \<Rightarrow> ('k, 'v) gomap" where
  "put_all es m = foldl (\<lambda>m (k, v). gm_put k v m) m es"

definition single_valued_list :: "('k \<times> 'v) list \<Rightarrow> bool" where
  "single_valued_list es = (\<forall>k v v'. (k, v) \<in> set es \<longrightarrow> (k, v') \<in> set es \<longrightarrow> v = v')"

lemma gm_get_put_all: "gm_get (put_all es m) k = (case map_of (rev es) k of None \<Rightarrow> gm_get m k | Some v \<Rightarrow> Some v)"
  by (induction es arbitrary: m) (auto simp: put_all_def map_add_def split: option.splits)

lemma put_all_entries:
  assumes "single_valued_list es"
  shows "gm_get (put_all es []) k = Some v \<longleftrightarrow> (k, v) \<in> set es"
proof
  assume "gm_get (put_all es []) k = Some v"
  then have "map_of (rev es) k = Some v" by (simp add: gm_get_put_all split: option.splits)
  then show "(k, v) \<in> set es" by (auto dest: map_of_SomeD)
next
  assume v: "(k, v) \<in> set es"
  then have "(k, v) \<in> set (rev es)" by simp
  then obtain v' where v': "map_of (rev es) k = Some v'" by (blast dest: weak_map_of_SomeI)
  then have "(k, v') \<in> set es" by (auto dest: map_of_SomeD)
  with v assms have "v' = v" by (auto simp: single_valued_list_def)
  with v' show "gm_get (put_all es []) k = Some v" by (simp add: gm_get_put_all)
qed

lemma put_all_append: "put_all (xs @ ys) m = put_all ys (put_all xs m)"
  by (simp add: put_all_def)

lemma rules_by_id_put_all:
  "rules_by_id ids db = put_all (map (\<lambda>r. (bm_id r, r)) (filter (\<lambda>r. live r \<and> bm_id r \<in> set ids) (db_rules db))) []"
  by (simp add: rules_by_id_def put_all_def foldl_map)

lemma rules_by_id_get:
  assumes "distinct (map bm_id (db_rules db))"
  shows "gm_get (rules_by_id ids db) i = Some r \<longleftrightarrow> r \<in> set (db_rules db) \<and> live r \<and> bm_id r = i \<and> i \<in> set ids"
proof -
  have "single_valued_list (map (\<lambda>r. (bm_id r, r)) (filter (\<lambda>r. live r \<and> bm_id r \<in> set ids) (db_rules db)))"
    using assms by (auto simp: single_valued_list_def distinct_map inj_on_def)
  from put_all_entries [OF this] show ?thesis unfolding rules_by_id_put_all by auto
qed

definition rule_entries ::
  "(uuid, uuid list) gomap \<Rightarrow> (uuid, decision_rule) gomap \<Rightarrow> (uuid \<times> decision_rule) list" where
  "rule_entries groups rules =
     concat (map (\<lambda>(k, ids). case gm_get rules k of None \<Rightarrow> [] | Some r \<Rightarrow> map (\<lambda>i. (i, r)) ids) groups)"

lemma assign_rules_put_all: "assign_rules groups rules = put_all (rule_entries groups rules) []"
proof -
  have one: "foldl (\<lambda>m i. gm_put i r m) m ids = put_all (map (\<lambda>i. (i, r)) ids) m" for r m and ids :: "uuid list"
    by (simp add: put_all_def foldl_map)
  have "foldl (\<lambda>m (k, ids). case gm_get rules k of None \<Rightarrow> m | Some r \<Rightarrow> foldl (\<lambda>m i. gm_put i r m) m ids) m groups
      = put_all (rule_entries groups rules) m" for m
    by (induction groups arbitrary: m)
      (auto simp: rule_entries_def put_all_append one put_all_def [of "[]"] split: option.splits)
  then show ?thesis by (simp add: assign_rules_def)
qed

lemma rule_ids_of_schedules_set:
  "(k, is) \<in> set (rule_ids_of_schedules ids db) \<longleftrightarrow>
    is = map bm_id (filter (\<lambda>s. sc_rule_id s = k)
      (filter (\<lambda>s. sc_rule_id s \<noteq> uuid_nil) (filter (\<lambda>s. live s \<and> bm_id s \<in> set ids) (db_schedules db))))
    \<and> (\<exists>s \<in> set (db_schedules db). live s \<and> bm_id s \<in> set ids \<and> sc_rule_id s \<noteq> uuid_nil \<and> sc_rule_id s = k)"
proof -
  have entry: "(k, is) \<in> (\<lambda>(k, ss). (k, map bm_id ss)) ` A \<longleftrightarrow> (\<exists>ss. (k, ss) \<in> A \<and> is = map bm_id ss)"
    for A :: "(uuid \<times> schedule list) set" by (auto intro: rev_image_eqI)
  show ?thesis unfolding rule_ids_of_schedules_def set_map entry set_group_by by auto
qed

lemma rule_entries_set:
  "(j, q) \<in> set (rule_entries groups rules) \<longleftrightarrow>
    (\<exists>k is. (k, is) \<in> set groups \<and> j \<in> set is \<and> gm_get rules k = Some q)"
proof -
  have one: "(j, q) \<in> set (case gm_get rules k of None \<Rightarrow> [] | Some r \<Rightarrow> map (\<lambda>i. (i, r)) is)
      \<longleftrightarrow> j \<in> set is \<and> gm_get rules k = Some q" for k "is"
    by (cases "gm_get rules k") auto
  have "(j, q) \<in> set (rule_entries groups rules) \<longleftrightarrow> (\<exists>g \<in> set groups.
      (j, q) \<in> set (case gm_get rules (fst g) of None \<Rightarrow> [] | Some r \<Rightarrow> map (\<lambda>i. (i, r)) (snd g)))"
    by (simp add: rule_entries_def split_beta)
  then show ?thesis unfolding one by force
qed

text \<open>What the two statements of the bulk lookup find together.\<close>

lemma assigned_rules:
  assumes "distinct (map bm_id (db_schedules db))" and "distinct (map bm_id (db_rules db))"
  shows "gm_get (assign_rules (rule_ids_of_schedules ids db)
      (rules_by_id (gm_keys (rule_ids_of_schedules ids db)) db)) i = Some r
    \<longleftrightarrow> i \<in> set ids \<and> (\<exists>s \<in> set (db_schedules db). live s \<and> bm_id s = i \<and> sc_rule_id s \<noteq> uuid_nil
      \<and> r \<in> set (db_rules db) \<and> live r \<and> bm_id r = sc_rule_id s)"
proof -
  let ?gs = "rule_ids_of_schedules ids db"
  let ?es = "rule_entries ?gs (rules_by_id (gm_keys ?gs) db)"
  have entry: "(j, q) \<in> set ?es \<longleftrightarrow> j \<in> set ids \<and> (\<exists>s \<in> set (db_schedules db). live s \<and> bm_id s = j
      \<and> sc_rule_id s \<noteq> uuid_nil \<and> q \<in> set (db_rules db) \<and> live q \<and> bm_id q = sc_rule_id s)" for j q
  proof -
    have "(j, q) \<in> set ?es \<longleftrightarrow> (\<exists>k is. (k, is) \<in> set ?gs \<and> j \<in> set is
        \<and> gm_get (rules_by_id (gm_keys ?gs) db) k = Some q)"
      by (rule rule_entries_set)
    also have "\<dots> \<longleftrightarrow> (\<exists>k is. (k, is) \<in> set ?gs \<and> j \<in> set is
        \<and> q \<in> set (db_rules db) \<and> live q \<and> bm_id q = k)"
      unfolding rules_by_id_get [OF assms(2)] by (force simp: gm_keys_def)
    finally show ?thesis unfolding rule_ids_of_schedules_set by auto
  qed
  have "single_valued_list ?es"
    unfolding single_valued_list_def entry
    by (metis assms distinct_map inj_onD)
  from put_all_entries [OF this] show ?thesis unfolding assign_rules_put_all entry .
qed

text \<open>A connection that finds the same database at every statement.\<close>

definition reads :: "'w connection \<Rightarrow> database \<Rightarrow> bool" where
  "reads C db = (\<forall>w. fst (C w) = Inr db)"

lemma query_reads: "reads C db \<Longrightarrow> fst (query C f w) = Inr (f db)"
  by (simp add: reads_def query_def split_beta split: sum.splits)

lemma query_readsE:
  assumes "reads C db"
  obtains w' where "query C f w = (Inr (f db), w')"
  using query_reads [OF assms, of f w] by (metis prod.collapse)

lemma bulk_reads:
  assumes "reads C db"
  shows "fst (get_rules_by_schedule_ids C w ids) = Inr
    (assign_rules (rule_ids_of_schedules ids db) (rules_by_id (gm_keys (rule_ids_of_schedules ids db)) db))"
proof -
  obtain w1 where w1: "query C (rule_ids_of_schedules ids) w = (Inr (rule_ids_of_schedules ids db), w1)"
    by (rule query_readsE [OF assms])
  show ?thesis
    by (simp add: get_rules_by_schedule_ids_def w1 query_reads [OF assms] assign_rules_def [of "[]"])
qed

lemma single_reads:
  assumes "reads C db"
  shows "fst (get_rule_by_schedule_id C w i) = Inr
    (case find (\<lambda>s. bm_id s = i \<and> live s) (db_schedules db) of
       None \<Rightarrow> None | Some s \<Rightarrow> find (\<lambda>r. bm_id r = sc_rule_id s \<and> live r) (db_rules db))"
proof -
  obtain w1 where w1: "query C (\<lambda>db. find (\<lambda>s. bm_id s = i \<and> live s) (db_schedules db)) w =
      (Inr (find (\<lambda>s. bm_id s = i \<and> live s) (db_schedules db)), w1)"
    by (rule query_readsE [OF assms])
  show ?thesis
    by (simp add: get_rule_by_schedule_id_def w1 query_reads [OF assms] split: option.splits)
qed

section \<open>From the tables to the mirror\<close>

lemma gm_ok_put_all [simp]: "gm_ok m \<Longrightarrow> gm_ok (put_all es m)"
  unfolding put_all_def by (induction es arbitrary: m) auto

text \<open>
  Tables as the code relies on them: primary keys, no nil key, rows of schedules without
  associations, rules with their conditions loaded.
\<close>

definition tables_ok :: "database \<Rightarrow> bool" where
  "tables_ok db =
     (distinct (map bm_id (db_schedules db)) \<and> distinct (map bm_id (db_rules db))
      \<and> list_all (\<lambda>r. bm_id r \<noteq> uuid_nil) (db_rules db)
      \<and> list_all (\<lambda>sc. sc_rule sc = None) (db_schedules db) \<and> list_all rule_loaded (db_rules db))"

text \<open>The rules a whole evaluation fetches, by the key they have in the mirror.\<close>

lemma new_rules_get:
  assumes "tables_ok db" and "uuid_laws (sd_uuid E)"
    and "rules = assign_rules (rule_ids_of_schedules ids db) (rules_by_id (gm_keys (rule_ids_of_schedules ids db)) db)"
  shows "gm_get (new_rules E rules) (rule_key E i) = Some r \<longleftrightarrow>
    r \<in> set (db_rules db) \<and> live r \<and> bm_id r = i
    \<and> (\<exists>s \<in> set (db_schedules db). live s \<and> bm_id s \<in> set ids \<and> sc_rule_id s = i)"
proof -
  have ids: "distinct (map bm_id (db_schedules db))" "distinct (map bm_id (db_rules db))"
    and nil: "\<And>r. r \<in> set (db_rules db) \<Longrightarrow> bm_id r \<noteq> uuid_nil"
    using assms(1) by (auto simp: tables_ok_def list_all_iff)
  have key: "rule_key E u = rule_key E v \<longleftrightarrow> u = v" for u v
    using uuid_laws.string_inj [OF assms(2)] by (simp add: rule_key_def)
  have "gm_ok rules" unfolding assms(3) assign_rules_put_all by simp
  then have entry: "(i, r) \<in> set rules \<longleftrightarrow> i \<in> set ids \<and> (\<exists>s \<in> set (db_schedules db). live s \<and> bm_id s = i
      \<and> sc_rule_id s \<noteq> uuid_nil \<and> r \<in> set (db_rules db) \<and> live r \<and> bm_id r = sc_rule_id s)" for i r
    by (simp add: gm_get_in_set) (simp add: assms(3) assigned_rules [OF ids])
  have fetched: "r \<in> snd ` set rules \<longleftrightarrow> r \<in> set (db_rules db) \<and> live r
      \<and> (\<exists>s \<in> set (db_schedules db). live s \<and> bm_id s \<in> set ids \<and> sc_rule_id s = bm_id r)" for r
  proof -
    have "r \<in> snd ` set rules \<longleftrightarrow> (\<exists>i. (i, r) \<in> set rules)" by force
    then show ?thesis unfolding entry using nil [of r] by metis
  qed
  let ?es = "map (\<lambda>r. (rule_key E (bm_id r), r)) (map snd rules)"
  have mem: "(rule_key E i, r) \<in> set ?es \<longleftrightarrow> bm_id r = i \<and> r \<in> snd ` set rules" for i r
    by (auto simp: key image_iff)
  have "single_valued_list ?es"
    unfolding single_valued_list_def
  proof (intro allI impI)
    fix k q q' assume q: "(k, q) \<in> set ?es" "(k, q') \<in> set ?es"
    then have "rule_key E (bm_id q) = rule_key E (bm_id q')" "q \<in> snd ` set rules" "q' \<in> snd ` set rules"
      by (auto simp: image_iff)
    then show "q = q'" using fetched by (intro row_unique [OF ids(2)]) (simp_all add: key)
  qed
  moreover have "new_rules E rules = put_all ?es []" by (simp add: new_rules_def put_all_def foldl_map)
  ultimately have "gm_get (new_rules E rules) (rule_key E i) = Some r \<longleftrightarrow> (rule_key E i, r) \<in> set ?es"
    by (simp only: put_all_entries)
  then show ?thesis unfolding mem fetched by blast
qed

text \<open>What is to be published for a placement: its active schedules, each with its live rule.\<close>

definition published :: "database \<Rightarrow> gotime \<Rightarrow> string \<Rightarrow> schedule set" where
  "published db at name =
     {sc\<lparr>sc_rule := Some r\<rparr> |sc r. sc \<in> active_schedules db at \<and> placement_name_of sc = name
       \<and> r \<in> set (db_rules db) \<and> live r \<and> bm_id r = sc_rule_id sc}"

text \<open>The placement has something to show, and nothing whose rule is deleted.\<close>

definition publishable :: "database \<Rightarrow> gotime \<Rightarrow> string \<Rightarrow> bool" where
  "publishable db at name =
     (name \<noteq> [] \<and> (\<exists>sc \<in> active_schedules db at. placement_name_of sc = name)
      \<and> (\<forall>sc \<in> active_schedules db at. placement_name_of sc = name \<longrightarrow>
           (\<exists>r \<in> set (db_rules db). live r \<and> bm_id r = sc_rule_id sc)))"

lemma active_schedule_row:
  assumes "sc \<in> active_schedules db at" and "tables_ok db"
  obtains s where "s \<in> set (db_schedules db)" and "live s" and "bm_id s = bm_id sc" and "sc_rule_id s = sc_rule_id sc"
    and "sc_rule sc = None"
  using assms by (auto simp: active_schedules_def preload_placement_def tables_ok_def list_all_iff)

definition rule_row :: "database \<Rightarrow> schedule \<Rightarrow> decision_rule option" where
  "rule_row db sc = find (\<lambda>r. bm_id r = sc_rule_id sc \<and> live r) (db_rules db)"

lemma rule_row_Some:
  "tables_ok db \<Longrightarrow> rule_row db sc = Some r \<longleftrightarrow> r \<in> set (db_rules db) \<and> bm_id r = sc_rule_id sc \<and> live r"
  by (simp add: rule_row_def find_row tables_ok_def)

lemma published_image:
  assumes "tables_ok db" and "publishable db at name"
    and "set lean = {sc \<in> active_schedules db at. placement_name_of sc = name}"
  shows "set (map (\<lambda>sc. sc\<lparr>sc_rule := rule_row db sc\<rparr>) lean) = published db at name"
proof -
  have row: "\<exists>r. rule_row db sc = Some r" if "sc \<in> set lean" for sc
    using assms that by (auto simp: publishable_def rule_row_Some)
  show ?thesis
    unfolding set_map
  proof (intro set_eqI iffI)
    fix x assume "x \<in> (\<lambda>sc. sc\<lparr>sc_rule := rule_row db sc\<rparr>) ` set lean"
    then obtain sc r where "sc \<in> set lean" "rule_row db sc = Some r" "x = sc\<lparr>sc_rule := Some r\<rparr>"
      using row by fastforce
    then show "x \<in> published db at name" using assms(1,3) by (auto simp: published_def rule_row_Some)
  next
    fix x assume "x \<in> published db at name"
    then obtain sc r where sc: "x = sc\<lparr>sc_rule := Some r\<rparr>" "sc \<in> set lean" "rule_row db sc = Some r"
      using assms(1,3) by (auto simp: published_def rule_row_Some)
    then have "x = sc\<lparr>sc_rule := rule_row db sc\<rparr>" by simp
    with sc(2) show "x \<in> (\<lambda>sc. sc\<lparr>sc_rule := rule_row db sc\<rparr>) ` set lean" by (intro rev_image_eqI)
  qed
qed

text \<open>The mirror after an evaluation of the whole.\<close>

lemma evaluated_mirror:
  assumes laws: "mirror_laws (sd_caches E)" and ready: "mirror_ready E s" "\<not> pressured s"
    and repo: "sd_occurrences E = Some (occurrence_repository C)" and rules: "sd_rules E = Some (get_rules_by_schedule_ids C)"
    and db: "reads C db" "tables_ok db"
  obtains s' occs where "evaluate E [] s = Some s'" and "mirror_ready E s'"
    and "set (unique_schedules occs) = active_schedules db (now_of E s)"
    and "view_of E s' = full_refresh E (now_of E s') occs (assign_rules
      (rule_ids_of_schedules (map bm_id (unique_schedules occs)) db)
      (rules_by_id (gm_keys (rule_ids_of_schedules (map bm_id (unique_schedules occs)) db)) db))"
proof -
  let ?occs = "list_active_at (now_of E s) db"
  obtain w where w: "query C (list_active_at (now_of E s)) (sv_world s) = (Inr ?occs, w)"
    by (rule query_readsE [OF db(1)])
  from ready obtain m where m: "sv_mem s = Some m" "cache_ready E (sv_heap s) m" "\<not> is_under_pressure (mc_monitor m)"
    by (auto simp: mirror_ready_def pressured_def)
  obtain s' where "evaluate E [] s = Some s'" "mirror_ready E s'"
    "view_of E s' = full_refresh E (now_of E s') ?occs (rules_or_none (Inr (assign_rules
      (rule_ids_of_schedules (map bm_id (unique_schedules ?occs)) db)
      (rules_by_id (gm_keys (rule_ids_of_schedules (map bm_id (unique_schedules ?occs)) db)) db))))"
    by (rule evaluate_full [OF laws m repo _ rules bulk_reads [OF db(1)]])
      (simp add: occurrence_repository_def w)
  then show thesis
    by (intro that [of s' ?occs]) (use unique_schedules_active db(2) in \<open>simp_all add: rules_or_none_def tables_ok_def\<close>)
qed

text \<open>
  A mirror that has the due schedules of a publishable placement and their live rules, as
  synchronised now, can answer for it with what is published.
\<close>

lemma mirror_can_serve:
  assumes db: "tables_ok db" "publishable db at name"
    and lean: "mv_schedules (view_of E s) name = Some lean"
      "set lean = {sc \<in> active_schedules db at. placement_name_of sc = name}"
    and sync: "mv_syncs (view_of E s) name = Some (now_of E s)"
    and rules: "\<And>sc r. sc \<in> set lean \<Longrightarrow> r \<in> set (db_rules db) \<Longrightarrow> live r \<Longrightarrow> bm_id r = sc_rule_id sc \<Longrightarrow>
      mv_rules (view_of E s) (rule_key E (sc_rule_id sc)) = Some r"
  obtains ss where "can_serve E s name ss" and "set ss = published db at name"
proof -
  have name: "name \<noteq> []" using db(2) by (simp add: publishable_def)
  have fresh: "young E s name"
    by (simp add: young_def sync stale_def staleness_threshold_def now_ns_def minute_ns_def second_ns_def)
  have complete: "complete_schedule E (view_of E s) sc = Some (sc\<lparr>sc_rule := rule_row db sc\<rparr>)" if sc: "sc \<in> set lean" for sc
  proof -
    have "sc_rule sc = None"
      using active_schedule_row [of sc db at] sc lean(2) db(1) by auto
    moreover obtain r where r: "r \<in> set (db_rules db)" "live r" "bm_id r = sc_rule_id sc"
      using db(2) sc lean(2) by (auto simp: publishable_def)
    moreover have "sc_rule_id sc \<noteq> uuid_nil" using r db(1) by (auto simp: tables_ok_def list_all_iff)
    ultimately show ?thesis
      using rules [OF sc r] rule_row_Some [OF db(1), of sc r] by (simp add: complete_schedule_def)
  qed
  have placed: "\<exists>p. sc_placement sc = Some p \<and> pl_name p = name" if "sc \<in> set lean" for sc
    using that lean(2) name by (auto simp: placement_name_of_def split: option.splits)
  have "can_serve E s name (map (\<lambda>sc. sc\<lparr>sc_rule := rule_row db sc\<rparr>) lean)"
    unfolding can_serve_def using fresh complete placed lean(1) by (simp add: list_all_iff)
  with published_image [OF db lean(2)] that show thesis by blast
qed

text \<open>What both kinds of evaluation find for a publishable placement.\<close>

lemma listed_publishable:
  assumes "publishable db at name"
    and "{sc \<in> set (unique_schedules occs). placement_name_of sc = name}
      = {sc \<in> active_schedules db at. placement_name_of sc = name}"
  obtains lean where "listed occs name = Some lean"
    and "set lean = {sc \<in> active_schedules db at. placement_name_of sc = name}"
proof -
  from assms(1) obtain sc where "sc \<in> active_schedules db at" "placement_name_of sc = name" and name: "name \<noteq> []"
    by (auto simp: publishable_def)
  then have "sc \<in> {sc \<in> set (unique_schedules occs). placement_name_of sc = name}" using assms(2) by simp
  with name have "listed occs name \<noteq> None" by (auto simp: listed_def Let_def filter_empty_conv)
  then show thesis using that listed_set [OF name, of occs] assms(2) by force
qed

lemma fetched_rule:
  assumes db: "tables_ok db" and U: "uuid_laws (sd_uuid E)"
    and sc: "sc \<in> active_schedules db at" "sc \<in> set (unique_schedules occs)"
    and r: "r \<in> set (db_rules db)" "live r" "bm_id r = sc_rule_id sc"
  shows "gm_get (new_rules E (assign_rules (rule_ids_of_schedules (map bm_id (unique_schedules occs)) db)
      (rules_by_id (gm_keys (rule_ids_of_schedules (map bm_id (unique_schedules occs)) db)) db))) (rule_key E (sc_rule_id sc)) = Some r"
proof -
  obtain s where s: "s \<in> set (db_schedules db)" "live s" "bm_id s = bm_id sc" "sc_rule_id s = sc_rule_id sc"
    by (rule active_schedule_row [OF sc(1) db])
  moreover have "bm_id s \<in> set (map bm_id (unique_schedules occs))" using sc(2) s(3) by simp
  ultimately show ?thesis
    using r new_rules_get [OF db U refl, of "map bm_id (unique_schedules occs)" "sc_rule_id sc" r] by blast
qed

lemma evaluated_can_serve:
  assumes mirror: "mirror_ready E s'" "set (unique_schedules occs) = active_schedules db at"
    "view_of E s' = full_refresh E (now_of E s') occs (assign_rules
      (rule_ids_of_schedules (map bm_id (unique_schedules occs)) db)
      (rules_by_id (gm_keys (rule_ids_of_schedules (map bm_id (unique_schedules occs)) db)) db))"
    and db: "tables_ok db" "publishable db at name" and U: "uuid_laws (sd_uuid E)"
  obtains ss where "can_serve E s' name ss" and "set ss = published db at name"
proof -
  obtain lean where lean: "listed occs name = Some lean" "set lean = {sc \<in> active_schedules db at. placement_name_of sc = name}"
    by (rule listed_publishable [OF db(2), of occs]) (use mirror(2) in auto)
  show thesis
  proof (rule mirror_can_serve [OF db _ lean(2) _ _ that])
    fix sc r assume "sc \<in> set lean" "r \<in> set (db_rules db)" "live r" "bm_id r = sc_rule_id sc"
    then show "mv_rules (view_of E s') (rule_key E (sc_rule_id sc)) = Some r"
      using fetched_rule [OF db(1) U, of sc at occs r] mirror(2) lean by (auto simp: mirror(3) full_refresh_def)
  qed (simp_all add: mirror(3) full_refresh_def lean(1))
qed

text \<open>The same for an evaluation of named placements.\<close>

lemma targeted_can_serve:
  assumes laws: "mirror_laws (sd_caches E)" and ready: "mirror_ready E s" "\<not> pressured s"
    and repo: "sd_occurrences E = Some (occurrence_repository C)" and rules: "sd_rules E = Some (get_rules_by_schedule_ids C)"
    and db: "reads C db" "tables_ok db" "publishable db (now_of E s) name" and U: "uuid_laws (sd_uuid E)"
  obtains s' ss where "evaluate E [name] s = Some s'" and "mirror_ready E s'" and "can_serve E s' name ss"
    and "set ss = published db (now_of E s) name"
proof -
  let ?occs = "list_active_by_placements_at [name] (now_of E s) db"
  have name: "name \<noteq> []" using db(3) by (simp add: publishable_def)
  obtain w where w: "query C (list_active_by_placements_at [name] (now_of E s)) (sv_world s) = (Inr ?occs, w)"
    by (rule query_readsE [OF db(1)])
  have found: "{sc \<in> set (unique_schedules ?occs). placement_name_of sc = name}
      = {sc \<in> active_schedules db (now_of E s). placement_name_of sc = name}"
    by (rule unique_schedules_placed) (use db(2) name in \<open>simp_all add: tables_ok_def\<close>)
  obtain lean where lean: "listed ?occs name = Some lean"
      "set lean = {sc \<in> active_schedules db (now_of E s). placement_name_of sc = name}"
    by (rule listed_publishable [OF db(3) found])
  obtain s' where s': "evaluate E [name] s = Some s'" "mirror_ready E s'"
    and view: "view_of E s' = targeted_refresh E (now_of E s') ?occs (rules_or_none (Inr (assign_rules
        (rule_ids_of_schedules (map bm_id (unique_schedules ?occs)) db)
        (rules_by_id (gm_keys (rule_ids_of_schedules (map bm_id (unique_schedules ?occs)) db)) db))))
      (view_of E (s\<lparr>sv_world := sv_world s'\<rparr>))"
    by (rule evaluate_targeted [where names = "[name]" and w = w and occs = ?occs, OF laws ready _ repo _ _ rules bulk_reads [OF db(1)]])
      (use lean(1) w in \<open>auto simp: occurrence_repository_def\<close>)
  show thesis
  proof (rule mirror_can_serve [OF db(2,3) _ lean(2) _ _ that [OF s']])
    show mirrored: "mv_schedules (view_of E s') name = Some lean"
      by (simp add: view targeted_refresh_def prune_view_def lean(1))
    show "mv_syncs (view_of E s') name = Some (now_of E s')"
      by (simp add: view targeted_refresh_def prune_view_def lean(1))
    fix sc r assume sc: "sc \<in> set lean" and r: "r \<in> set (db_rules db)" "live r" "bm_id r = sc_rule_id sc"
    have active: "sc \<in> active_schedules db (now_of E s)" using sc lean(2) by simp
    have "sc \<in> set (unique_schedules ?occs)" using sc lean(2) found by blast
    note fetched_rule [OF db(2) U active this r]
    moreover have "sc_rule_id sc \<noteq> uuid_nil" using r db(2) by (auto simp: tables_ok_def list_all_iff)
    then have "rule_key E (sc_rule_id sc) \<in> referenced E (mv_schedules (view_of E s'))"
      unfolding referenced_def using sc mirrored by blast
    ultimately show "mv_rules (view_of E s') (rule_key E (sc_rule_id sc)) = Some r"
      by (simp add: view targeted_refresh_def prune_view_def rules_or_none_def)
  qed
qed

end
