(* ===== verification/Database_Properties.thy ===== *)
theory Database_Properties
  imports Database_Spec Sample_Service
begin

text \<open>
  The repositories and the service over one database: what a request is answered after an
  evaluation, the mirror in terms of the rows, the bulk lookup of rules against the lookup one
  by one, and the maintenance of the occurrence table. Each property is followed by an
  instance.
\<close>

section \<open>From the tables to the content\<close>

text \<open>What a request finds when the mirror can answer for its placements with what is published.\<close>

lemma published_offers:
  assumes "mirror_ready E s'" and "distinct names"
    and serve: "\<And>name. name \<in> set names \<Longrightarrow> \<exists>ss. can_serve E s' name ss \<and> set ss = published db at name"
    and "\<not> customer_is_empty c" and "sd_evaluator E = Some (local_evaluator U)" and "uuid_laws U"
    and "sd_occurrences E \<noteq> None" and "tables_ok db"
  shows "\<exists>rules s0 attrs s1 leads s2 xs.
    covers rules {r. \<exists>name \<in> set names. \<exists>sc \<in> published db at name. sc_rule sc = Some r}
    \<and> resolve_user_attrs E (cu_type c) (customer_value c) rules s0 = (attrs, s1)
    \<and> fetch_leads_for_request E c cnl names rules s1 = (leads, s2)
    \<and> get_personalized_content E (Some c) cnl names s' = Some (Inr xs, s2)
    \<and> (\<forall>x. x \<in> set xs \<longleftrightarrow> (\<exists>name \<in> set names. \<exists>sc \<in> published db at name.
        offered U name (Some (gm_get attrs)) leads sc x))"
proof -
  obtain ss where ss: "\<And>name. name \<in> set names \<Longrightarrow> can_serve E s' name (ss name)"
    "\<And>name. name \<in> set names \<Longrightarrow> set (ss name) = published db at name" using serve by metis
  have loaded: "list_all (rules_within rule_loaded) (ss name)" if "name \<in> set names" for name
    using ss(2) [OF that] assms(8) by (auto simp: list_all_iff rules_within_def published_def tables_ok_def)
  have rules: "rules_of (concat (map ss names)) = {r. \<exists>name \<in> set names. \<exists>sc \<in> published db at name. sc_rule sc = Some r}"
    using ss(2) by (auto simp: rules_of_def)
  show ?thesis
  proof (rule uuid_laws.request_offers [OF assms(6,1,2) ss(1) assms(4,5,7) loaded, where cnl = cnl])
    fix h rules attrs s1 leads s2 xs
    assume found: "covers rules (rules_of (concat (map ss names)))"
      "resolve_user_attrs E (cu_type c) (customer_value c) rules (s'\<lparr>sv_heap := h\<rparr>) = (attrs, s1)"
      "fetch_leads_for_request E c cnl names rules s1 = (leads, s2)"
      "get_personalized_content E (Some c) cnl names s' = Some (Inr xs, s2)"
      "\<forall>x. x \<in> set xs \<longleftrightarrow> (\<exists>name \<in> set names. \<exists>sc \<in> set (ss name). offered U name (Some (gm_get attrs)) leads sc x)"
    have "\<forall>x. x \<in> set xs \<longleftrightarrow> (\<exists>name \<in> set names. \<exists>sc \<in> published db at name.
        offered U name (Some (gm_get attrs)) leads sc x)"
      using found(5) ss(2) by (metis (no_types, lifting))
    with found(1-4) show ?thesis unfolding rules by blast
  qed
qed

text \<open>C2: After an evaluation against the database, a request is answered from it alone: it returns
  exactly the offers that the active schedules of the requested placements have with their rules,
  as the tables say, for the attributes and the leads of the customer.\<close>

theorem published_content:
  assumes "mirror_laws (sd_caches E)" and "uuid_laws (sd_uuid E)" and "mirror_ready E s" and "\<not> pressured s"
    and "sd_occurrences E = Some (occurrence_repository C)" and "sd_rules E = Some (get_rules_by_schedule_ids C)"
    and "sd_evaluator E = Some (local_evaluator U)" and "uuid_laws U"
    and "reads C db" and "tables_ok db" and "distinct names" and "\<not> customer_is_empty c"
    and "\<And>name. name \<in> set names \<Longrightarrow> publishable db (now_of E s) name"
  shows "\<exists>s' rules s0 attrs s1 leads s2 xs. evaluate E [] s = Some s'
    \<and> covers rules {r. \<exists>name \<in> set names. \<exists>sc \<in> published db (now_of E s) name. sc_rule sc = Some r}
    \<and> resolve_user_attrs E (cu_type c) (customer_value c) rules s0 = (attrs, s1)
    \<and> fetch_leads_for_request E c cnl names rules s1 = (leads, s2)
    \<and> get_personalized_content E (Some c) cnl names s' = Some (Inr xs, s2)
    \<and> (\<forall>x. x \<in> set xs \<longleftrightarrow> (\<exists>name \<in> set names. \<exists>sc \<in> published db (now_of E s) name.
        offered U name (Some (gm_get attrs)) leads sc x))"
proof -
  let ?at = "now_of E s"
  obtain s' occs where s': "evaluate E [] s = Some s'" and ready: "mirror_ready E s'"
    and mirror: "set (unique_schedules occs) = active_schedules db ?at"
      "view_of E s' = full_refresh E (now_of E s') occs (assign_rules
      (rule_ids_of_schedules (map bm_id (unique_schedules occs)) db)
      (rules_by_id (gm_keys (rule_ids_of_schedules (map bm_id (unique_schedules occs)) db)) db))"
    by (rule evaluated_mirror [OF assms(1,3-6,9,10)])
  have serve: "\<exists>ss. can_serve E s' name ss \<and> set ss = published db ?at name" if "name \<in> set names" for name
    using evaluated_can_serve [OF ready mirror assms(10) assms(13) [OF that] assms(2)] by blast
  have repo: "sd_occurrences E \<noteq> None" using assms(5) by simp
  from published_offers [where cnl = cnl, OF ready assms(11) serve assms(12,7,8) repo assms(10)] s' show ?thesis by blast
qed

text \<open>A database with one placement, one schedule that is always due, and its rule.\<close>

definition demo_db :: database where
  "demo_db =
     \<lparr>db_occurrences = [zero_occurrence\<lparr>bm_id := 5, oc_schedule_id := 7, oc_end := \<lparr>tm_ns = hour_ns, tm_off = 0\<rparr>,
        oc_status := occ_active\<rparr>],
      db_schedules = [zero_schedule\<lparr>bm_id := 7, sc_rule_id := 3, sc_placement_id := 9\<rparr>],
      db_placements = [zero_placement\<lparr>bm_id := 9, pl_name := ''home''\<rparr>],
      db_rules = [demo_rule\<lparr>dr_status := status_active\<rparr>], db_attributes = [], db_schemas = []\<rparr>"

definition demo_wiring :: "database \<Rightarrow> (cached std_store, int) service_deps" where
  "demo_wiring db =
     (demo_deps (Inr []))\<lparr>sd_occurrences := Some (occurrence_repository (\<lambda>w. (Inr db, w))),
       sd_rules := Some (get_rules_by_schedule_ids (\<lambda>w. (Inr db, w)))\<rparr>"

lemma demo_reads: "reads (\<lambda>w. (Inr db, w)) db"
  by (simp add: reads_def)

lemma demo_wiring_simps [simp]:
  "sd_caches (demo_wiring db) = std_ops" "sd_uuid (demo_wiring db) = std_uuid"
  "sd_evaluator (demo_wiring db) = Some (local_evaluator std_uuid)"
  "sd_occurrences (demo_wiring db) = Some (occurrence_repository (\<lambda>w. (Inr db, w)))"
  "sd_rules (demo_wiring db) = Some (get_rules_by_schedule_ids (\<lambda>w. (Inr db, w)))"
  "now_of (demo_wiring db) s = \<lparr>tm_ns = sv_world s, tm_off = 0\<rparr>"
  "mirror_ready (demo_wiring db) s = mirror_ready (demo_deps (Inr [])) s"
  by (simp_all add: demo_wiring_def now_of_def mirror_ready_def cache_ready_def) (simp_all add: demo_deps_def)

lemmas demo_db_defs = demo_db_def zero_defs demo_rule_def

lemma demo_tables: "tables_ok demo_db"
  by (simp add: tables_ok_def demo_db_defs rule_loaded_def uuid_nil_def)

lemma demo_active:
  "active_schedules demo_db \<lparr>tm_ns = 4, tm_off = 0\<rparr> =
    {zero_schedule\<lparr>bm_id := 7, sc_rule_id := 3, sc_placement_id := 9,
      sc_placement := Some (zero_placement\<lparr>bm_id := 9, pl_name := ''home''\<rparr>)\<rparr>}"
  by (simp add: active_schedules_def demo_db_defs live_def joined_rules_def open_at_def preload_placement_def
      time_after_def hour_ns_def minute_ns_def second_ns_def zero_time_def)

lemma demo_publishable: "publishable demo_db \<lparr>tm_ns = 4, tm_off = 0\<rparr> ''home''"
  unfolding publishable_def demo_active
  by (simp add: demo_db_defs live_def placement_name_of_def)

theorem published_content_witness:
  "\<exists>s' rules s0 attrs s1 leads s2 xs. evaluate (demo_wiring demo_db) [] (demo_full 4) = Some s'
    \<and> covers rules {r. \<exists>name \<in> set [''home'']. \<exists>sc \<in> published demo_db (now_of (demo_wiring demo_db) (demo_full 4)) name.
        sc_rule sc = Some r}
    \<and> resolve_user_attrs (demo_wiring demo_db) (cu_type demo_customer) (customer_value demo_customer) rules s0 = (attrs, s1)
    \<and> fetch_leads_for_request (demo_wiring demo_db) demo_customer ''app'' [''home''] rules s1 = (leads, s2)
    \<and> get_personalized_content (demo_wiring demo_db) (Some demo_customer) ''app'' [''home''] s' = Some (Inr xs, s2)
    \<and> (\<forall>x. x \<in> set xs \<longleftrightarrow> (\<exists>name \<in> set [''home''].
        \<exists>sc \<in> published demo_db (now_of (demo_wiring demo_db) (demo_full 4)) name.
        offered std_uuid name (Some (gm_get attrs)) leads sc x))"
proof (rule published_content [OF _ _ _ demo_full_ready(2) _ _ _ _ demo_reads demo_tables])
  show "mirror_laws (sd_caches (demo_wiring demo_db))" using std.mirror_laws_axioms by simp
  show "mirror_ready (demo_wiring demo_db) (demo_full 4)" using demo_full_ready(1) by simp
  show "publishable demo_db (now_of (demo_wiring demo_db) (demo_full 4)) name" if "name \<in> set [''home'']" for name
    using that demo_publishable by simp
qed (simp_all add: canonical.uuid_laws_axioms demo_customer_def customer_is_empty_def)

text \<open>C33: Looking up the rules of many schedules at once gives, for every one of them, the rule that
  looking it up alone gives, and nothing for other schedules: two statements instead of two per
  schedule change no answer, as long as identifiers are unique and no rule has the nil identifier.\<close>

theorem bulk_rule_lookup_agrees:
  assumes "reads C db" and "distinct (map bm_id (db_schedules db))" and "distinct (map bm_id (db_rules db))"
    and "list_all (\<lambda>r. bm_id r \<noteq> uuid_nil) (db_rules db)"
  shows "\<exists>rules. fst (get_rules_by_schedule_ids C w ids) = Inr rules
    \<and> list_all (\<lambda>i. fst (get_rule_by_schedule_id C w' i) = Inr (gm_get rules i)) ids
    \<and> set (gm_keys rules) \<subseteq> set ids"
  unfolding list_all_iff
proof (intro exI conjI ballI)
  let ?rules = "assign_rules (rule_ids_of_schedules ids db) (rules_by_id (gm_keys (rule_ids_of_schedules ids db)) db)"
  note found = assigned_rules [OF assms(2,3), of ids]
  show "fst (get_rules_by_schedule_ids C w ids) = Inr ?rules" by (rule bulk_reads [OF assms(1)])
  show "set (gm_keys ?rules) \<subseteq> set ids" unfolding set_gm_keys using found by blast
  fix i assume i: "i \<in> set ids"
  have "gm_get ?rules i = Some r \<longleftrightarrow> (case find (\<lambda>s. bm_id s = i \<and> live s) (db_schedules db) of
       None \<Rightarrow> None | Some s \<Rightarrow> find (\<lambda>r. bm_id r = sc_rule_id s \<and> live r) (db_rules db)) = Some r" for r
  proof (cases "find (\<lambda>s. bm_id s = i \<and> live s) (db_schedules db)")
    case None
    then have "\<not> (\<exists>s \<in> set (db_schedules db). live s \<and> bm_id s = i)" by (auto simp: find_None_iff)
    then show ?thesis unfolding found None by auto
  next
    case (Some s)
    then have s: "s \<in> set (db_schedules db)" "bm_id s = i" "live s" by (simp_all add: find_row [OF assms(2)])
    have "t = s" if "t \<in> set (db_schedules db)" "bm_id t = i" for t
      by (rule row_unique [OF assms(2) that(1) s(1)]) (simp add: that(2) s(2))
    with s have only: "(\<exists>t \<in> set (db_schedules db). live t \<and> bm_id t = i \<and> Q t) \<longleftrightarrow> Q s" for Q by blast
    have nonnil: "r \<in> set (db_rules db) \<Longrightarrow> bm_id r = sc_rule_id s \<Longrightarrow> sc_rule_id s \<noteq> uuid_nil"
      using assms(4) by (auto simp: list_all_iff)
    have "gm_get ?rules i = Some r \<longleftrightarrow> sc_rule_id s \<noteq> uuid_nil \<and> r \<in> set (db_rules db) \<and> live r \<and> bm_id r = sc_rule_id s"
      unfolding found only using i by simp
    then show ?thesis unfolding Some option.case find_row [OF assms(3)] using nonnil by blast
  qed
  then show "fst (get_rule_by_schedule_id C w' i) = Inr (gm_get ?rules i)"
    unfolding single_reads [OF assms(1)] by (intro arg_cong [of _ _ Inr]) (rule option_ext [symmetric])
qed

theorem bulk_rule_lookup_agrees_witness:
  "\<exists>rules. fst (get_rules_by_schedule_ids (\<lambda>w. (Inr demo_db, w)) (0 :: int) [7, 8]) = Inr rules
    \<and> list_all (\<lambda>i. fst (get_rule_by_schedule_id (\<lambda>w. (Inr demo_db, w)) (1 :: int) i) = Inr (gm_get rules i)) [7, 8]
    \<and> set (gm_keys rules) \<subseteq> set [7, 8]"
  by (rule bulk_rule_lookup_agrees [OF demo_reads]) (use demo_tables in \<open>simp_all add: tables_ok_def\<close>)

text \<open>An evaluation of the whole mirror makes it show, for every placement name, exactly the
  schedules of that placement that are due according to the tables: live, with a live open
  occurrence and an active rule.\<close>

theorem mirror_shows_active_schedules:
  assumes "mirror_laws (sd_caches E)" and "mirror_ready E s" and "\<not> pressured s"
    and "sd_occurrences E = Some (occurrence_repository C)" and "sd_rules E = Some (get_rules_by_schedule_ids C)"
    and "reads C db" and "tables_ok db"
  shows "\<exists>s'. evaluate E [] s = Some s'
    \<and> (\<forall>name. name \<noteq> [] \<longrightarrow>
        set (case mv_schedules (view_of E s') name of None \<Rightarrow> [] | Some ss \<Rightarrow> ss) =
        {sc \<in> active_schedules db (now_of E s). placement_name_of sc = name})"
proof -
  obtain s' occs where s': "evaluate E [] s = Some s'"
    "set (unique_schedules occs) = active_schedules db (now_of E s)"
    "view_of E s' = full_refresh E (now_of E s') occs (assign_rules
      (rule_ids_of_schedules (map bm_id (unique_schedules occs)) db)
      (rules_by_id (gm_keys (rule_ids_of_schedules (map bm_id (unique_schedules occs)) db)) db))"
    by (rule evaluated_mirror [OF assms])
  have "mv_schedules (view_of E s') = listed occs" by (simp add: s'(3) full_refresh_def)
  then show ?thesis using s'(1) listed_set [where occs = occs] unfolding s'(2) by auto
qed

theorem mirror_shows_active_schedules_witness:
  "\<exists>s'. evaluate (demo_wiring demo_db) [] (demo_full 4) = Some s'
    \<and> (\<forall>name. name \<noteq> [] \<longrightarrow>
        set (case mv_schedules (view_of (demo_wiring demo_db) s') name of None \<Rightarrow> [] | Some ss \<Rightarrow> ss) =
        {sc \<in> active_schedules demo_db (now_of (demo_wiring demo_db) (demo_full 4)). placement_name_of sc = name})"
  by (rule mirror_shows_active_schedules [OF _ _ demo_full_ready(2) _ _ demo_reads demo_tables])
    (use std.mirror_laws_axioms demo_full_ready(1) in simp_all)




section \<open>The maintenance of the occurrences\<close>

lemma filter_map_other:
  assumes "\<And>x. x \<in> set xs \<Longrightarrow> P x \<Longrightarrow> f x = x" and "\<And>x. x \<in> set xs \<Longrightarrow> P (f x) \<Longrightarrow> P x"
  shows "filter P (map f xs) = filter P xs"
proof -
  have "P (f x) = P x" if "x \<in> set xs" for x using assms [OF that] by (cases "P x") auto
  then show ?thesis using assms(1) by (simp add: filter_map comp_def cong: filter_cong) (intro map_idI, simp)
qed

lemma filter_filter_other:
  assumes "\<And>x. x \<in> set xs \<Longrightarrow> P x \<Longrightarrow> Q x"
  shows "filter P (filter Q xs) = filter P xs"
  using assms by (induction xs) auto

lemma preload_occurrences [simp]:
  "preload_placement (db\<lparr>db_occurrences := ocs\<rparr>) = preload_placement db"
  by (simp add: preload_placement_def fun_eq_iff)

text \<open>The listings read the occurrences only through the open ones.\<close>

lemma listing_open_occurrences:
  assumes "filter (\<lambda>oc. live oc \<and> open_at at oc) ocs = filter (\<lambda>oc. live oc \<and> open_at at oc) (db_occurrences db)"
  shows "list_active_at at (db\<lparr>db_occurrences := ocs\<rparr>) = list_active_at at db"
    and "list_active_by_placements_at names at (db\<lparr>db_occurrences := ocs\<rparr>) = list_active_by_placements_at names at db"
  using assms by (simp_all add: list_active_at_def list_active_by_placements_at_def joined_rules_def
      joined_placements_def preload_schedule_def)

lemma stamped_fields [simp]:
  "live ((stamp_update at user oc)\<lparr>oc_status := st\<rparr>) = live oc"
  "oc_status ((stamp_update at user oc)\<lparr>oc_status := st\<rparr>) = st"
  "oc_schedule_id ((stamp_update at user oc)\<lparr>oc_status := st\<rparr>) = oc_schedule_id oc"
  by (simp_all add: stamp_update_def before_update_def live_def split: option.split)

text \<open>C35: Expiring the ended occurrences and deleting the past ones, as of any time up to that of a
  listing, in whatever order they run before it, changes nothing that the listing shows.\<close>

theorem maintenance_keeps_listing:
  assumes "tm_ns now \<le> tm_ns at" and "tm_ns before \<le> tm_ns at"
  shows "list_active_at at (fst (expire_ended_occurrences stamp user now (delete_past_occurrences before db)))
      = list_active_at at db
    \<and> list_active_at at (delete_past_occurrences before (fst (expire_ended_occurrences stamp user now db)))
      = list_active_at at db
    \<and> list_active_by_placements_at names at
        (fst (expire_ended_occurrences stamp user now (delete_past_occurrences before db)))
      = list_active_by_placements_at names at db"
proof -
  let ?open = "\<lambda>oc. live oc \<and> open_at at oc"
  have expire: "\<exists>ocs. fst (expire_ended_occurrences stamp user now db) = db\<lparr>db_occurrences := ocs\<rparr>
      \<and> filter ?open ocs = filter ?open (db_occurrences db)" for db
    unfolding expire_ended_occurrences_def update_status_def fst_conv
  proof (intro exI conjI, rule refl, rule filter_map_other)
    fix oc assume "?open oc"
    then show "(if live oc \<and> oc_status oc = occ_active \<and> \<not> time_after (oc_end oc) now
        then (stamp_update stamp user oc)\<lparr>oc_status := ''EXPIRED''\<rparr> else oc) = oc"
      using assms(1) by (simp add: open_at_def time_after_def)
  next
    fix oc assume "?open (if live oc \<and> oc_status oc = occ_active \<and> \<not> time_after (oc_end oc) now
        then (stamp_update stamp user oc)\<lparr>oc_status := ''EXPIRED''\<rparr> else oc)"
    then show "?open oc" by (simp add: open_at_def occ_active_def split: if_splits)
  qed
  have delete: "\<exists>ocs. delete_past_occurrences before db = db\<lparr>db_occurrences := ocs\<rparr>
      \<and> filter ?open ocs = filter ?open (db_occurrences db)" for db
    unfolding delete_past_occurrences_def
    by (intro exI conjI, rule refl, rule filter_filter_other)
      (use assms(2) in \<open>auto simp: open_at_def time_after_def time_before_def\<close>)
  note shown = listing_open_occurrences
  have "list_active_at at (fst (expire_ended_occurrences stamp user now db)) = list_active_at at db"
    "list_active_by_placements_at names at (fst (expire_ended_occurrences stamp user now db))
      = list_active_by_placements_at names at db" for db
    using expire [of db] shown by auto
  moreover have "list_active_at at (delete_past_occurrences before db) = list_active_at at db"
    "list_active_by_placements_at names at (delete_past_occurrences before db) = list_active_by_placements_at names at db" for db
    using delete [of db] shown by auto
  ultimately show ?thesis by simp
qed

theorem maintenance_keeps_listing_witness:
  "list_active_at \<lparr>tm_ns = 4, tm_off = 0\<rparr> (fst (expire_ended_occurrences zero_time None \<lparr>tm_ns = 4, tm_off = 0\<rparr>
      (delete_past_occurrences \<lparr>tm_ns = 3, tm_off = 0\<rparr> demo_db))) = list_active_at \<lparr>tm_ns = 4, tm_off = 0\<rparr> demo_db
    \<and> list_active_at \<lparr>tm_ns = 4, tm_off = 0\<rparr> (delete_past_occurrences \<lparr>tm_ns = 3, tm_off = 0\<rparr>
        (fst (expire_ended_occurrences zero_time None \<lparr>tm_ns = 4, tm_off = 0\<rparr> demo_db)))
      = list_active_at \<lparr>tm_ns = 4, tm_off = 0\<rparr> demo_db
    \<and> list_active_by_placements_at [''home''] \<lparr>tm_ns = 4, tm_off = 0\<rparr> (fst (expire_ended_occurrences zero_time None
        \<lparr>tm_ns = 4, tm_off = 0\<rparr> (delete_past_occurrences \<lparr>tm_ns = 3, tm_off = 0\<rparr> demo_db)))
      = list_active_by_placements_at [''home''] \<lparr>tm_ns = 4, tm_off = 0\<rparr> demo_db"
  by (rule maintenance_keeps_listing) simp_all

text \<open>C36: Cancelling the occurrences of a decision rule takes exactly the occurrences of its live schedules
  out of every listing and leaves the rest as it was, and reports how many were active.\<close>

theorem cancelled_rule_is_not_listed:
  shows "list_active_at at (fst (cancel_by_decision_rule_id stamp user rule_id db)) =
      filter (\<lambda>oc. oc_schedule_id oc \<notin> bm_id ` {sc \<in> set (db_schedules db). live sc \<and> sc_rule_id sc = rule_id})
        (list_active_at at db)
    \<and> snd (cancel_by_decision_rule_id stamp user rule_id (fst (cancel_by_decision_rule_id stamp user rule_id db))) = 0"
proof
  let ?own = "\<lambda>oc. oc_schedule_id oc \<in> bm_id ` {sc \<in> set (db_schedules db). live sc \<and> sc_rule_id sc = rule_id}"
  let ?cancel = "\<lambda>oc. if live oc \<and> oc_status oc = occ_active \<and> ?own oc
    then (stamp_update stamp user oc)\<lparr>oc_status := ''CANCELLED''\<rparr> else oc"
  let ?row = "\<lambda>oc. concat (map (\<lambda>s. map (\<lambda>r. preload_schedule db oc) (joined_rules db s))
    (filter (\<lambda>s. bm_id s = oc_schedule_id oc) (db_schedules db)))"
  have own: "set (map bm_id (filter (\<lambda>s. live s \<and> sc_rule_id s = rule_id) (db_schedules db))) =
      bm_id ` {sc \<in> set (db_schedules db). live sc \<and> sc_rule_id sc = rule_id}" by auto
  have cancel: "fst (cancel_by_decision_rule_id stamp user rule_id db) =
      db\<lparr>db_occurrences := map ?cancel (db_occurrences db)\<rparr>"
    unfolding cancel_by_decision_rule_id_def update_status_def own by simp
  have filtered: "filter (\<lambda>oc. live oc \<and> open_at at oc) (map ?cancel ocs) =
      filter (\<lambda>oc. \<not> ?own oc) (filter (\<lambda>oc. live oc \<and> open_at at oc) ocs)" for ocs
    by (induction ocs) (auto simp: open_at_def occ_active_def)
  have rows: "concat (map ?row (filter (\<lambda>oc. \<not> ?own oc) ocs)) = filter (\<lambda>oc. \<not> ?own oc) (concat (map ?row ocs))" for ocs
  proof (induction ocs)
    case (Cons oc ocs)
    have "\<forall>x \<in> set (?row oc). oc_schedule_id x = oc_schedule_id oc" by simp
    then have "filter (\<lambda>x. \<not> ?own x) (?row oc) = (if ?own oc then [] else ?row oc)"
      by (simp add: filter_empty_conv filter_id_conv)
    with Cons show ?case by simp
  qed simp
  have listing: "list_active_at at (db\<lparr>db_occurrences := ocs\<rparr>) =
      concat (map ?row (filter (\<lambda>oc. live oc \<and> open_at at oc) ocs))" for ocs
    by (simp add: list_active_at_def joined_rules_def preload_schedule_def)
  have "list_active_at at db = concat (map ?row (filter (\<lambda>oc. live oc \<and> open_at at oc) (db_occurrences db)))"
    by (simp add: list_active_at_def)
  then show "list_active_at at (fst (cancel_by_decision_rule_id stamp user rule_id db)) =
      filter (\<lambda>oc. \<not> ?own oc) (list_active_at at db)"
    unfolding cancel listing filtered rows by (simp only:)
  show "snd (cancel_by_decision_rule_id stamp user rule_id (fst (cancel_by_decision_rule_id stamp user rule_id db))) = 0"
    unfolding cancel by (auto simp: cancel_by_decision_rule_id_def update_status_def filter_empty_conv occ_active_def
        split: if_splits)
qed

text \<open>The rows of an upsert that is done: every window is in the table, with what was written.\<close>

definition written :: "occurrence \<Rightarrow> occurrence \<Rightarrow> bool" where
  "written oc r =
     (oc_status r = oc_status oc \<and> oc_source r = oc_source oc \<and> bm_updated_at r = bm_updated_at oc
      \<and> bm_updated_by r = bm_updated_by oc)"

definition window_settled :: "occurrence \<Rightarrow> occurrence list \<Rightarrow> bool" where
  "window_settled oc rows = ((\<exists>r \<in> set rows. same_window oc r) \<and> (\<forall>r \<in> set rows. same_window oc r \<longrightarrow> written oc r))"

lemma same_window_iff:
  "same_window a b \<longleftrightarrow> (oc_schedule_id a, tm_ns (oc_start a), tm_ns (oc_end a)) =
    (oc_schedule_id b, tm_ns (oc_start b), tm_ns (oc_end b))"
  by (simp add: same_window_def time_equal_def)

definition rewrite_row :: "occurrence \<Rightarrow> occurrence \<Rightarrow> occurrence" where
  "rewrite_row oc r =
     (if same_window oc r
      then r\<lparr>oc_status := oc_status oc, oc_source := oc_source oc, bm_updated_at := bm_updated_at oc,
             bm_updated_by := bm_updated_by oc\<rparr>
      else r)"

lemma upsert_row_rewrite:
  "upsert_row rows oc = (if \<exists>r \<in> set rows. same_window oc r then map (rewrite_row oc) rows else rows @ [oc])"
  by (simp add: upsert_row_def rewrite_row_def list_ex_iff)

lemma same_window_rewrite [simp]:
  "same_window a (rewrite_row oc r) \<longleftrightarrow> same_window a r" "same_window (rewrite_row oc r) a \<longleftrightarrow> same_window r a"
  by (simp_all add: rewrite_row_def same_window_iff)

lemma settled_upsert: "window_settled oc (upsert_row rows oc)"
proof -
  have "same_window oc oc" by (simp add: same_window_iff)
  then show ?thesis
    by (auto simp: window_settled_def upsert_row_rewrite) (simp_all add: written_def rewrite_row_def)
qed

lemma settled_upsert_other:
  "window_settled oc rows \<Longrightarrow> \<not> same_window oc' oc \<Longrightarrow> window_settled oc (upsert_row rows oc')"
  by (auto simp: window_settled_def upsert_row_rewrite written_def rewrite_row_def same_window_iff)

lemma upsert_settled: "window_settled oc rows \<Longrightarrow> upsert_row rows oc = rows"
  by (auto simp: window_settled_def upsert_row_rewrite written_def rewrite_row_def intro!: map_idI occurrence.equality)

lemma windows_distinct_iff: "windows_distinct (xs @ ys) \<longleftrightarrow>
    windows_distinct xs \<and> windows_distinct ys \<and> (\<forall>x \<in> set xs. \<forall>y \<in> set ys. \<not> same_window x y)"
  by (induction xs) (auto simp: list_ex_iff)

lemma windows_distinct_rewrite [simp]: "windows_distinct (map (rewrite_row oc) rows) = windows_distinct rows"
  by (induction rows) (simp_all add: list_ex_iff)

lemma windows_distinct_upsert: "windows_distinct rows \<Longrightarrow> windows_distinct (upsert_row rows oc)"
  by (auto simp: upsert_row_rewrite windows_distinct_iff same_window_iff)

lemma upsert_all_settled:
  assumes "windows_distinct ocs" and "oc \<in> set ocs"
  shows "window_settled oc (foldl upsert_row rows ocs)"
  using assms
proof (induction ocs arbitrary: rows)
  case (Cons x ocs)
  have keep: "window_settled x (foldl upsert_row rows ocs)" if "window_settled x rows" "\<forall>y \<in> set ocs. \<not> same_window y x" for rows
    using that by (induction ocs arbitrary: rows) (simp_all add: settled_upsert_other)
  show ?case
  proof (cases "oc = x")
    case True
    have "\<forall>y \<in> set ocs. \<not> same_window y x" using Cons.prems(1) by (auto simp: list_ex_iff same_window_iff)
    from keep [OF settled_upsert this] show ?thesis by (simp add: True)
  next
    case False
    then show ?thesis using Cons by simp
  qed
qed simp

text \<open>C37: Upserting occurrences keeps at most one row per schedule and window, leaves every given window
  in the table with the given status and source, and doing it twice is the same as doing it
  once, so a repeated materialisation changes nothing.\<close>

theorem upsert_is_idempotent:
  assumes "windows_distinct (db_occurrences db)" and "upsert_occurrences ocs db = Some db'"
  shows "windows_distinct (db_occurrences db') \<and> upsert_occurrences ocs db' = Some db'
    \<and> list_all (\<lambda>oc. list_ex (\<lambda>r. same_window oc r \<and> written oc r) (db_occurrences db')) ocs"
proof (cases "ocs = []")
  case False
  with assms(2) have dist: "windows_distinct ocs" and db': "db' = db\<lparr>db_occurrences := foldl upsert_row (db_occurrences db) ocs\<rparr>"
    by (auto simp: upsert_occurrences_def split: if_splits)
  have settled: "window_settled oc (db_occurrences db')" if "oc \<in> set ocs" for oc
    using upsert_all_settled [OF dist that] by (simp add: db')
  have "foldl upsert_row rows xs = rows" if "\<forall>oc \<in> set xs. window_settled oc rows" for rows xs
    using that by (induction xs) (simp_all add: upsert_settled)
  then have "foldl upsert_row (db_occurrences db') ocs = db_occurrences db'" using settled by blast
  then have again: "upsert_occurrences ocs db' = Some db'" using False dist by (simp add: upsert_occurrences_def)
  have "windows_distinct rows \<Longrightarrow> windows_distinct (foldl upsert_row rows xs)" for rows xs
    by (induction xs arbitrary: rows) (simp_all add: windows_distinct_upsert)
  with assms(1) have "windows_distinct (db_occurrences db')" by (simp add: db')
  with again settled show ?thesis unfolding window_settled_def list_all_iff list_ex_iff by blast
qed (use assms in \<open>simp add: upsert_occurrences_def\<close>)

theorem upsert_is_idempotent_witness:
  "windows_distinct (db_occurrences (demo_db\<lparr>db_occurrences := db_occurrences demo_db @ [zero_occurrence]\<rparr>))
    \<and> upsert_occurrences [zero_occurrence] (demo_db\<lparr>db_occurrences := db_occurrences demo_db @ [zero_occurrence]\<rparr>)
      = Some (demo_db\<lparr>db_occurrences := db_occurrences demo_db @ [zero_occurrence]\<rparr>)
    \<and> list_all (\<lambda>oc. list_ex (\<lambda>r. same_window oc r \<and> written oc r)
        (db_occurrences (demo_db\<lparr>db_occurrences := db_occurrences demo_db @ [zero_occurrence]\<rparr>))) [zero_occurrence]"
  by (rule upsert_is_idempotent [where db = demo_db])
    (simp_all add: upsert_occurrences_def upsert_row_def same_window_def demo_db_defs)

section \<open>The service over the database\<close>

lemma query_Inr: "query C f w = (Inr x, w') \<Longrightarrow> \<exists>db. fst (C w) = Inr db \<and> x = f db"
  by (auto simp: query_def split_beta split: sum.splits)

lemma find_in_set: "find P xs = Some x \<Longrightarrow> x \<in> set xs"
  by (induction xs) (auto split: if_splits)

lemma preloaded_row:
  assumes "tables_ok db" and "oc_schedule (preload_schedule db oc) = Some sc"
  shows "rules_within R sc"
proof -
  from assms(2) obtain s where "s \<in> set (db_schedules db)" "sc = preload_placement db s"
    by (auto simp: preload_schedule_of schedule_of_def dest: find_in_set)
  with assms(1) show ?thesis by (auto simp: tables_ok_def list_all_iff rules_within_def preload_placement_def)
qed

lemma listed_rows:
  "x \<in> set (list_active_at at db) \<Longrightarrow> \<exists>oc. x = preload_schedule db oc"
  "x \<in> set (list_active_by_placements_at names at db) \<Longrightarrow> \<exists>oc. x = preload_schedule db oc"
  by (auto simp: set_list_active_at set_list_active_by_placements_at)

lemma put_all_values:
  fixes es :: "('k \<times> 'v) list"
  shows "snd ` set (put_all es m) \<subseteq> snd ` set es \<union> snd ` set m"
  unfolding put_all_def
proof (induction es arbitrary: m)
  case (Cons e es)
  have "snd ` set (gm_put k v m) \<subseteq> {v} \<union> snd ` set m" for k :: 'k and v :: 'v and m
    unfolding gm_put_def by (induction m) auto
  from this [of "fst e" "snd e" m] Cons.IH [of "gm_put (fst e) (snd e) m"] show ?case
    by (simp add: split_beta) blast
qed simp

lemma assigned_rows:
  assumes "r \<in> snd ` set (assign_rules groups (rules_by_id ids db))"
  shows "r \<in> set (db_rules db)"
proof -
  have "snd ` set (rules_by_id ids db) \<subseteq> set (db_rules db)"
    unfolding rules_by_id_put_all using put_all_values [where m = "[]" and es = "map (\<lambda>r. (bm_id r, r)) (filter (\<lambda>r. live r \<and> bm_id r \<in> set ids) (db_rules db))"]
    by auto
  moreover have "snd ` set (rule_entries groups rules) \<subseteq> snd ` set rules" for rules
  proof
    fix q assume "q \<in> snd ` set (rule_entries groups rules)"
    then obtain i where "(i, q) \<in> set (rule_entries groups rules)" by (metis imageE prod.collapse)
    then obtain k where "gm_get rules k = Some q" unfolding rule_entries_set by blast
    then have "(k, q) \<in> set rules" unfolding gm_get_def by (rule map_of_SomeD)
    then show "q \<in> snd ` set rules" by (rule rev_image_eqI) simp
  qed
  moreover have "snd ` set (assign_rules groups rules) \<subseteq> snd ` set (rule_entries groups rules)" for rules
    unfolding assign_rules_put_all using put_all_values [where m = "[]" and es = "rule_entries groups rules"] by simp
  ultimately have "snd ` set (assign_rules groups (rules_by_id ids db)) \<subseteq> set (db_rules db)"
    by (meson order.trans)
  with assms show ?thesis by (rule rev_subsetD)
qed

lemma fetched_rows:
  assumes "get_rules_by_schedule_ids C w ids = (Inr rules, w')" and "r \<in> snd ` set rules"
  shows "\<exists>v db. fst (C v) = Inr db \<and> r \<in> set (db_rules db)"
proof -
  obtain x w1 where x: "query C (rule_ids_of_schedules ids) w = (x, w1)" by fastforce
  then obtain groups where "x = Inr groups" and "groups \<noteq> []"
    and "query C (\<lambda>db. assign_rules groups (rules_by_id (gm_keys groups) db)) w1 = (Inr rules, w')"
    using assms by (cases x) (auto simp: get_rules_by_schedule_ids_def split: if_splits)
  then obtain db where "fst (C w1) = Inr db" "rules = assign_rules groups (rules_by_id (gm_keys groups) db)"
    by (blast dest: query_Inr)
  with assigned_rows assms(2) show ?thesis by blast
qed

lemma repositories_provide:
  assumes "mirror_laws (sd_caches E)" and "sd_has_metric E"
    and "sd_occurrences E = Some (occurrence_repository C)" and "sd_rules E = Some (get_rules_by_schedule_ids C)"
    and "sd_evaluator E = Some (local_evaluator U)" and "uuid_laws U"
    and "\<And>w db. fst (C w) = Inr db \<Longrightarrow> tables_ok db"
  shows "provided rule_loaded E"
proof -
  have "rules_within rule_loaded sc"
    if "list_occurrences E names s = Some (Inr occs, s')" "occ \<in> set occs" "oc_schedule occ = Some sc" for names s occs s' occ sc
  proof -
    have "\<exists>db oc. tables_ok db \<and> occ = preload_schedule db oc"
      using that(1,2) assms(7)
      by (fastforce simp: list_occurrences_def assms(3) occurrence_repository_def split: prod.splits if_splits
          dest!: query_Inr listed_rows)
    with that(3) preloaded_row show ?thesis by blast
  qed
  moreover have "rule_loaded r" if fetch: "fetch_rules E ids s = Some (Inr rules, s')" and r: "r \<in> snd ` set rules" for ids s rules s' r
  proof -
    obtain w where "get_rules_by_schedule_ids C (sv_world s) ids = (Inr rules, w)"
      by (cases "get_rules_by_schedule_ids C (sv_world s) ids") (use fetch in \<open>simp add: fetch_rules_def assms(4)\<close>)
    from fetched_rows [OF this r] assms(7) show ?thesis by (auto simp: tables_ok_def list_all_iff)
  qed
  ultimately have "supplies rule_loaded E" unfolding supplies_def by blast
  then show ?thesis
    using assms uuid_laws.local_evaluator_contract [OF assms(6)] by (simp add: provided_def wired_def)
qed

text \<open>The service wired with the repositories of the program is safe whatever the database does
  meanwhile: each statement may fail or find other rows, as long as they are rows, with every
  rule loaded with its conditions. Every reachable state is then good, and a request in it
  returns, with results only for the placements asked for.\<close>

theorem service_over_database:
  assumes "mirror_laws (sd_caches E)" and "sd_has_metric E"
    and "sd_occurrences E = Some (occurrence_repository C)" and "sd_rules E = Some (get_rules_by_schedule_ids C)"
    and "sd_evaluator E = Some (local_evaluator U)" and "uuid_laws U"
    and "\<And>w db. fst (C w) = Inr db \<Longrightarrow> tables_ok db"
    and "initial E s0" and "service_reachable E s0 s"
  shows "good rule_loaded E s
    \<and> (\<exists>r s'. get_personalized_content E customer cnl names s = Some (r, s') \<and> service_reachable E s0 s'
        \<and> (case r of Inl e \<Rightarrow> True | Inr xs \<Rightarrow> cr_source ` set xs \<subseteq> set names))"
proof -
  have provided: "provided rule_loaded E" by (rule repositories_provide [OF assms(1-7)])
  have good: "good rule_loaded E s" by (rule reachable_good [OF provided assms(8,9)])
  show ?thesis
  proof (rule request_good [OF provided good, of customer cnl names])
    fix r s'
    assume step: "get_personalized_content E customer cnl names s = Some (r, s')"
      and results: "\<And>xs x. r = Inr xs \<Longrightarrow> x \<in> set xs \<Longrightarrow> cr_source x \<in> set names"
    have "service_reachable E s0 s'" by (rule service_reachable.Step [OF assms(9) service_step.Request [OF step]])
    moreover have "case r of Inl e \<Rightarrow> True | Inr xs \<Rightarrow> cr_source ` set xs \<subseteq> set names"
      using results by (cases r) auto
    ultimately show ?thesis using good step by blast
  qed
qed

text \<open>A database that fails at every odd moment of the clock.\<close>

definition flaky :: "database \<Rightarrow> int connection" where
  "flaky db w = (if odd w then Inl ''down'' else Inr db, w + 1)"

theorem service_over_database_witness:
  "good rule_loaded ((demo_wiring demo_db)\<lparr>sd_occurrences := Some (occurrence_repository (flaky demo_db)),
      sd_rules := Some (get_rules_by_schedule_ids (flaky demo_db))\<rparr>) demo_empty
    \<and> (\<exists>r s'. get_personalized_content ((demo_wiring demo_db)\<lparr>sd_occurrences := Some (occurrence_repository (flaky demo_db)),
      sd_rules := Some (get_rules_by_schedule_ids (flaky demo_db))\<rparr>) (Some demo_customer) ''app'' [''home''] demo_empty = Some (r, s')
        \<and> service_reachable ((demo_wiring demo_db)\<lparr>sd_occurrences := Some (occurrence_repository (flaky demo_db)),
      sd_rules := Some (get_rules_by_schedule_ids (flaky demo_db))\<rparr>) demo_empty s'
        \<and> (case r of Inl e \<Rightarrow> True | Inr xs \<Rightarrow> cr_source ` set xs \<subseteq> set [''home'']))"
  by (rule service_over_database [where C = "flaky demo_db" and U = std_uuid, OF _ _ _ _ _ _ _ _ service_reachable.Start])
    (use std.mirror_laws_axioms demo_tables demo_initial [of "Inr []"] in
      \<open>auto simp: canonical.uuid_laws_axioms flaky_def initial_def demo_wiring_def split: if_splits\<close>)

section \<open>Pages\<close>

text \<open>
  The pages of a schedule's occurrences, one after the other, are its live occurrences in the
  order of their start, each once; every page comes with their number.
\<close>

lemma page_of_next: "concat (map (\<lambda>p. page_of (int p) (int n) rows) [1..<Suc k]) = take (k * n) rows"
proof (induction k)
  case (Suc k)
  have "page_of (int (Suc k)) (int n) rows = take n (drop (k * n) rows)"
    by (simp add: page_of_def flip: of_nat_mult)
  moreover have "take (Suc k * n) rows = take (k * n) rows @ take n (drop (k * n) rows)"
    by (simp only: mult_Suc add.commute [of n] take_add)
  ultimately show ?case using Suc.IH by simp
qed simp

lemma counted_page_reads:
  assumes "reads C db"
  shows "fst (counted_page C rows order page limit w) = Inr (page_of page limit (order (rows db)), length (rows db))"
proof -
  obtain w1 where 1: "query C (\<lambda>db. length (rows db)) w = (Inr (length (rows db)), w1)" by (rule query_readsE [OF assms])
  obtain w2 where "query C (\<lambda>db. page_of page limit (order (rows db))) w1 = (Inr (page_of page limit (order (rows db))), w2)"
    by (rule query_readsE [OF assms])
  with 1 show ?thesis by (simp add: counted_page_def)
qed

lemma pages_cover_schedule:
  assumes "reads C db" and "0 < n"
  shows "\<exists>rows. mset rows = mset (filter (\<lambda>oc. live oc \<and> oc_schedule_id oc = i) (db_occurrences db))
    \<and> sorted (map (\<lambda>oc. tm_ns (oc_start oc)) rows)
    \<and> (\<forall>k. concat (map (\<lambda>p. fst (projr (fst (list_by_schedule_id C i (int p) (int n) w)))) [1..<Suc k]) = take (k * n) rows)
    \<and> (\<forall>p. snd (projr (fst (list_by_schedule_id C i p (int n) w))) = length rows)"
proof -
  let ?found = "filter (\<lambda>oc. live oc \<and> oc_schedule_id oc = i) (db_occurrences db)"
  let ?rows = "sort_key (\<lambda>oc. tm_ns (oc_start oc)) ?found"
  have page: "fst (list_by_schedule_id C i p (int n) w) = Inr (page_of (if p < 1 then 1 else p) (int n) ?rows, length ?found)" for p
    using assms(2) by (simp add: list_by_schedule_id_def counted_page_reads [OF assms(1)])
  have "map (\<lambda>p. fst (projr (fst (list_by_schedule_id C i (int p) (int n) w)))) [1..<Suc k]
      = map (\<lambda>p. page_of (int p) (int n) ?rows) [1..<Suc k]" for k
    by (rule map_cong [OF refl]) (auto simp: page)
  then have "concat (map (\<lambda>p. fst (projr (fst (list_by_schedule_id C i (int p) (int n) w)))) [1..<Suc k])
      = take (k * n) ?rows" for k
    by (simp only: page_of_next)
  then show ?thesis
    by (intro exI [of _ ?rows]) (simp add: page del: upt_Suc)
qed

end
