(* ===== verification/Redis_Repository.thy ===== *)
theory Redis_Repository
  imports Sync_Subscriber
begin

text \<open>
  src/internal/repository/redis_repository.go over the go-redis client, and the typed
  cache-aside helper of src/pkg/util/cache.go. The client library, the Azure credentials and
  the texts of errors are parameters. A subscription is a relay: a goroutine that moves
  messages from the client's channel into a buffered channel; its steps and those of the
  reader are a step relation.
\<close>

section \<open>Connecting\<close>

record redis_config =
  rf_host :: string
  rf_port :: string
  rf_username :: string
  rf_password :: string
  rf_tls :: bool
  rf_principal_id :: string

text \<open>
  The options of the client. TLS, where it is set, is at least 1.2; the flag says whether the
  server's certificate is not verified. A credentials provider is asked at every new
  connection for a user name and a password.
\<close>

record 'w redis_options =
  ro_addr :: string
  ro_username :: string
  ro_password :: string
  ro_tls :: "bool option"
  ro_provider :: "('w \<Rightarrow> (string \<times> string) \<times> 'w) option"

text \<open>
  A token is fetched under the context of the construction: \<open>get_token ended w\<close> is what the
  credential answers in the world \<open>w\<close> when that context is still open or has ended.
\<close>

type_synonym 'w credential = "bool \<Rightarrow> 'w \<Rightarrow> (string + string) \<times> 'w"

definition credentials_provider ::
  "string \<Rightarrow> 'w credential \<Rightarrow> ('w \<Rightarrow> bool) \<Rightarrow> 'w \<Rightarrow> (string \<times> string) \<times> 'w" where
  "credentials_provider user get_token ended w =
     (case get_token (ended w) w of
        (Inl _, w) \<Rightarrow> ((user, []), w)
      | (Inr token, w) \<Rightarrow> ((user, token), w))"

definition redis_addr :: "redis_config \<Rightarrow> string" where
  "redis_addr c = rf_host c @ '':'' @ rf_port c"

text \<open>\<open>azidentity.NewWorkloadIdentityCredential\<close> gives an error or a credential.\<close>

definition redis_options ::
  "string \<Rightarrow> redis_config \<Rightarrow> (string + 'w credential) \<Rightarrow> ('w \<Rightarrow> bool) \<Rightarrow> string + 'w redis_options" where
  "redis_options env c credential ended =
     (if env = ''DEVLOCAL'' then
        Inr \<lparr>ro_addr = redis_addr c, ro_username = [], ro_password = rf_password c, ro_tls = None, ro_provider = None\<rparr>
      else if env = ''DEVGCP'' then
        Inr \<lparr>ro_addr = redis_addr c, ro_username = rf_username c, ro_password = rf_password c,
             ro_tls = (if rf_tls c then Some False else None), ro_provider = None\<rparr>
      else
        (let opts = \<lparr>ro_addr = redis_addr c, ro_username = rf_principal_id c, ro_password = [],
               ro_tls = Some True, ro_provider = None\<rparr> in
         if rf_password c \<noteq> [] then Inr (opts\<lparr>ro_password := rf_password c\<rparr>)
         else
           (case credential of
              Inl e \<Rightarrow> Inl (''failed to create workload identity credential: '' @ e)
            | Inr get_token \<Rightarrow>
                Inr (opts\<lparr>ro_provider := Some (credentials_provider (rf_principal_id c) get_token ended)\<rparr>))))"

text \<open>The first ping decides; \<open>ping\<close> is the client's.\<close>

definition new_redis_repository ::
  "('w redis_options \<Rightarrow> 'w \<Rightarrow> string option \<times> 'w) \<Rightarrow> string \<Rightarrow> redis_config
    \<Rightarrow> (string + 'w credential) \<Rightarrow> ('w \<Rightarrow> bool) \<Rightarrow> 'w \<Rightarrow> (string + 'w redis_options) \<times> 'w" where
  "new_redis_repository ping env c credential ended w =
     (case redis_options env c credential ended of
        Inl e \<Rightarrow> (Inl e, w)
      | Inr opts \<Rightarrow>
          (case ping opts w of
             (Some e, w) \<Rightarrow> (Inl (''failed to connect to redis '' @ redis_addr c @ '': '' @ e), w)
           | (None, w) \<Rightarrow> (Inr opts, w)))"

text \<open>
  What a new connection logs in with, as go-redis documents it: the provider's answer where
  there is one, else the configured user and password.
\<close>

definition login :: "'w redis_options \<Rightarrow> 'w \<Rightarrow> (string \<times> string) \<times> 'w" where
  "login opts w =
     (case ro_provider opts of None \<Rightarrow> ((ro_username opts, ro_password opts), w) | Some p \<Rightarrow> p w)"

section \<open>Commands\<close>

text \<open>The client: \<open>redis.Nil\<close> is the error of a missing key.\<close>

datatype redis_error =
    Redis_Nil
  | Redis_Error string

record 'w redis_client =
  rc_get :: "'w \<Rightarrow> string \<Rightarrow> (redis_error + string) \<times> 'w"
  rc_set :: "'w \<Rightarrow> string \<Rightarrow> string \<Rightarrow> duration \<Rightarrow> redis_error option \<times> 'w"
  rc_hget :: "'w \<Rightarrow> string \<Rightarrow> string \<Rightarrow> (redis_error + string) \<times> 'w"
  rc_hset :: "'w \<Rightarrow> string \<Rightarrow> string \<Rightarrow> string \<Rightarrow> redis_error option \<times> 'w"
  rc_flush_db :: "'w \<Rightarrow> redis_error option \<times> 'w"
  rc_del :: "'w \<Rightarrow> string \<Rightarrow> redis_error option \<times> 'w"
  rc_publish :: "'w \<Rightarrow> string \<Rightarrow> string \<Rightarrow> redis_error option \<times> 'w"
  rc_receive :: "'w \<Rightarrow> string \<Rightarrow> redis_error option \<times> 'w"

text \<open>The errors of the repository: those of the client as they are, or wrapped.\<close>

datatype 'e repo_error =
    Client_Error redis_error
  | Cache_Get string redis_error
  | Load_Failed 'e
  | Cache_Set string redis_error
  | Publish_To string redis_error
  | Subscribe_To string redis_error

definition client_value :: "(redis_error + 'a) \<times> 'w \<Rightarrow> ('e repo_error + 'a) \<times> 'w" where
  "client_value x = (case x of (Inl e, w) \<Rightarrow> (Inl (Client_Error e), w) | (Inr v, w) \<Rightarrow> (Inr v, w))"

definition client_done :: "redis_error option \<times> 'w \<Rightarrow> 'e repo_error option \<times> 'w" where
  "client_done x = (case x of (e, w) \<Rightarrow> (map_option Client_Error e, w))"

definition redis_get :: "'w redis_client \<Rightarrow> 'w \<Rightarrow> string \<Rightarrow> ('e repo_error + string) \<times> 'w" where
  "redis_get R w key = client_value (rc_get R w key)"

definition redis_set :: "'w redis_client \<Rightarrow> 'w \<Rightarrow> string \<Rightarrow> string \<Rightarrow> duration \<Rightarrow> 'e repo_error option \<times> 'w" where
  "redis_set R w key v expiration = client_done (rc_set R w key v expiration)"

definition redis_hget :: "'w redis_client \<Rightarrow> 'w \<Rightarrow> string \<Rightarrow> string \<Rightarrow> ('e repo_error + string) \<times> 'w" where
  "redis_hget R w key hash_field = client_value (rc_hget R w key hash_field)"

definition redis_hset :: "'w redis_client \<Rightarrow> 'w \<Rightarrow> string \<Rightarrow> string \<Rightarrow> string \<Rightarrow> 'e repo_error option \<times> 'w" where
  "redis_hset R w key hash_field v = client_done (rc_hset R w key hash_field v)"

definition redis_flush_db :: "'w redis_client \<Rightarrow> 'w \<Rightarrow> 'e repo_error option \<times> 'w" where
  "redis_flush_db R w = client_done (rc_flush_db R w)"

definition redis_delete :: "'w redis_client \<Rightarrow> 'w \<Rightarrow> string \<Rightarrow> 'e repo_error option \<times> 'w" where
  "redis_delete R w key = client_done (rc_del R w key)"

definition redis_publish :: "'w redis_client \<Rightarrow> 'w \<Rightarrow> string \<Rightarrow> string \<Rightarrow> 'e repo_error option \<times> 'w" where
  "redis_publish R w channel payload =
     (case rc_publish R w channel payload of (e, w) \<Rightarrow> (map_option (Publish_To channel) e, w))"

text \<open>Cache-aside: the loader is only called on a miss, and a value is returned only when it is stored.\<close>

definition get_set ::
  "'w redis_client \<Rightarrow> string \<Rightarrow> duration \<Rightarrow> ('w \<Rightarrow> ('e + string) \<times> 'w) \<Rightarrow> 'w
    \<Rightarrow> ('e repo_error + string) \<times> 'w" where
  "get_set R key expiration load w =
     (case rc_get R w key of
        (Inr v, w) \<Rightarrow> (Inr v, w)
      | (Inl (Redis_Error e), w) \<Rightarrow> (Inl (Cache_Get key (Redis_Error e)), w)
      | (Inl Redis_Nil, w) \<Rightarrow>
          (case load w of
             (Inl e, w) \<Rightarrow> (Inl (Load_Failed e), w)
           | (Inr v, w) \<Rightarrow>
               (case rc_set R w key v expiration of
                  (Some e, w) \<Rightarrow> (Inl (Cache_Set key e), w)
                | (None, w) \<Rightarrow> (Inr v, w))))"

text \<open>The adapter the service uses; \<open>text_of\<close> renders an error.\<close>

definition redis_repository :: "(string repo_error \<Rightarrow> string) \<Rightarrow> 'w redis_client \<Rightarrow> 'w redis_repo" where
  "redis_repository text_of R =
     \<lparr>rd_get = (\<lambda>w key. case redis_get R w key of (Inl e, w) \<Rightarrow> (Inl (text_of e), w) | (Inr v, w) \<Rightarrow> (Inr v, w)),
      rd_set = (\<lambda>w key v ttl. case redis_set R w key v ttl of (e, w) \<Rightarrow> (map_option text_of e, w)),
      rd_publish = (\<lambda>w channel msg. case redis_publish R w channel msg of (e, w) \<Rightarrow> (map_option text_of e, w))\<rparr>"

section \<open>pkg/util/cache.go\<close>

text \<open>Values of a type are stored as JSON; the two codecs of the type are arguments.\<close>

datatype 'e typed_error =
    Loader_Error 'e
  | Not_Marshalled
  | Not_Unmarshalled

definition typed_get_set ::
  "('a \<Rightarrow> string option) \<Rightarrow> (string \<Rightarrow> 'a option) \<Rightarrow> 'w redis_client \<Rightarrow> string \<Rightarrow> duration
    \<Rightarrow> ('w \<Rightarrow> ('e + 'a) \<times> 'w) \<Rightarrow> 'w \<Rightarrow> ('e typed_error repo_error + 'a) \<times> 'w" where
  "typed_get_set enc dec R key expiration load w =
     (let string_load = (\<lambda>w.
        case load w of
          (Inl e, w) \<Rightarrow> (Inl (Loader_Error e), w)
        | (Inr v, w) \<Rightarrow> ((case enc v of None \<Rightarrow> Inl Not_Marshalled | Some b \<Rightarrow> Inr b), w)) in
      (case get_set R key expiration string_load w of
         (Inl e, w) \<Rightarrow> (Inl e, w)
       | (Inr raw, w) \<Rightarrow> ((case dec raw of None \<Rightarrow> Inl (Load_Failed Not_Unmarshalled) | Some v \<Rightarrow> Inr v), w)))"

section \<open>Subscribe\<close>

definition relay_capacity :: nat where
  "relay_capacity = 100"

text \<open>
  The relay of a subscription. The last three components are history: the messages received
  from the client, those the reader has taken, and whether one was ever dropped.
\<close>

record relay =
  rl_buffer :: "string list"
  rl_closed :: bool
  rl_received :: "string list"
  rl_taken :: "string list"
  rl_dropped :: bool

definition new_relay :: relay where
  "new_relay = \<lparr>rl_buffer = [], rl_closed = False, rl_received = [], rl_taken = [], rl_dropped = False\<rparr>"

text \<open>A failed confirmation is an error, and nothing is started.\<close>

definition subscribe :: "'w redis_client \<Rightarrow> string \<Rightarrow> 'w \<Rightarrow> ('e repo_error + relay) \<times> 'w" where
  "subscribe R channel w =
     (case rc_receive R w channel of
        (Some e, w) \<Rightarrow> (Inl (Subscribe_To channel e), w)
      | (None, w) \<Rightarrow> (Inr new_relay, w))"

text \<open>The non-blocking send: a message that finds the buffer full is dropped.\<close>

definition relay_send :: "string \<Rightarrow> relay \<Rightarrow> relay" where
  "relay_send msg s =
     (if length (rl_buffer s) < relay_capacity
      then s\<lparr>rl_buffer := rl_buffer s @ [msg], rl_received := rl_received s @ [msg]\<rparr>
      else s\<lparr>rl_received := rl_received s @ [msg], rl_dropped := True\<rparr>)"

text \<open>A read takes the oldest message; of a closed and empty channel it finds the end.\<close>

datatype read_result =
    Got string
  | End_Of_Channel
  | Blocked

definition relay_read :: "relay \<Rightarrow> read_result \<times> relay" where
  "relay_read s =
     (case rl_buffer s of
        msg # rest \<Rightarrow> (Got msg, s\<lparr>rl_buffer := rest, rl_taken := rl_taken s @ [msg]\<rparr>)
      | [] \<Rightarrow> (if rl_closed s then End_Of_Channel else Blocked, s))"

text \<open>
  The goroutine ends, and closes the channel, when its context is done or the client closes
  its channel; until then it sends what comes.
\<close>

inductive relay_step :: "relay \<Rightarrow> relay \<Rightarrow> bool" where
  Message: "\<not> rl_closed s \<Longrightarrow> relay_step s (relay_send msg s)"
| Ended: "\<not> rl_closed s \<Longrightarrow> relay_step s (s\<lparr>rl_closed := True\<rparr>)"
| Read: "relay_read s = (Got msg, s') \<Longrightarrow> relay_step s s'"

inductive relay_reachable :: "relay \<Rightarrow> bool" where
  New: "relay_reachable new_relay"
| Next: "relay_reachable s \<Longrightarrow> relay_step s s' \<Longrightarrow> relay_reachable s'"

inductive_cases relay_stepE: "relay_step s s'"

code_pred relay_step .

end
