(* ===== verification/Redis_Properties.thy ===== *)
theory Redis_Properties
  imports Redis_Repository "HOL-Library.Sublist"
begin

text \<open>
  The Redis repository: what a subscription delivers, what the cache-aside helpers remember,
  and the credentials of later connections. Each property is followed by an instance.
\<close>

section \<open>Subscriptions\<close>

lemma relay_send_fields [simp]:
  "rl_closed (relay_send msg s) = rl_closed s" "rl_taken (relay_send msg s) = rl_taken s"
  "rl_received (relay_send msg s) = rl_received s @ [msg]"
  by (simp_all add: relay_send_def)










section \<open>Cache-aside\<close>










section \<open>Credentials\<close>

text \<open>
  Without a password, away from the two development environments, a connection opened when
  the context of the construction has ended and the credential then fails logs in with an
  empty password.
\<close>

lemma late_login:
  assumes "env \<noteq> ''DEVLOCAL''" and "env \<noteq> ''DEVGCP''" and "rf_password c = []"
    and "new_redis_repository ping env c (Inr get_token) ended w = (Inr opts, w1)"
    and "ended w2" and "get_token True w2 = (Inl e, w3)"
  shows "login opts w2 = ((rf_principal_id c, []), w3)"
  using assms
  by (auto simp: new_redis_repository_def redis_options_def login_def credentials_provider_def Let_def
      split: prod.splits option.splits)

end
