(* ===== verification/Go_Duration.thy ===== *)
theory Go_Duration
  imports Go_Time Go_Float
begin

text \<open>
  time.ParseDuration: a sign, and numbers with units; the fraction of a number is scaled in
  float64 as the library does; the sum is an unsigned 64-bit integer that must not pass 2^63
  after any part. None is an error.
\<close>

text \<open>The product of two float64 values, rounded, and the integer part of a non-negative one.\<close>

fun f64_mul :: "f64 \<Rightarrow> f64 \<Rightarrow> f64" where
  "f64_mul NaN y = NaN"
| "f64_mul x NaN = NaN"
| "f64_mul (Inf s) (Inf t) = Inf (s \<noteq> t)"
| "f64_mul (Inf s) (Fin t n d) = (if n = 0 then NaN else Inf (s \<noteq> t))"
| "f64_mul (Fin s m e) (Inf t) = (if m = 0 then NaN else Inf (s \<noteq> t))"
| "f64_mul (Fin s m e) (Fin t n d) =
     f64_of_scaled (s \<noteq> t) ((if s = t then 1 else - 1) * int m * int n) (e + d)"

fun f64_trunc :: "f64 \<Rightarrow> nat" where
  "f64_trunc (Fin s m e) = (if e < 0 then m div 2 ^ nat (- e) else m * 2 ^ nat e)"
| "f64_trunc _ = 0"

definition duration_units :: "(string \<times> nat) list" where
  "duration_units =
     [(''ns'', 1), (''us'', 1000), ([CHR 0xC2, CHR 0xB5] @ ''s'', 1000), ([CHR 0xCE, CHR 0xBC] @ ''s'', 1000),
      (''ms'', 1000000), (''s'', nat second_ns), (''m'', nat minute_ns), (''h'', nat hour_ns)]"

text \<open>The digits at the front, and None when they pass 2^63.\<close>

fun leading_int :: "nat \<Rightarrow> string \<Rightarrow> (nat \<times> string) option" where
  "leading_int x [] = Some (x, [])"
| "leading_int x (c # cs) =
     (if \<not> is_digit c then Some (x, c # cs)
      else if x > 2 ^ 63 div 10 then None
      else if x * 10 + digit_val c > 2 ^ 63 then None
      else leading_int (x * 10 + digit_val c) cs)"

text \<open>The digits of a fraction, as many as fit, with the power of ten they are over.\<close>

fun leading_fraction :: "nat \<Rightarrow> f64 \<Rightarrow> bool \<Rightarrow> string \<Rightarrow> (nat \<times> f64) \<times> string" where
  "leading_fraction x scale full [] = ((x, scale), [])"
| "leading_fraction x scale full (c # cs) =
     (if \<not> is_digit c then ((x, scale), c # cs)
      else if full \<or> x > (2 ^ 63 - 1) div 10 \<or> x * 10 + digit_val c > 2 ^ 63 then leading_fraction x scale True cs
      else leading_fraction (x * 10 + digit_val c) (f64_mul scale (f64_of_nat 10)) False cs)"

definition unit_end :: "char \<Rightarrow> bool" where
  "unit_end c = (c = CHR ''.'' \<or> is_digit c)"

text \<open>One number with its unit: its nanoseconds and the rest.\<close>

definition duration_part :: "string \<Rightarrow> (nat \<times> string) option" where
  "duration_part s =
     (if s = [] \<or> \<not> unit_end (hd s) then None
      else
        (case leading_int 0 s of
           None \<Rightarrow> None
         | Some (v, rest) \<Rightarrow>
             (let pre = (length rest \<noteq> length s);
                  (((f, scale), rest'), post) =
                    (if rest \<noteq> [] \<and> hd rest = CHR ''.''
                     then (let r = leading_fraction 0 (f64_of_nat 1) False (tl rest) in (r, length (snd r) \<noteq> length (tl rest)))
                     else (((0, f64_of_nat 1), rest), False));
                  u = takeWhile (\<lambda>c. \<not> unit_end c) rest' in
              if \<not> pre \<and> \<not> post then None
              else
                (case map_of duration_units u of
                   None \<Rightarrow> None
                 | Some unit \<Rightarrow>
                     if v > 2 ^ 63 div unit then None
                     else
                       (let v = v * unit
                              + (if f > 0 then f64_trunc (f64_mul (f64_of_nat f) (f64_div (f64_of_nat unit) scale)) else 0) in
                        if v > 2 ^ 63 then None else Some (v, drop (length u) rest'))))))"

lemma length_leading_int: "leading_int x s = Some (y, r) \<Longrightarrow> length r \<le> length s"
  by (induction x s rule: leading_int.induct) (auto split: if_splits)

lemma length_leading_fraction: "leading_fraction x scale full s = (q, r) \<Longrightarrow> length r \<le> length s"
  by (induction x scale full s arbitrary: q rule: leading_fraction.induct) (auto split: if_splits simp: le_SucI)

text \<open>Every part has a unit, so the text gets shorter.\<close>

lemma duration_part_shorter:
  assumes "duration_part s = Some (v, r)"
  shows "length r < length s"
proof -
  from assms obtain n rest where rest: "leading_int 0 s = Some (n, rest)"
    by (auto simp: duration_part_def split: if_splits option.splits)
  define rest' where "rest' = (if rest \<noteq> [] \<and> hd rest = CHR ''.''
    then snd (leading_fraction 0 (f64_of_nat 1) False (tl rest)) else rest)"
  have le: "length rest' \<le> length s"
    using length_leading_int [OF rest] length_leading_fraction [of 0 "f64_of_nat 1" False "tl rest"]
    unfolding rest'_def by (cases "leading_fraction 0 (f64_of_nat 1) False (tl rest)") (auto intro: order.trans)
  define u where "u = takeWhile (\<lambda>c. \<not> unit_end c) rest'"
  have "r = drop (length u) rest' \<and> map_of duration_units u \<noteq> None"
    using assms rest
    by (auto simp: duration_part_def Let_def u_def rest'_def split_beta split: if_splits option.splits)
  moreover have "map_of duration_units u = None" if "u = []" using that by (simp add: duration_units_def)
  moreover have "length u \<le> length rest'" unfolding u_def by (rule length_takeWhile_le)
  ultimately show ?thesis using le by (cases u) auto
qed

function duration_parts :: "nat \<Rightarrow> string \<Rightarrow> nat option" where
  "duration_parts d s =
     (if s = [] then Some d
      else
        (case duration_part s of
           None \<Rightarrow> None
         | Some (v, rest) \<Rightarrow>
             if (d + v) mod 2 ^ 64 > 2 ^ 63 then None else duration_parts ((d + v) mod 2 ^ 64) rest))"
  by pat_completeness auto
termination by (relation "measure (length \<circ> snd)") (auto dest: duration_part_shorter)

declare duration_parts.simps [simp del]

definition parse_duration :: "string \<Rightarrow> duration option" where
  "parse_duration s =
     (let (neg, body) =
        (case s of
           c # cs \<Rightarrow> if c = CHR ''-'' then (True, cs) else if c = CHR ''+'' then (False, cs) else (False, s)
         | [] \<Rightarrow> (False, [])) in
      if body = ''0'' then Some 0
      else if body = [] then None
      else
        (case duration_parts 0 body of
           None \<Rightarrow> None
         | Some d \<Rightarrow> if neg then Some (- int d) else if d > 2 ^ 63 - 1 then None else Some (int d)))"

lemma parse_duration_bounds:
  assumes "parse_duration s = Some d"
  shows "- (2 ^ 63) \<le> d \<and> d < 2 ^ 63"
proof -
  have parts: "duration_parts e t = Some x \<Longrightarrow> e \<le> 2 ^ 63 \<Longrightarrow> x \<le> 2 ^ 63" for e t x
  proof (induction e t rule: duration_parts.induct)
    case (1 e t)
    show ?case
    proof (cases "t = []")
      case True
      then show ?thesis using 1 by (simp add: duration_parts.simps)
    next
      case False
      then obtain v rest where part: "duration_part t = Some (v, rest)" "\<not> (e + v) mod 2 ^ 64 > 2 ^ 63"
          "duration_parts ((e + v) mod 2 ^ 64) rest = Some x"
        using 1(2) by (auto simp: duration_parts.simps [of e t] split: option.splits if_splits)
      then show ?thesis using 1(1) [OF False part(1) refl part(2)] by simp
    qed
  qed
  show ?thesis using assms parts [of 0]
    by (fastforce simp: parse_duration_def Let_def split: prod.splits option.splits if_splits)
qed

end
