(* ===== verification/Wiring.thy ===== *)
theory Wiring
  imports Clen_Client Schedule_Database Redis_Repository Go_Duration Local_Evaluator
begin

text \<open>
  How the program puts the delivery service together: the providers of
  src/cmd/server/providers.go, as the modules of src/cmd/server/module.go compose them, from
  the configuration and the environment. What comes from libraries and the outside (the
  database connection, the HTTP library, the Redis client, the cache store, the clock,
  identifiers, renderings) is one record of arguments.
\<close>

section \<open>Settings\<close>

text \<open>\<open>os.Getenv\<close>: an unset variable reads as the empty string.\<close>

type_synonym environment = "string \<Rightarrow> string"

definition parse_duration_env :: "environment \<Rightarrow> string \<Rightarrow> duration \<Rightarrow> duration" where
  "parse_duration_env getenv key dflt =
     (if getenv key = [] then dflt
      else case parse_duration (getenv key) of None \<Rightarrow> dflt | Some d \<Rightarrow> d)"

definition provide_lead_config :: "lead_config \<Rightarrow> lead_config" where
  "provide_lead_config c =
     c\<lparr>lg_expire_filter := (if to_lower (lg_expire_filter c) = ''none'' then [] else lg_expire_filter c)\<rparr>"

text \<open>\<open>strconv.Atoi\<close> reads what ParseInt reads in base 10 with 64 bits.\<close>

definition profile_retries :: "environment \<Rightarrow> int" where
  "profile_retries getenv =
     (let raw = getenv ''CLEN_CUSTOMER_PROFILE_API_RETRIES'' in
      if raw = [] then 2 else case parse_int64 raw of None \<Rightarrow> 2 | Some v \<Rightarrow> v)"

definition provide_profile_config :: "environment \<Rightarrow> profile_config" where
  "provide_profile_config getenv =
     \<lparr>pc_base_url = getenv ''CLEN_CUSTOMER_PROFILE_API_BASE_URL'',
      pc_path = getenv ''CLEN_CUSTOMER_PROFILE_API_PATH'',
      pc_api_key = getenv ''CLEN_CUSTOMER_PROFILE_API_KEY'',
      pc_app_identifier = getenv ''CLEN_CUSTOMER_PROFILE_APP_ID'',
      pc_timeout = parse_duration_env getenv ''CLEN_CUSTOMER_PROFILE_API_TIMEOUT'' (5 * second_ns),
      pc_retry_count = profile_retries getenv\<rparr>"

definition provide_enrich_ttl :: "environment \<Rightarrow> duration" where
  "provide_enrich_ttl getenv = parse_duration_env getenv ''CLEN_CUSTOMER_PROFILE_CACHE_TTL'' (5 * minute_ns)"

text \<open>The part of AppConfig the providers read.\<close>

record app_config =
  ac_env :: string
  ac_redis :: redis_config
  ac_cache_ttl :: duration
  ac_refresh_interval :: duration
  ac_lead :: lead_config

section \<open>The mirror\<close>

text \<open>One monitor for the four caches, which are new; items live a day unless a TTL is given.\<close>

definition cache_max_pct :: f64 where
  "cache_max_pct = fst (f64_of_ratio False 60 100)"

definition provide_cache_memory :: "'c \<Rightarrow> 'c memory_cache" where
  "provide_cache_memory fresh =
     \<lparr>mc_monitor = new_memory_monitor cache_max_pct, mc_schedules = Some fresh, mc_rules = Some fresh,
      mc_versions = Some fresh, mc_syncs = Some fresh\<rparr>"

section \<open>Redis\<close>

text \<open>
  The context of the construction is given ten seconds, and is cancelled when the provider
  returns: \<open>boot_over w\<close> is its state in the world \<open>w\<close>.
\<close>

definition provide_redis_repository ::
  "('w redis_options \<Rightarrow> 'w \<Rightarrow> string option \<times> 'w) \<Rightarrow> app_config \<Rightarrow> (string + 'w credential)
    \<Rightarrow> ('w \<Rightarrow> bool) \<Rightarrow> 'w \<Rightarrow> (string + 'w redis_options) \<times> 'w" where
  "provide_redis_repository ping cfg credential boot_over w =
     new_redis_repository ping (ac_env cfg) (ac_redis cfg) credential boot_over w"

section \<open>The service\<close>

record ('c, 'w) outside =
  ex_uuid :: uuid_ops
  ex_caches :: "'c cache_ops"
  ex_now :: "'w \<Rightarrow> gotime"
  ex_time_string :: "gotime \<Rightarrow> string"
  ex_marshal_schedules :: "schedule list \<Rightarrow> string option"
  ex_marshal_rule :: "decision_rule \<Rightarrow> string option"
  ex_database :: "'w connection"
  ex_redis :: "'w redis_client"
  ex_http :: "'w http_library"
  ex_redis_text :: "string repo_error \<Rightarrow> string"
  ex_clen_text :: "clen_error \<Rightarrow> string"

text \<open>
  ProvideCMSDeliveryService with the repositories the modules supply; the metric is
  registered or already there.
\<close>

definition provide_delivery_service ::
  "('c, 'w) outside \<Rightarrow> app_config \<Rightarrow> environment \<Rightarrow> ('c, 'w) service_deps" where
  "provide_delivery_service X cfg getenv =
     \<lparr>sd_uuid = ex_uuid X, sd_caches = ex_caches X, sd_now = ex_now X, sd_time_string = ex_time_string X,
      sd_marshal_schedules = ex_marshal_schedules X, sd_marshal_rule = ex_marshal_rule X,
      sd_redis = Some (redis_repository (ex_redis_text X) (ex_redis X)),
      sd_occurrences = Some (occurrence_repository (ex_database X)),
      sd_rules = Some (get_rules_by_schedule_ids (ex_database X)),
      sd_evaluator = Some (local_evaluator (ex_uuid X)),
      sd_leads = Some (lead_repository (ex_clen_text X) (ex_http X) (new_lead_client (provide_lead_config (ac_lead cfg)))),
      sd_profiles = Some (profile_repository_raw (ex_clen_text X) (ex_http X) (new_profile_client (provide_profile_config getenv))),
      sd_schemas = Some (get_schema_by_id (ex_database X)),
      sd_attributes = Some (list_by_table_source_name (ex_database X)),
      sd_has_metric = True, sd_result_ttl = ac_cache_ttl cfg, sd_tick_interval = ac_refresh_interval cfg,
      sd_profile_ttl = provide_enrich_ttl getenv\<rparr>"

definition provided_service :: "'w \<Rightarrow> 'c \<Rightarrow> ('c, 'w) service" where
  "provided_service w fresh = new_service w (Some (provide_cache_memory fresh))"

end
