(* ===== verification/Logger.thy ===== *)
theory Logger
  imports Go_Strings
begin

text \<open>
  src/internal/infrastructure/logger and the entries of src/internal/domain/entity/log.go:
  the line each kind of entry is written as. The time stamp and a new identifier are
  arguments, as is the correlation id of the context; printing and its lock are left out.
\<close>

section \<open>Entries\<close>

record error_log =
  el_service :: string
  el_error_code :: string
  el_message :: string
  el_workflow_id :: string
  el_customer_id :: string
  el_employee_id :: string
  el_env :: string
  el_request_uri :: string
  el_request :: string
  el_client_ip :: string
  el_correlation_id :: string
  el_stack_trace :: string
  el_log_id :: string

record request_log =
  rq_service :: string
  rq_level :: string
  rq_method :: string
  rq_url :: string
  rq_client_ip :: string
  rq_correlation_id :: string
  rq_headers :: string
  rq_status :: string
  rq_message :: string
  rq_duration :: string
  rq_request_payload :: string
  rq_response_payload :: string
  rq_context :: string
  rq_stack_trace :: string
  rq_log_id :: string

record system_log =
  sl_service :: string
  sl_level :: string
  sl_message :: string
  sl_correlation_id :: string
  sl_action :: string
  sl_env_detail :: string
  sl_system_event :: string

record startup_log =
  st_service :: string
  st_level :: string
  st_message :: string
  st_detail :: string
  st_config :: string
  st_env_detail :: string

record response_log =
  rp_service :: string
  rp_from :: string
  rp_to :: string
  rp_status :: string
  rp_correlation_id :: string
  rp_duration :: string
  rp_body :: string
  rp_key :: string

section \<open>Lines\<close>

definition newline :: char where
  "newline = CHR 0x0A"

text \<open>The identifier of an entry, or a new one.\<close>

definition or_else :: "string \<Rightarrow> string \<Rightarrow> string" where
  "or_else s other = (if s = [] then other else s)"

definition log_error_line :: "string \<Rightarrow> string \<Rightarrow> string \<Rightarrow> error_log \<Rightarrow> string" where
  "log_error_line stamp new_id correlation e =
     stamp @ ''log_id: '' @ or_else (el_log_id e) new_id @ ''|ERROR|service_module: '' @ el_service e
       @ ''|client_ip: '' @ el_client_ip e @ ''|correlation_id: '' @ or_else (el_correlation_id e) correlation
       @ ''|url: '' @ el_request_uri e @ ''|request_payload: '' @ el_request e
       @ ''|error_code: '' @ el_error_code e @ ''|message: '' @ el_message e
       @ ''|stack_trace: '' @ el_stack_trace e @ [newline]"

definition log_client_line :: "string \<Rightarrow> string \<Rightarrow> request_log \<Rightarrow> bool \<Rightarrow> string" where
  "log_client_line stamp new_id r is_response =
     (let i = or_else (rq_log_id r) new_id in
      if \<not> is_response then
        stamp @ ''log_id:'' @ i @ ''|REQUEST|service_module:'' @ rq_service r @ ''|method:'' @ rq_method r
          @ ''|url:'' @ rq_url r @ ''|client_ip:'' @ rq_client_ip r @ ''|correlation_id:'' @ rq_correlation_id r
          @ ''|headers:'' @ rq_headers r @ ''|message:'' @ rq_message r
          @ ''|request_payload:'' @ rq_request_payload r @ ''|context:'' @ rq_context r @ [newline]
      else
        stamp @ ''log_id:'' @ i @ ''|RESPONSE|service_module:'' @ rq_service r
          @ ''|correlation_id:'' @ rq_correlation_id r @ ''|status_code:'' @ rq_status r
          @ ''|message:'' @ rq_message r @ ''|duration:'' @ rq_duration r
          @ ''|response_payload:'' @ rq_response_payload r @ ''|context:'' @ rq_context r @ [newline])"

definition log_request_line :: "string \<Rightarrow> string \<Rightarrow> request_log \<Rightarrow> string" where
  "log_request_line stamp new_id r = log_client_line stamp new_id r False"

definition arrow :: string where
  "arrow = [CHR 0xE2, CHR 0x86, CHR 0x92]"

definition log_app_line :: "string \<Rightarrow> response_log \<Rightarrow> bool \<Rightarrow> string" where
  "log_app_line stamp r is_response =
     (if \<not> is_response then
        stamp @ ''APP-REQUEST|'' @ rp_correlation_id r @ ''|'' @ rp_from r @ '' '' @ arrow @ '' '' @ rp_to r
          @ '' Body: '' @ rp_body r @ ''|Key: '' @ rp_key r @ [newline]
      else
        stamp @ ''APP-RESPONSE|'' @ rp_correlation_id r @ ''|'' @ rp_from r @ '' '' @ arrow @ '' '' @ rp_to r
          @ '' Status: '' @ rp_status r @ ''|Duration: '' @ rp_duration r @ ''|Body: '' @ rp_body r
          @ ''|Key: '' @ rp_key r @ [newline])"

definition log_response_line :: "string \<Rightarrow> response_log \<Rightarrow> string" where
  "log_response_line stamp r = log_app_line stamp r True"

definition log_system_line :: "string \<Rightarrow> string \<Rightarrow> system_log \<Rightarrow> string" where
  "log_system_line stamp correlation s =
     (let base = stamp @ sl_level s @ ''|'' @ or_else (sl_correlation_id s) correlation @ ''|'' @ sl_service s @ ''|'';
          base = (if sl_message s \<noteq> [] then base @ '' '' @ sl_message s else base);
          base' = (if sl_action s \<noteq> [] \<and> sl_message s = [] then base @ '' '' @ sl_action s else base);
          details = (if sl_action s \<noteq> [] \<and> sl_message s \<noteq> [] then [sl_action s] else [])
            @ (if sl_env_detail s \<noteq> [] then [''|ENV: '' @ sl_env_detail s] else [])
            @ (if sl_system_event s \<noteq> [] then [''|'' @ sl_system_event s] else []) in
      if details \<noteq> [] then base' @ '' '' @ join '' | '' details @ [newline] else base' @ [newline])"

definition log_startup_line :: "string \<Rightarrow> startup_log \<Rightarrow> string" where
  "log_startup_line stamp s =
     (let content =
        (if st_message s \<noteq> [] then st_message s
         else if st_detail s \<noteq> [] then st_detail s
         else if st_config s \<noteq> [] then ''Config snippet: '' @ st_config s
         else if st_env_detail s \<noteq> [] then ''Current ENV: '' @ st_env_detail s
         else []) in
      stamp @ st_level s @ ''|'' @ st_service s @ ''|'' @ '' '' @ content @ [newline])"

section \<open>PopulateErrorLog\<close>

text \<open>What the request has for an entry: its URI, client address and two headers.\<close>

record request_info =
  ri_uri :: string
  ri_client_ip :: string
  ri_workflow_id :: string
  ri_request_id :: string

definition extra_or :: "(string \<rightharpoonup> string) \<Rightarrow> string \<Rightarrow> string \<Rightarrow> string" where
  "extra_or extra key s = (if s = [] then case extra key of None \<Rightarrow> s | Some v \<Rightarrow> v else s)"

definition from_request :: "request_info option \<Rightarrow> (request_info \<Rightarrow> string) \<Rightarrow> string \<Rightarrow> string" where
  "from_request c f s = (if s = [] then case c of None \<Rightarrow> s | Some i \<Rightarrow> f i else s)"

text \<open>Fields that are set stay; a new identifier is drawn for the correlation only when \<open>extra\<close> has none.\<close>

definition zero_error_log :: error_log where
  "zero_error_log =
     \<lparr>el_service = [], el_error_code = [], el_message = [], el_workflow_id = [], el_customer_id = [],
      el_employee_id = [], el_env = [], el_request_uri = [], el_request = [], el_client_ip = [],
      el_correlation_id = [], el_stack_trace = [], el_log_id = []\<rparr>"

definition populate_error_log ::
  "string \<times> string \<Rightarrow> request_info option \<Rightarrow> error_log option \<Rightarrow> string \<Rightarrow> string \<Rightarrow> string option
    \<Rightarrow> (string \<rightharpoonup> string) \<Rightarrow> error_log" where
  "populate_error_log ids c given svc req_body err extra =
     (let e = (case given of None \<Rightarrow> zero_error_log | Some e \<Rightarrow> e);
          corr = from_request c ri_request_id (el_correlation_id e) in
      e\<lparr>el_service := or_else (el_service e) svc,
        el_request_uri := from_request c ri_uri (el_request_uri e),
        el_error_code := extra_or extra ''error_code'' (el_error_code e),
        el_message := (case err of None \<Rightarrow> el_message e | Some m \<Rightarrow> or_else (el_message e) m),
        el_workflow_id := extra_or extra ''workflow_id'' (from_request c ri_workflow_id (el_workflow_id e)),
        el_customer_id := extra_or extra ''customer_id'' (el_customer_id e),
        el_employee_id := extra_or extra ''employee_id'' (el_employee_id e),
        el_env := extra_or extra ''env'' (el_env e),
        el_request := or_else (el_request e) req_body,
        el_client_ip := from_request c ri_client_ip (el_client_ip e),
        el_correlation_id :=
          (if corr \<noteq> [] then corr else case extra ''correlation_id'' of Some v \<Rightarrow> v | None \<Rightarrow> fst ids),
        el_stack_trace := (case err of None \<Rightarrow> el_stack_trace e | Some m \<Rightarrow> m),
        el_log_id := or_else (el_log_id e) (snd ids)\<rparr>)"

end
