(* ===== verification/Middleware.thy ===== *)
theory Middleware
  imports Wiring Http_Handler Logger
begin

text \<open>
  src/internal/delivery/http/middleware and router.go: what every request passes before it
  reaches its endpoint. The rate limiter, the CORS library, the reading of a body and new
  identifiers are arguments.
\<close>

section \<open>CORS\<close>

record cors_config =
  cc_origins :: "string list"
  cc_methods :: "string list"
  cc_headers :: "string list"
  cc_exposed :: "string list"
  cc_max_age :: duration
  cc_credentials :: bool

definition cors_origins :: "environment \<Rightarrow> string list" where
  "cors_origins getenv =
     (let allowed = trim_space (getenv ''CORS_ALLOWED_ORIGINS'') in
      if allowed \<noteq> [] then filter (\<lambda>s. s \<noteq> []) (map trim_space (split_on CHR '','' allowed)) else [''*''])"

definition cors_settings :: "environment \<Rightarrow> cors_config" where
  "cors_settings getenv =
     \<lparr>cc_origins = cors_origins getenv,
      cc_methods = [''GET'', ''POST'', ''PUT'', ''PATCH'', ''DELETE'', ''OPTIONS''],
      cc_headers = [''Origin'', ''Content-Type'', ''Accept'', ''Authorization'', ''X-User-Id'', ''X-Request-Id''],
      cc_exposed = [''Request-ID'', ''Request-Time'', ''Status-Code'', ''Status-Msg''],
      cc_max_age = 12 * hour_ns,
      cc_credentials =
        (to_lower (getenv ''CORS_ALLOW_CREDENTIALS'') = ''true'' \<and> ''*'' \<notin> set (cors_origins getenv))\<rparr>"

section \<open>Concurrency\<close>

text \<open>
  The semaphore of ConcurrencyMiddleware, a buffered channel: the requests that hold a slot,
  and those blocked in their send, which Go lets in first come first served when a slot is
  freed. Requests are numbered.
\<close>

record gate =
  gt_running :: "nat list"
  gt_waiting :: "nat list"

definition new_gate :: gate where
  "new_gate = \<lparr>gt_running = [], gt_waiting = []\<rparr>"

definition gate_arrive :: "nat \<Rightarrow> nat \<Rightarrow> gate \<Rightarrow> gate" where
  "gate_arrive max_concurrent i s =
     (if length (gt_running s) < max_concurrent then s\<lparr>gt_running := gt_running s @ [i]\<rparr>
      else s\<lparr>gt_waiting := gt_waiting s @ [i]\<rparr>)"

definition gate_leave :: "nat \<Rightarrow> gate \<Rightarrow> gate" where
  "gate_leave i s =
     (case gt_waiting s of
        [] \<Rightarrow> s\<lparr>gt_running := remove1 i (gt_running s)\<rparr>
      | j # js \<Rightarrow> s\<lparr>gt_running := remove1 i (gt_running s) @ [j], gt_waiting := js\<rparr>)"

text \<open>A request leaves when the rest of the chain has returned or panicked: the slot is freed in a defer.\<close>

inductive gate_step :: "nat \<Rightarrow> gate \<Rightarrow> gate \<Rightarrow> bool" for max_concurrent where
  Arrive: "i \<notin> set (gt_running s) \<Longrightarrow> i \<notin> set (gt_waiting s) \<Longrightarrow>
    gate_step max_concurrent s (gate_arrive max_concurrent i s)"
| Leave: "i \<in> set (gt_running s) \<Longrightarrow> gate_step max_concurrent s (gate_leave i s)"

inductive gate_reachable :: "nat \<Rightarrow> gate \<Rightarrow> bool" for max_concurrent where
  Fresh: "gate_reachable max_concurrent new_gate"
| Turn: "gate_reachable max_concurrent s \<Longrightarrow> gate_step max_concurrent s s' \<Longrightarrow> gate_reachable max_concurrent s'"

inductive_cases gate_stepE: "gate_step max_concurrent s s'"

section \<open>Logging\<close>

record incoming =
  in_method :: string
  in_path :: string
  in_uri :: string
  in_request_id :: string
  in_client_ip :: string
  in_headers :: string
  in_body :: "string option"

definition not_logged :: "incoming \<Rightarrow> bool" where
  "not_logged r = (in_path r = ''/metrics'' \<and> in_method r = ''GET'')"

text \<open>\<open>strings.ReplaceAll\<close> of a one-byte text by the empty one.\<close>

definition strip_payload :: "string \<Rightarrow> string" where
  "strip_payload s =
     replace_char CHR '' '' [] (replace_char CHR 0x0D [] (replace_char newline [] s))"

definition correlation_of :: "string \<Rightarrow> incoming \<Rightarrow> string" where
  "correlation_of new_id r = or_else (in_request_id r) new_id"

definition request_entry :: "string \<Rightarrow> incoming \<Rightarrow> request_log" where
  "request_entry new_id r =
     \<lparr>rq_service = ''Content-gateway'', rq_level = ''REQUEST'', rq_method = in_method r, rq_url = in_uri r,
      rq_client_ip = in_client_ip r, rq_correlation_id = correlation_of new_id r, rq_headers = in_headers r,
      rq_status = [], rq_message = [], rq_duration = [],
      rq_request_payload = strip_payload (case in_body r of None \<Rightarrow> [] | Some b \<Rightarrow> b),
      rq_response_payload = [], rq_context = [], rq_stack_trace = [], rq_log_id = []\<rparr>"

text \<open>What the middleware prints for a request.\<close>

definition logged_request :: "string \<Rightarrow> string \<Rightarrow> string \<Rightarrow> incoming \<Rightarrow> string" where
  "logged_request stamp new_correlation new_id r =
     (if not_logged r then [] else log_request_line stamp new_id (request_entry new_correlation r))"

section \<open>Deadlines\<close>

text \<open>A context with a timeout ends at the earlier of its parent's deadline and its own.\<close>

definition with_timeout :: "duration \<Rightarrow> gotime \<Rightarrow> gotime option \<Rightarrow> gotime option" where
  "with_timeout d now parent =
     (let own = time_add now d in
      case parent of None \<Rightarrow> Some own | Some p \<Rightarrow> Some (if time_before p own then p else own))"

text \<open>
  TimeoutMiddleware replaces the context of the request; DBMiddleware derives one for the
  database handle it puts beside it, and leaves the request's deadline alone.
\<close>

definition request_deadline :: "duration \<Rightarrow> gotime \<Rightarrow> gotime option" where
  "request_deadline req_timeout now = with_timeout req_timeout now None"

definition handle_deadline :: "duration \<Rightarrow> duration \<Rightarrow> gotime \<Rightarrow> gotime \<Rightarrow> gotime option" where
  "handle_deadline req_timeout db_timeout now now' = with_timeout db_timeout now' (request_deadline req_timeout now)"

section \<open>Headers\<close>

text \<open>A response: its status, its headers, whether a body was written.\<close>

record response =
  rs_status :: int
  rs_headers :: "(string, string) gomap"
  rs_written :: bool

text \<open>
  \<open>http.StatusText\<close> and the formatted time are arguments. Setting a header to the empty text
  removes it; header names are compared as written here.
\<close>

definition set_header :: "string \<Rightarrow> string \<Rightarrow> (string, string) gomap \<Rightarrow> (string, string) gomap" where
  "set_header key v h = (if v = [] then filter (\<lambda>(k, _). k \<noteq> key) h else gm_put key v h)"

definition standard_headers :: "string \<Rightarrow> incoming \<Rightarrow> (string, string) gomap \<Rightarrow> (string, string) gomap" where
  "standard_headers time_text r h =
     set_header ''Access-Control-Expose-Headers'' ''Request-ID, Request-Time, Status-Code, Status-Msg''
       (set_header ''Request-Time'' time_text
         (set_header ''Request-ID'' (in_request_id r)
           (set_header ''Content-Type'' ''application/json; charset=UTF-8'' h)))"

definition status_headers :: "(int \<Rightarrow> string) \<Rightarrow> int \<Rightarrow> (string, string) gomap \<Rightarrow> (string, string) gomap" where
  "status_headers status_text code h = gm_put ''Status-Msg'' (status_text code) (gm_put ''Status-Code'' (itoa code) h)"

section \<open>The chain\<close>

definition too_many_requests :: int where
  "too_many_requests = 429"

text \<open>
  A request behind the CORS check, when it has its slot: refused by the limiter, or served by
  its endpoint. The status headers are set from the status of the reply at its first write,
  and after the chain when nothing was written (the status is 200 then).
\<close>

definition serve_request ::
  "('w \<Rightarrow> bool \<times> 'w) \<Rightarrow> (int \<Rightarrow> string) \<Rightarrow> string \<Rightarrow> 'q query_binding \<Rightarrow> (service_error \<Rightarrow> string)
    \<Rightarrow> ('c, 'w) service_deps \<Rightarrow> endpoint \<Rightarrow> 'q \<Rightarrow> incoming \<Rightarrow> ('c, 'w) service
    \<Rightarrow> (response \<times> ('c, 'w) service) option" where
  "serve_request allow status_text time_text B text_of E ep q r s =
     (let h = standard_headers time_text r [];
          (ok, w) = allow (sv_world s);
          s = s\<lparr>sv_world := w\<rparr> in
      if \<not> ok then
        Some (\<lparr>rs_status = too_many_requests, rs_headers = status_headers status_text too_many_requests h,
               rs_written = True\<rparr>, s)
      else
        do { (reply, s) \<leftarrow> serve_endpoint B text_of E ep q (in_body r) s;
             let code = (case reply of None \<Rightarrow> 200 | Some (code, _) \<Rightarrow> code);
             Some (\<lparr>rs_status = code, rs_headers = status_headers status_text code h, rs_written = (reply \<noteq> None)\<rparr>, s) })"

end
