(* ===== verification/Wiring_Properties.thy ===== *)
theory Wiring_Properties
  imports Wiring Http_Properties Database_Properties
begin

text \<open>
  The program as its providers put it together: safe for every outside, and the lifetime it
  gives the customer profiles it stores. Each property is followed by an instance.
\<close>

lemma provided_fields [simp]:
  "sd_caches (provide_delivery_service X cfg getenv) = ex_caches X"
  "sd_has_metric (provide_delivery_service X cfg getenv)"
  "sd_occurrences (provide_delivery_service X cfg getenv) = Some (occurrence_repository (ex_database X))"
  "sd_rules (provide_delivery_service X cfg getenv) = Some (get_rules_by_schedule_ids (ex_database X))"
  "sd_evaluator (provide_delivery_service X cfg getenv) = Some (local_evaluator (ex_uuid X))"
  by (simp_all add: provide_delivery_service_def)

text \<open>A cache that has nothing in it.\<close>

definition empty_cache :: "'c cache_ops \<Rightarrow> 'c \<Rightarrow> bool" where
  "empty_cache C c =
     (\<forall>now key. gc_get (co_schedules C) c now key = None \<and> gc_get (co_rules C) c now key = None)"

lemma provided_initial:
  assumes "empty_cache (ex_caches X) fresh"
  shows "initial (provide_delivery_service X cfg getenv) (provided_service w fresh)"
  using assms
  by (simp add: initial_def provided_service_def new_service_def provide_cache_memory_def complete_cache_def
      empty_cache_def cache_all_def)

text \<open>The program as it is wired, with any configuration and environment, answers every request to
  every endpoint without a panic in every state it can get into, whatever the database (as long
  as it holds rows), Redis, CLEN, the clock and the memory do: each may fail or change at every
  call.\<close>

theorem program_answers:
  assumes "mirror_laws (ex_caches X)" and "uuid_laws (ex_uuid X)" and "empty_cache (ex_caches X) fresh"
    and "\<And>w db. fst (ex_database X w) = Inr db \<Longrightarrow> tables_ok db"
    and "service_reachable (provide_delivery_service X cfg getenv) (provided_service w fresh) s"
  shows "\<exists>r s'. serve_endpoint B text_of (provide_delivery_service X cfg getenv) ep q body s = Some (r, s')
    \<and> service_reachable (provide_delivery_service X cfg getenv) (provided_service w fresh) s'
    \<and> (answered_status r \<longleftrightarrow> \<not> (ep = Get_Content \<and> (\<exists>e. qb_content B q = Inl (Malformed_Query e))))"
proof -
  have "provided rule_loaded (provide_delivery_service X cfg getenv)"
    by (rule repositories_provide [OF _ _ _ _ _ assms(2) assms(4)]) (simp_all add: assms(1))
  from endpoint_serves [OF this provided_initial [OF assms(3)] assms(5)] show ?thesis .
qed

text \<open>An outside where the database fails now and then, and Redis and CLEN always do.\<close>

definition demo_outside :: "(cached std_store, int) outside" where
  "demo_outside =
     \<lparr>ex_uuid = std_uuid, ex_caches = std_ops, ex_now = (\<lambda>w. \<lparr>tm_ns = w, tm_off = 0\<rparr>), ex_time_string = (\<lambda>_. []),
      ex_marshal_schedules = (\<lambda>_. None), ex_marshal_rule = (\<lambda>_. None), ex_database = flaky demo_db,
      ex_redis =
        \<lparr>rc_get = (\<lambda>w key. (Inl (Redis_Error ''down''), w)), rc_set = (\<lambda>w key v ttl. (Some (Redis_Error ''down''), w)),
         rc_hget = (\<lambda>w key f. (Inl Redis_Nil, w)), rc_hset = (\<lambda>w key f v. (None, w)), rc_flush_db = (\<lambda>w. (None, w)),
         rc_del = (\<lambda>w key. (None, w)), rc_publish = (\<lambda>w channel msg. (None, w)), rc_receive = (\<lambda>w channel. (None, w))\<rparr>,
      ex_http = \<lparr>ht_send = (\<lambda>st w req. (Inl ''down'', w)), ht_new_id = (\<lambda>w. ([], w)), ht_now = (\<lambda>w. \<lparr>tm_ns = w, tm_off = 0\<rparr>)\<rparr>,
      ex_redis_text = (\<lambda>_. ''redis''), ex_clen_text = (\<lambda>_. ''clen'')\<rparr>"

definition demo_config :: app_config where
  "demo_config =
     \<lparr>ac_env = ''DEVLOCAL'',
      ac_redis = \<lparr>rf_host = ''h'', rf_port = ''1'', rf_username = [], rf_password = [], rf_tls = False, rf_principal_id = []\<rparr>,
      ac_cache_ttl = hour_ns, ac_refresh_interval = minute_ns,
      ac_lead = \<lparr>lg_base_url = ''u'', lg_path = [], lg_api_key = ''k'', lg_app_identifier = [], lg_timeout = 0,
        lg_retry_count = 2, lg_expire_filter = ''None''\<rparr>\<rparr>"

definition demo_env :: environment where
  "demo_env key = (if key = ''CLEN_CUSTOMER_PROFILE_CACHE_TTL'' then ''-1s'' else [])"

lemma demo_fresh: "empty_cache (ex_caches demo_outside) []"
  by (simp add: empty_cache_def demo_outside_def std_ops_def std_cache_def std_get_def gm_get_def)

theorem program_answers_witness:
  "\<exists>r s'. serve_endpoint demo_binding (\<lambda>e. ''failed'') (provide_delivery_service demo_outside demo_config demo_env)
        Get_Content ''q'' None (provided_service 0 []) = Some (r, s')
    \<and> service_reachable (provide_delivery_service demo_outside demo_config demo_env) (provided_service 0 []) s'
    \<and> (answered_status r \<longleftrightarrow> \<not> (Get_Content = Get_Content \<and> (\<exists>e. qb_content demo_binding ''q'' = Inl (Malformed_Query e))))"
  by (rule program_answers [OF _ _ demo_fresh _ service_reachable.Start])
    (use std.mirror_laws_axioms demo_tables in
      \<open>auto simp: demo_outside_def canonical.uuid_laws_axioms flaky_def split: if_splits\<close>)

section \<open>The lifetime of stored profiles\<close>

text \<open>C39: Whatever the environment says, a customer profile is stored in Redis for a time: five minutes
  when the variable is unset or unreadable, an hour when it is not positive, and never as an item
  without expiry or with one that overflows.\<close>

theorem stored_profiles_expire:
  assumes "E = provide_delivery_service X cfg getenv" and "redis = redis_repository (ex_redis_text X) (ex_redis X)"
    and "ttl = getenv ''CLEN_CUSTOMER_PROFILE_CACHE_TTL''"
  shows "\<exists>d. store_profile E key body s = s\<lparr>sv_world := snd (rd_set redis (sv_world s) key body d)\<rparr>
    \<and> 0 < d \<and> d < 2 ^ 63
    \<and> d = (if ttl = [] \<or> parse_duration ttl = None then 5 * minute_ns
        else if the (parse_duration ttl) \<le> 0 then hour_ns else the (parse_duration ttl))"
proof -
  have ns: "0 < 5 * minute_ns" "5 * minute_ns < 2 ^ 63" "0 < hour_ns" "hour_ns < 2 ^ 63"
    by (simp_all add: hour_ns_def minute_ns_def second_ns_def)
  show ?thesis
  proof (cases "ttl = [] \<or> parse_duration ttl = None")
    case True
    then have "provide_enrich_ttl getenv = 5 * minute_ns"
      by (auto simp: provide_enrich_ttl_def parse_duration_env_def assms(3))
    with True ns show ?thesis
      by (intro exI [of _ "5 * minute_ns"]) (simp add: store_profile_def provide_delivery_service_def assms(1,2) Let_def)
  next
    case False
    then obtain d where d: "parse_duration ttl = Some d" by auto
    with False have "provide_enrich_ttl getenv = d"
      by (simp add: provide_enrich_ttl_def parse_duration_env_def assms(3))
    with False d ns parse_duration_bounds [OF d] show ?thesis
      by (intro exI [of _ "if d \<le> 0 then hour_ns else d"])
        (simp add: store_profile_def provide_delivery_service_def assms(1,2) Let_def default_profile_ttl_def)
  qed
qed

theorem stored_profiles_expire_witness:
  "\<exists>d. store_profile (provide_delivery_service demo_outside demo_config demo_env) ''k'' ''{}'' demo_empty =
      demo_empty\<lparr>sv_world := snd (rd_set (redis_repository (ex_redis_text demo_outside) (ex_redis demo_outside))
        (sv_world demo_empty) ''k'' ''{}'' d)\<rparr>
    \<and> 0 < d \<and> d < 2 ^ 63
    \<and> d = (if ''-1s'' = [] \<or> parse_duration ''-1s'' = None then 5 * minute_ns
        else if the (parse_duration ''-1s'') \<le> 0 then hour_ns else the (parse_duration ''-1s''))"
  by (rule stored_profiles_expire [OF refl refl]) (simp add: demo_env_def)

text \<open>A retry count of zero in the environment is taken for an unset one: the client retries three times.\<close>

lemma zero_retries_are_three:
  assumes "getenv ''CLEN_CUSTOMER_PROFILE_API_RETRIES'' = ''0''"
    and "new_profile_client (provide_profile_config getenv) = Some (c, st)"
  shows "pc_retry_count c = 0 \<and> rs_retry_count st = 3"
proof -
  have "profile_retries getenv = 0"
    by (simp add: profile_retries_def assms(1) parse_int64_def is_digit_def dig_def)
  then show ?thesis
    using assms(2) by (auto simp: new_profile_client_def provide_profile_config_def new_rest_client_def Let_def split: if_splits)
qed

end
