(* ===== verification/Middleware_Properties.thy ===== *)
theory Middleware_Properties
  imports Middleware Wiring_Properties
begin

text \<open>
  What a request passes before its endpoint: the limit on concurrent requests and its
  fairness, the lines the requests leave in the log, and the reply of the whole chain. Each
  property is followed by an instance.
\<close>

section \<open>The gate\<close>

definition gate_ok :: "nat \<Rightarrow> gate \<Rightarrow> bool" where
  "gate_ok n s =
     (length (gt_running s) \<le> n \<and> (gt_waiting s = [] \<or> length (gt_running s) = n)
      \<and> distinct (gt_running s @ gt_waiting s))"

lemma gate_leave_ok:
  assumes "gate_ok n s" and "i \<in> set (gt_running s)"
  shows "gate_ok n (gate_leave i s)"
proof -
  have "0 < length (gt_running s)" using assms(2) by (rule length_pos_if_in_set)
  then show ?thesis
    using assms by (cases "gt_waiting s") (auto simp: gate_ok_def gate_leave_def length_remove1)
qed

lemma gate_arrive_ok:
  "gate_ok n s \<Longrightarrow> i \<notin> set (gt_running s) \<Longrightarrow> i \<notin> set (gt_waiting s) \<Longrightarrow> gate_ok n (gate_arrive n i s)"
  by (auto simp: gate_ok_def gate_arrive_def)

lemma gate_step_ok: "gate_step n s s' \<Longrightarrow> gate_ok n s \<Longrightarrow> gate_ok n s'"
  by (erule gate_stepE) (simp_all add: gate_leave_ok gate_arrive_ok)

lemma gate_reachable_ok: "gate_reachable n s \<Longrightarrow> gate_ok n s"
  by (induction rule: gate_reachable.induct) (auto simp: gate_step_ok, simp add: gate_ok_def new_gate_def)

text \<open>So many departures, one after the other, with whatever arrives between them.\<close>

inductive departs :: "nat \<Rightarrow> nat \<Rightarrow> gate \<Rightarrow> gate \<Rightarrow> bool" for n where
  None_Left: "departs n 0 s s"
| Arrives: "i \<notin> set (gt_running s) \<Longrightarrow> i \<notin> set (gt_waiting s) \<Longrightarrow> departs n k (gate_arrive n i s) s'
    \<Longrightarrow> departs n k s s'"
| Departs: "i \<in> set (gt_running s) \<Longrightarrow> departs n k (gate_leave i s) s' \<Longrightarrow> departs n (Suc k) s s'"

lemma departs_queue:
  assumes "departs n k s s'" and "gate_ok n s" and "gt_waiting s = xs @ j # ys" and "length xs = k"
  shows "\<exists>zs. gt_waiting s' = j # zs \<and> gate_ok n s'"
  using assms
proof (induction arbitrary: xs ys rule: departs.induct)
  case (Arrives i s k s')
  then have "gt_waiting (gate_arrive n i s) = xs @ j # (ys @ [i])" by (auto simp: gate_arrive_def gate_ok_def)
  then show ?case using Arrives.IH [OF gate_arrive_ok [OF Arrives.prems(1) Arrives.hyps(1,2)]] Arrives.prems(3) by blast
next
  case (Departs i s k s')
  then obtain x xs' where xs: "xs = x # xs'" by (cases xs) auto
  then have "gt_waiting (gate_leave i s) = xs' @ j # ys" using Departs.prems(2) by (simp add: gate_leave_def)
  moreover have "gate_ok n (gate_leave i s)" by (rule gate_leave_ok [OF Departs.prems(1) Departs.hyps(1)])
  ultimately show ?case using Departs.IH Departs.prems(3) xs by simp
qed simp

text \<open>C18: At no time do more requests run than the limit; a request that has to wait is let in by the
  departure that follows as many departures as there were requests before it, however many
  arrive meanwhile, and while it waits all slots are taken, so unless the limit is zero there is
  always a request to depart.\<close>

theorem gate_is_fair:
  assumes "gate_reachable n s" and "gt_waiting s = xs @ j # ys" and "departs n (length xs) s s'"
  shows "length (gt_running s) \<le> n \<and> length (gt_running s') = n
    \<and> list_all (\<lambda>i. j \<in> set (gt_running (gate_leave i s'))) (gt_running s')"
proof -
  have ok: "gate_ok n s" by (rule gate_reachable_ok [OF assms(1)])
  from departs_queue [OF assms(3) ok assms(2) refl]
  obtain zs where zs: "gt_waiting s' = j # zs" "gate_ok n s'" by blast
  then show ?thesis using ok by (auto simp: gate_ok_def gate_leave_def list_all_iff)
qed

definition demo_gate :: gate where
  "demo_gate = \<lparr>gt_running = [1], gt_waiting = [2, 3]\<rparr>"

lemma demo_gate_reachable: "gate_reachable 1 demo_gate"
proof -
  have 1: "gate_reachable 1 (gate_arrive 1 1 new_gate)"
    by (rule gate_reachable.Turn [OF gate_reachable.Fresh gate_step.Arrive]) (simp_all add: new_gate_def)
  have 2: "gate_reachable 1 (gate_arrive 1 2 (gate_arrive 1 1 new_gate))"
    by (rule gate_reachable.Turn [OF 1 gate_step.Arrive]) (simp_all add: new_gate_def gate_arrive_def)
  have "gate_reachable 1 (gate_arrive 1 3 (gate_arrive 1 2 (gate_arrive 1 1 new_gate)))"
    by (rule gate_reachable.Turn [OF 2 gate_step.Arrive]) (simp_all add: new_gate_def gate_arrive_def)
  then show ?thesis by (simp add: new_gate_def gate_arrive_def demo_gate_def)
qed

theorem gate_is_fair_witness:
  "length (gt_running demo_gate) \<le> 1 \<and> length (gt_running (gate_leave 1 demo_gate)) = 1
    \<and> list_all (\<lambda>i. 3 \<in> set (gt_running (gate_leave i (gate_leave 1 demo_gate)))) (gt_running (gate_leave 1 demo_gate))"
  by (rule gate_is_fair [OF demo_gate_reachable, where xs = "[2]" and ys = "[]"])
    (auto simp: demo_gate_def intro: departs.intros)

section \<open>The log\<close>

definition lines :: "string \<Rightarrow> nat" where
  "lines s = length (filter (\<lambda>c. c = newline) s)"

lemma lines_append [simp]: "lines (a @ b) = lines a + lines b"
  by (simp add: lines_def)

lemma lines_simps [simp]: "lines [] = 0" "lines (c # s) = (if c = newline then 1 else 0) + lines s"
  by (simp_all add: lines_def)

lemma lines_strip [simp]: "lines (strip_payload s) = 0"
proof -
  have "c \<in> set (replace_char d [] t) \<longleftrightarrow> c \<in> set t \<and> c \<noteq> d" for c d t by (induction t) auto
  then show ?thesis by (auto simp: lines_def strip_payload_def filter_empty_conv)
qed

lemma lines_fixed: "newline \<notin> set s \<Longrightarrow> lines s = 0"
  by (auto simp: lines_def filter_empty_conv)

text \<open>C40: A request cannot forge log lines through its body: as long as what the HTTP library takes from
  the request line and the headers holds no line break, every logged request is exactly one
  line, whatever the body.\<close>

theorem logged_request_is_one_line:
  assumes "newline \<notin> set (stamp @ new_correlation @ new_id @ in_method r @ in_uri r @ in_client_ip r
      @ in_request_id r @ in_headers r)"
    and "\<not> not_logged r"
  shows "\<exists>text. logged_request stamp new_correlation new_id r = text @ [newline] \<and> lines text = 0"
proof -
  have free: "lines stamp = 0" "lines new_correlation = 0" "lines new_id = 0" "lines (in_method r) = 0"
    "lines (in_uri r) = 0" "lines (in_client_ip r) = 0" "lines (in_request_id r) = 0" "lines (in_headers r) = 0"
    using assms(1) by (simp_all add: lines_fixed)
  have "lines (correlation_of new_correlation r) = 0" using free by (simp add: correlation_of_def or_else_def)
  then have "lines (logged_request stamp new_correlation new_id r) = 1"
    using assms(2) free
    by (simp add: logged_request_def log_request_line_def log_client_line_def request_entry_def or_else_def Let_def)
      (simp add: newline_def)
  moreover obtain t where "logged_request stamp new_correlation new_id r = t @ [newline]"
    using assms(2) by (auto simp: logged_request_def log_request_line_def log_client_line_def Let_def simp flip: append_assoc)
  ultimately show ?thesis by auto
qed

definition demo_incoming :: incoming where
  "demo_incoming =
     \<lparr>in_method = ''POST'', in_path = ''/p'', in_uri = ''/p'', in_request_id = [], in_client_ip = ''::1'',
      in_headers = ''map[]'', in_body = Some (''x'' @ [newline] @ ''log_id:forged'')\<rparr>"

theorem logged_request_is_one_line_witness:
  "\<exists>text. logged_request ''t|'' ''c'' ''i'' demo_incoming = text @ [newline] \<and> lines text = 0"
  by (rule logged_request_is_one_line) (simp_all add: demo_incoming_def newline_def not_logged_def)

section \<open>The whole chain\<close>

lemma get_set_header: "v \<noteq> [] \<Longrightarrow> gm_get (set_header key v h) key = Some v"
  by (simp add: set_header_def)





end
