(* ===== verification/Ping_Properties.thy ===== *)
theory Ping_Properties
  imports Database_Properties Mirror_Properties
begin

text \<open>
  The life of a change in the backoffice: it is written to the tables, PingSync announces it,
  and the subscriber of a pod brings the placement up to date. Followed by an instance.
\<close>

text \<open>C3: A ping that the mirror does not know yet, whether or not other goroutines ran during the random
  wait, leaves the pod serving what the tables publish for the placement: the next request for it
  returns exactly the offers of the schedules that were due when the wait was over, with the rules
  as they are in the database.\<close>

theorem ping_publishes_change:
  assumes "mirror_laws (sd_caches E)" and "uuid_laws (sd_uuid E)" and "mirror_ready E s"
    and "mirror_ready E (wait s)" and "\<not> pressured (wait s)"
    and "is_ascii name" and "is_ascii rule_id" and "is_ascii hash"
    and "hash = [] \<or> mv_versions (view_of E s) name \<noteq> Some hash \<and> mv_versions (view_of E (wait s)) name \<noteq> Some hash"
    and "sd_occurrences E = Some (occurrence_repository C)" and "sd_rules E = Some (get_rules_by_schedule_ids C)"
    and "sd_evaluator E = Some (local_evaluator U)" and "uuid_laws U"
    and "reads C db" and "tables_ok db" and "\<not> customer_is_empty c"
    and "publishable db (now_of E (wait s)) name"
  shows "\<exists>s' rules s0 attrs s1 leads s2 xs.
    handle_message E (marshal_ping \<lparr>sp_placement_name = name, sp_version_hash = hash, sp_decision_rule_id = rule_id\<rparr>)
      wait s = Some s'
    \<and> covers rules {r. \<exists>sc \<in> published db (now_of E (wait s)) name. sc_rule sc = Some r}
    \<and> resolve_user_attrs E (cu_type c) (customer_value c) rules s0 = (attrs, s1)
    \<and> fetch_leads_for_request E c cnl [name] rules s1 = (leads, s2)
    \<and> get_personalized_content E (Some c) cnl [name] s' = Some (Inr xs, s2)
    \<and> (\<forall>x. x \<in> set xs \<longleftrightarrow> (\<exists>sc \<in> published db (now_of E (wait s)) name.
        offered U name (Some (gm_get attrs)) leads sc x))"
proof -
  let ?ping = "\<lparr>sp_placement_name = name, sp_version_hash = hash, sp_decision_rule_id = rule_id\<rparr>"
  have decoded: "unmarshal_ping (marshal_ping ?ping) = (?ping, True)"
    by (rule unmarshal_marshal_ping) (simp add: ascii_ping_def assms(6-8))
  have name: "name \<noteq> []" using assms(17) by (simp add: publishable_def)
  have unknown: "already_mirrored E ?ping s = Some False" "already_mirrored E ?ping (wait s) = Some False"
    using assms(9) by (auto simp: already_mirrored_view assms(3,4))
  obtain s1 where s1: "invalidate E ?ping (wait s) = Some s1" "mirror_ready E s1" "\<not> pressured s1"
    and world: "sv_world s1 = sv_world (wait s)"
    by (rule invalidate_ready [OF assms(1,4), of ?ping]) (use assms(5) in auto)
  have now: "now_of E s1 = now_of E (wait s)" by (simp add: now_of_def world)
  obtain s' ss where s': "evaluate E [name] s1 = Some s'" "mirror_ready E s'" "can_serve E s' name ss"
    "set ss = published db (now_of E (wait s)) name"
    by (rule targeted_can_serve [OF assms(1) s1(2,3) assms(10,11,14,15) _ assms(2)]) (use assms(17) in \<open>auto simp: now\<close>)
  have "handle_message E (marshal_ping ?ping) wait s = Some s'"
    by (simp add: handle_message_def receive_message_def decoded unknown apply_ping_def s1(1) s'(1) name)
  moreover have "\<exists>ss. can_serve E s' n ss \<and> set ss = published db (now_of E (wait s)) n" if "n \<in> set [name]" for n
    using that s'(3,4) by auto
  from published_offers [where cnl = cnl and names = "[name]", OF s'(2) _ this assms(16,12,13) _ assms(15)] assms(10)
  have "\<exists>rules s0 attrs s1 leads s2 xs.
    covers rules {r. \<exists>sc \<in> published db (now_of E (wait s)) name. sc_rule sc = Some r}
    \<and> resolve_user_attrs E (cu_type c) (customer_value c) rules s0 = (attrs, s1)
    \<and> fetch_leads_for_request E c cnl [name] rules s1 = (leads, s2)
    \<and> get_personalized_content E (Some c) cnl [name] s' = Some (Inr xs, s2)
    \<and> (\<forall>x. x \<in> set xs \<longleftrightarrow> (\<exists>sc \<in> published db (now_of E (wait s)) name.
        offered U name (Some (gm_get attrs)) leads sc x))" by simp
  ultimately show ?thesis by blast
qed

theorem ping_publishes_change_witness:
  "\<exists>s' rules s0 attrs s1 leads s2 xs.
    handle_message (demo_wiring demo_db) (marshal_ping \<lparr>sp_placement_name = ''home'', sp_version_hash = ''v2'',
      sp_decision_rule_id = ''r''\<rparr>) (\<lambda>s. s) (demo_full 4) = Some s'
    \<and> covers rules {r. \<exists>sc \<in> published demo_db (now_of (demo_wiring demo_db) (demo_full 4)) ''home''. sc_rule sc = Some r}
    \<and> resolve_user_attrs (demo_wiring demo_db) (cu_type demo_customer) (customer_value demo_customer) rules s0 = (attrs, s1)
    \<and> fetch_leads_for_request (demo_wiring demo_db) demo_customer ''app'' [''home''] rules s1 = (leads, s2)
    \<and> get_personalized_content (demo_wiring demo_db) (Some demo_customer) ''app'' [''home''] s' = Some (Inr xs, s2)
    \<and> (\<forall>x. x \<in> set xs \<longleftrightarrow> (\<exists>sc \<in> published demo_db (now_of (demo_wiring demo_db) (demo_full 4)) ''home''.
        offered std_uuid ''home'' (Some (gm_get attrs)) leads sc x))"
proof (rule ping_publishes_change [where wait = "\<lambda>s. s" and s = "demo_full 4", OF _ _ _ _ demo_full_ready(2) _ _ _ _ _ _ _ _ demo_reads demo_tables])
  show "mirror_laws (sd_caches (demo_wiring demo_db))" using std.mirror_laws_axioms by simp
  show "mirror_ready (demo_wiring demo_db) (demo_full 4)" using demo_full_ready(1) by simp
  then show "mirror_ready (demo_wiring demo_db) (demo_full 4)" .
  show "publishable demo_db (now_of (demo_wiring demo_db) (demo_full 4)) ''home''" using demo_publishable by simp
  show "''v2'' = [] \<or> mv_versions (view_of (demo_wiring demo_db) (demo_full 4)) ''home'' \<noteq> Some ''v2''
      \<and> mv_versions (view_of (demo_wiring demo_db) (demo_full 4)) ''home'' \<noteq> Some ''v2''"
    by (simp add: view_of_def demo_full_def new_service_def demo_memory_def cache_view_def versions_at_def cm_get_def
        std_ops_def std_cache_def std_get_def gm_get_def)
qed (simp_all add: canonical.uuid_laws_axioms demo_customer_def customer_is_empty_def is_ascii_def)

end
