(* ===== verification/Attribute_Options.thy ===== *)
theory Attribute_Options
  imports Entities Json_Round_Trip
begin

text \<open>
  Attribute.ValidOptions of src/internal/domain/entity/attribute.go: the values an attribute
  allows, read from its JSON column, which holds a list of texts or a list of objects.
\<close>

type_synonym value_option = string

definition value_option_fields :: "value_option field list" where
  "value_option_fields = [mk_field ''value'' dec_string (\<lambda>r. r) (\<lambda>v r. v)]"

text \<open>No constraint is \<open>Inr None\<close>; the error carries the identifier of the attribute in its text.\<close>

definition valid_options :: "attribute \<Rightarrow> unit + string set option" where
  "valid_options a =
     (if at_value a = [] then Inr None
      else
        (case unmarshal (dec_slice dec_string []) [] (at_value a) of
           (simple, True) \<Rightarrow> Inr (Some (set simple))
         | (_, False) \<Rightarrow>
             (case unmarshal (dec_slice (dec_struct value_option_fields) []) [] (at_value a) of
                (structured, True) \<Rightarrow> Inr (Some (set structured))
              | (_, False) \<Rightarrow> Inl ())))"

section \<open>Both formats\<close>

definition json_list :: "string list \<Rightarrow> string" where
  "json_list xs = CHR 0x5B # join '','' xs @ [CHR 0x5D]"

definition option_object :: "string \<Rightarrow> string" where
  "option_object v = CHR 0x7B # string_members [(''value'', v)] @ [CHR 0x7D]"

text \<open>A text that is one JSON value, wherever it stands.\<close>

definition parses_as :: "nat \<Rightarrow> string \<Rightarrow> json \<Rightarrow> bool" where
  "parses_as d s j = (s \<noteq> [] \<and> hd s \<noteq> CHR 0x5D \<and> (\<forall>r. skip_ws (s @ r) = s @ r \<and> parse_value d (s @ r) = Some (j, r)))"

lemma parse_list_elems:
  assumes "xs \<noteq> []" and "list_all (\<lambda>x. parses_as d (e x) (j x)) xs"
  shows "parse_elems d (join '','' (map e xs) @ CHR 0x5D # r) = Some (map (\<lambda>x. (e x, j x)) xs, r)"
  using assms
proof (induction xs rule: list_nonempty_induct)
  case (single x)
  then show ?case by (simp add: parse_elems.simps parses_as_def skip_ws_def is_ws_def)
next
  case (cons x xs)
  obtain y ys where xs: "xs = y # ys" using cons.hyps by (cases xs) auto
  have join: "join '','' (map e (x # xs)) = e x @ CHR '','' # join '','' (map e xs)" by (simp add: xs)
  have skip: "skip_ws (join '','' (map e xs) @ s) = join '','' (map e xs) @ s" for s
    using cons.prems by (cases ys) (simp_all add: xs parses_as_def)
  show ?case
    unfolding join using cons.prems cons.IH
    by (simp add: parse_elems.simps [of d "e x @ _"] parses_as_def skip)
qed

lemma parse_list:
  assumes "xs \<noteq> []" and "list_all (\<lambda>x. parses_as 1 (e x) (j x)) xs"
  shows "json_parse (json_list (map e xs)) = Some (JArr (map (\<lambda>x. (e x, j x)) xs))"
proof -
  obtain x ys where xs: "xs = x # ys" using assms(1) by (cases xs) auto
  then obtain c cs where c: "join '','' (map e xs) @ [CHR 0x5D] = c # cs" and "c \<noteq> CHR 0x5D"
    and skip: "skip_ws (c # cs) = c # cs"
    using assms(2) by (cases "e x"; cases ys) (auto simp: parses_as_def)
  then show ?thesis
    using parse_list_elems [OF assms, of "[]"]
    by (simp add: json_parse_def json_list_def parse_value.simps max_nesting_def skip_ws_def is_ws_def)
qed

lemma quote_parses: "is_ascii v \<Longrightarrow> parses_as d (quote v) (JStr v)"
  by (simp add: parses_as_def parse_value_quote) (simp add: quote_def)

lemma object_parses:
  assumes "is_ascii v" and "d < max_nesting"
  shows "parses_as d (option_object v) (JObj [(''value'', quote v, JStr v)])"
proof -
  have "is_ascii ''value''" by (simp add: is_ascii_def)
  then have "parse_members (Suc d) (string_members [(''value'', v)] @ CHR 0x7D # r) = Some ([(''value'', quote v, JStr v)], r)" for r
    using parse_string_members [of "[(''value'', v)]" "Suc d" r] assms(1) by simp
  moreover obtain t where "string_members [(''value'', v)] = CHR 0x22 # t"
    using key_colon_open [of "''value''" "quote v"] by (auto simp: string_members_def)
  ultimately show ?thesis
    using assms(2) by (simp add: parses_as_def option_object_def parse_value.simps)
qed

lemma decodes_texts:
  "dec_elems dec_string [] olds (map (\<lambda>v. (e v, JStr v)) vs) = (vs, True)"
  by (induction vs arbitrary: olds) (simp_all add: dec_string_def)

lemma decodes_objects:
  "dec_elems (dec_struct value_option_fields) [] olds (map (\<lambda>v. (e v, JObj [(''value'', quote v, JStr v)])) vs) = (vs, True)"
  by (induction vs arbitrary: olds)
    (simp_all add: dec_struct_def find_field_def value_option_fields_def mk_field_def dec_string_def)

lemma objects_are_no_texts:
  "vs \<noteq> [] \<Longrightarrow> \<not> snd (dec_elems dec_string [] olds (map (\<lambda>v. (e v, JObj (ms v))) vs))"
  by (cases vs) (simp_all add: dec_string_def split_beta)

text \<open>The two formats of an attribute's options mean the same: a list of texts and the list of
  objects that carry them both give the set of the texts.\<close>

lemma options_in_both_formats:
  assumes "vs \<noteq> []" and "list_all is_ascii vs"
  shows "valid_options (a\<lparr>at_value := json_list (map quote vs)\<rparr>) = Inr (Some (set vs))
    \<and> valid_options (a\<lparr>at_value := json_list (map option_object vs)\<rparr>) = Inr (Some (set vs))"
proof -
  have "json_parse (json_list (map quote vs)) = Some (JArr (map (\<lambda>v. (quote v, JStr v)) vs))"
    by (rule parse_list [OF assms(1)]) (use assms(2) in \<open>simp add: list_all_iff quote_parses\<close>)
  moreover have "json_parse (json_list (map option_object vs))
      = Some (JArr (map (\<lambda>v. (option_object v, JObj [(''value'', quote v, JStr v)])) vs))"
    by (rule parse_list [OF assms(1)]) (use assms(2) in \<open>simp add: list_all_iff object_parses max_nesting_def\<close>)
  moreover have "json_list xs \<noteq> []" for xs by (simp add: json_list_def)
  ultimately show ?thesis
    using objects_are_no_texts [OF assms(1), of "[]" option_object "\<lambda>v. [(''value'', quote v, JStr v)]"]
    by (simp add: valid_options_def unmarshal_def dec_slice_def decodes_texts decodes_objects split_beta
        split: prod.splits bool.splits)
qed

text \<open>A null column, which the JSON type reads as the text null, allows no value at all.\<close>

lemma null_allows_nothing: "valid_options (a\<lparr>at_value := ''null''\<rparr>) = Inr (Some {})"
proof -
  have "json_parse ''null'' = Some JNull"
    by (simp add: json_parse_def parse_value.simps skip_ws_def is_ws_def has_prefix_def)
  then show ?thesis by (simp add: valid_options_def unmarshal_def dec_slice_def)
qed

end
