(* ===== verification/Pkg_Util.thy ===== *)
theory Pkg_Util
  imports Http_Handler
begin

text \<open>
  The helpers of src/pkg/util for the environment and for slices of strings, and the routes
  of the program under the prefix that the environment sets.
\<close>

text \<open>\<open>os.LookupEnv\<close>: None is an unset variable; one that is set to the empty text counts.\<close>

definition get_env_with_default :: "(string \<rightharpoonup> string) \<Rightarrow> string \<Rightarrow> string \<Rightarrow> string" where
  "get_env_with_default lookup key dflt = (case lookup key of Some v \<Rightarrow> v | None \<Rightarrow> dflt)"

definition register_routes :: "(string \<rightharpoonup> string) \<Rightarrow> ((string \<times> string) \<times> endpoint) list" where
  "register_routes lookup =
     routes (get_env_with_default lookup ''PREFIX_CONTENT_STRATEGY_API_V1'' ''/api/content-strategy/v1'')"

lemma routes_distinct: "distinct (map fst (register_routes lookup)) \<and> distinct (map snd (register_routes lookup))"
  by (simp add: register_routes_def routes_def)

text \<open>The loop of UniqueStringsSlice; the map of the values seen is their set.\<close>

fun unique_loop :: "string set \<Rightarrow> string list \<Rightarrow> string list \<Rightarrow> string list" where
  "unique_loop seen result [] = result"
| "unique_loop seen result (v # vs) =
     (if v \<notin> seen then unique_loop (insert v seen) (result @ [v]) vs else unique_loop seen result vs)"

definition unique_strings_slice :: "string list \<Rightarrow> string list" where
  "unique_strings_slice xs = unique_loop {} [] xs"

text \<open>It keeps the first of every value, in the order of the input.\<close>

lemma unique_loop_eq:
  "unique_loop (set result) result vs = result @ rev (remdups (rev (filter (\<lambda>v. v \<notin> set result) vs)))"
proof (induction vs arbitrary: result)
  case (Cons v vs)
  have "filter (\<lambda>x. x \<notin> set (result @ [v])) vs = filter (\<lambda>x. x \<noteq> v) (filter (\<lambda>x. x \<notin> set result) vs)"
    by (auto intro: filter_cong)
  moreover have "remdups (xs @ [v]) = remdups (filter (\<lambda>x. x \<noteq> v) xs) @ [v]" for xs :: "string list"
    by (induction xs) auto
  ultimately show ?case using Cons.IH [of "result @ [v]"] Cons.IH [of result] by (simp add: rev_filter)
qed simp

lemma unique_strings_slice_eq: "unique_strings_slice xs = rev (remdups (rev xs))"
  using unique_loop_eq [of "[]" xs] by (simp add: unique_strings_slice_def)

end
