(* ===== verification/Spec2Isabelle.thy ===== *)
theory Spec2Isabelle
  imports Evaluator_Properties Mirror_Properties Service_Properties Http_Properties Clen_Properties Database_Properties
    Redis_Properties Middleware_Properties Ping_Properties Attribute_Options Pkg_Util
begin

text \<open>
  A model of the content delivery server of the KBank ECMS content strategy service (Go; the
  files named below are under src/) and the theorems that make it correct. This theory only
  gathers the others.

  The program. A customer's request names placements of a channel. For each of them the server
  answers which content the active decision rules offer the customer. PostgreSQL holds the
  rules, the schedules that tie a rule to a placement, and the occurrences (time windows) of
  schedules. The server does not read them per request: it keeps a mirror of what is due, in
  four in-process caches (schedules by placement, rules, version hashes, times of
  synchronisation). The mirror is refreshed by a ticker, by a request that finds a placement
  older than the staleness threshold, and by pings on a Redis channel, which the backoffice
  publishes when a rule changes. A request collects the mirrored schedules, completes their
  rules, resolves the attributes of the customer (a cached envelope in Redis, enriched with
  fields from the CLEN profile service), fetches the customer's leads from CLEN where a rule
  sells by leads, evaluates the condition trees of the rules over the attributes, and returns
  the results in descending order of score.

  The layers, from the bottom. Each theory opens with what it holds.

  Go itself and its library, as far as the code uses them: Go_Unicode and Go_Strings (byte
  strings, case folding), Go_Float (binary64 with correct rounding, and its parser), Go_Time,
  Go_Duration, Go_Sha256, Go_Sort, Go_Json with Json_Round_Trip, and Uuid. Prelude has the
  shared vocabulary: errors as sums, Go maps as association lists, collections of rules.

  Data: Enums (internal/domain/entity/enums), Entities (internal/domain/entity and
  internal/delivery/http/dto), Attribute_Options (Attribute.ValidOptions).

  Evaluation (cmd/server/internal/evaluator): Parsed_Values (the lazy parse caches of
  condition_evaluator.go), Condition_Compare (comparators, condition_sentinels.go),
  Condition_Tree (condition_normalization.go, condition_validation.go), Condition_Eval
  (EvaluateLogicConditions), Local_Evaluator (placement_logic.go, lead_enrichment.go,
  evaluator.go). Condition_Spec is the specification: no caches, a sibling chain read as a
  disjunction of conjunctions, the first error ends it; its second half is the refinement.

  The mirror: Cache_Memory (internal/infrastructure/cache), Memory_Mirror (MemoryCache of
  cmd/server/service/cms_delivery_service.go), Delivery_Service (evaluate and its helpers,
  FlushCache, GetStatus, GetCacheValue). Mirror_Refresh and Mirror_Flush state what these
  operations do on an abstract mirror, four finite maps (record mirror_view, function
  view_of), and prove that they do it; Sync_Subscriber is the publisher and the subscriber of
  pings.

  Requests: User_Attrs (cms_delivery_user_attrs.go), Personalized_Content
  (GetPersonalizedContent), Clen_Client (internal/http/client, pkg/util/httpclient and the
  repositories over them), Http_Handler (cmd/server/handler), Logger
  (internal/infrastructure/logger), Middleware (internal/delivery/http/middleware), Pkg_Util
  (pkg/util).

  Storage: Schedule_Database (internal/repository over PostgreSQL), Redis_Repository
  (redis_repository.go, pkg/util/cache.go). Wiring composes all of it as the providers of
  cmd/server/providers.go do.

  Whole-service facts: Mirror_Invariant and Serve_Invariant (the invariant of the service and
  that every operation keeps it and returns), Service_Machine (the goroutines taking turns, a
  step relation with its reachable states), Content_Spec (what a request is served from a
  young and complete mirror), Database_Spec (what the queries find, as sets of rows),
  Service_Lifecycle (Start, Stop and the life of the two goroutines, a machine of its own).

  Interfaces are locales, each interpreted on the model of its provider: what the evaluator
  and the service need of UUIDs, of the cache store, of the runtime evaluator, of sorting.

  What the theorems show.
  Evaluator_Properties: the cached evaluation is the specification; what passes and what is
  offered; validation accepts exactly the trees the forward links of connectors need; the
  logic expression and its hash do not depend on the order of loading, and when they diverge.
  Mirror_Properties: a full evaluation makes the mirror show what the database lists, a
  targeted one overlays and prunes, an error leaves it; flushing; pings leave no stale rule;
  memory pressure never adds a key.
  Service_Properties: the invariant, no panic in any reachable state; the served content is
  exactly the offers of the mirrored schedules; staleness is refused; attributes; Start and
  Stop close no channel twice in one run and every Stop returns.
  Clen_Properties: sales results carry a lead CLEN listed for that customer and placement.
  Http_Properties: every endpoint answers; a content reply is a page of the results; accepted
  queries name a customer.
  Database_Properties: from the tables to the content, end to end; the mirror in terms of
  rows; the bulk lookup of rules is the single one; maintenance changes no listing.
  Ping_Properties: a change that is announced by a ping is what the pod serves once the ping is
  handled, whatever ran during the wait.
  Redis_Properties: a subscription delivers in order, and everything unless its buffer was
  full; cache-aside reads remember. Wiring_Properties and Middleware_Properties: the program as
  it is wired replies to every request behind all its middleware; the concurrency gate is
  bounded and fair; bodies cannot forge log lines; stored profiles expire.
  Every property with a hypothesis is followed by an instance on concrete data.

  How the code is read.
  What lies outside (database, Redis, CLEN, the clock, identifiers) is a world of arbitrary
  type: a call maps a world to an answer and a next world, so an answer may be an error at any
  time. Steps in memory take no time. The only laws assumed of the outside are documented ones:
  a cache item is found until its lifetime is over, parsing a printed UUID returns it,
  identifiers of rows are distinct.
  None as the result of an operation is a panic or a computation that does not return; the
  theorems that an operation returns exclude both.
  Schedules are shared through a heap of pointers, because the request path writes rules
  through the pointers that the mirror holds; rules are values. A Go map that is ranged over is
  an association list whose order stands for one order of the range.
  The placements of a request are evaluated concurrently in Go, each into its own slot; the
  model evaluates them one after the other. The subscriber takes a message in two moments,
  before and after its random wait, between which other goroutines may step.
  SQL is read relationally, with the soft deletion of GORM: a query on a model leaves deleted
  rows out, a raw JOIN does not.

  Bounds and fuel. Condition trees are evaluated to depth 4, the code's own limit, as the
  measure of the recursion. Rendering a tree is unbounded in Go; the model counts levels up to
  the number of conditions, a path longer than that meets a condition twice, so None is exactly
  divergence (build_logic_expression_total for distinct identifiers). JSON nests to 10000
  levels, the limit of encoding/json. Integers are kept at their width where it matters:
  words for SHA-256 and UUIDs, 64-bit limits in the parsers of numbers and durations. No other
  definition has fuel.

  Not modelled. cmd/server/docs is generated, main.go, fx_logger.go, the listener and the
  shutdown hooks of providers.go are calls of libraries; the health check and the database
  connection are pure I/O; the administration entities are declarations the server never
  operates on; scripts are not part of the server. Log output is left out of the operations
  (Logger has the lines themselves), and so are Prometheus counters, except the version gauge,
  which is seen through the sequence of calls on it. The JSON text of replies, the rounding of
  the memory usage in the status reply, query binding, CORS, the rate limiter and the HTTP and
  Redis clients are library code and arguments here. Values of a context.Context are arguments
  of what reads them. The generic verbs of RestClient have no caller.
\<close>

end
